(* ===== verification/Capsule_Prelude.thy ===== *)
theory Capsule_Prelude
  imports Main "HOL-Library.Word" "HOL-Library.List_Lexorder" "HOL-Library.Char_ord"
    "HOL-Library.AList" "HOL-Library.Multiset" "HOL-Library.Product_Lexorder"
begin

text \<open>
  Shared vocabulary of the development: the errors and results of fallible Go
  code, Go maps as association lists, the string and number helpers of the Go
  standard library that the components call, and generic lemmas about them.
  Go strings are HOL strings (byte lists), compared by the lexicographic order.
\<close>

named_theorems go_simps \<open>unfolding rules of the Go library helpers\<close>
named_theorems keeps_rules \<open>actions that keep a predicate of the state\<close>
named_theorems roundtrip \<open>decode after encode\<close>

section \<open>Errors and results\<close>

text \<open>A gRPC status code, as far as the controllers use them.\<close>

datatype grpc_code =
    InvalidArgument | NotFound | AlreadyExists | PermissionDenied
  | FailedPrecondition | Unauthenticated | Internal | Unimplemented | Unavailable

text \<open>An error value: a package-level sentinel (\<open>errors.New\<close> in a \<open>var\<close>), an
  error made at the point of return, an error wrapped by \<open>fmt.Errorf\<close> with
  \<open>%w\<close>, or a gRPC status. Messages keep the constant text of the format.\<close>

datatype go_error =
    Sentinel string
  | Errorf string
  | Wrap string go_error
  | Status grpc_code string

text \<open>\<open>errors.Is\<close> follows the chain of wrapped errors.\<close>

fun errors_is :: "go_error \<Rightarrow> go_error \<Rightarrow> bool" where
  "errors_is (Wrap m e) t = (Wrap m e = t \<or> errors_is e t)"
| "errors_is e t = (e = t)"

lemma errors_is_refl [simp]: "errors_is e e"
  by (cases e) simp_all

text \<open>The text of an error, as \<open>err.Error()\<close> builds it.\<close>

fun error_text :: "go_error \<Rightarrow> string" where
  "error_text (Sentinel m) = m"
| "error_text (Errorf m) = m"
| "error_text (Wrap m e) = m @ '': '' @ error_text e"
| "error_text (Status c m) = m"

text \<open>A Go function returning \<open>(T, error)\<close> returns \<open>Inl\<close> of the error or
  \<open>Inr\<close> of the value; an effectful one also returns the new state.\<close>

type_synonym 'a result = "go_error + 'a"
type_synonym ('w, 'a) action = "'w \<Rightarrow> 'a result \<times> 'w"

definition is_ok :: "'e + 'a \<Rightarrow> bool" where
  "is_ok r = (case r of Inl _ \<Rightarrow> False | Inr _ \<Rightarrow> True)"

lemma is_ok_simps [simp]: "is_ok (Inl e) = False" "is_ok (Inr x) = True"
  by (simp_all add: is_ok_def)

lemma is_ok_iff: "is_ok r \<longleftrightarrow> (\<exists>x. r = Inr x)"
  by (cases r) simp_all

section \<open>Actions\<close>

text \<open>Effectful calls in sequence: an error ends the sequence, \<open>fmt.Errorf\<close> wraps it, a deferred call
  runs whatever the outcome.\<close>

definition bind_action :: "('w, 'a) action \<Rightarrow> ('a \<Rightarrow> ('w, 'b) action) \<Rightarrow> ('w, 'b) action" where
  "bind_action m f w = (case m w of (Inl e, w1) \<Rightarrow> (Inl e, w1) | (Inr x, w1) \<Rightarrow> f x w1)"

definition wrap_action :: "string \<Rightarrow> ('w, 'a) action \<Rightarrow> ('w, 'a) action" where
  "wrap_action msg m w = (case m w of (Inl e, w1) \<Rightarrow> (Inl (Wrap msg e), w1) | (Inr x, w1) \<Rightarrow> (Inr x, w1))"

definition lift_result :: "'a result \<Rightarrow> ('w, 'a) action" where
  "lift_result r w = (r, w)"

definition and_finally :: "('w, 'a) action \<Rightarrow> ('w \<Rightarrow> 'w) \<Rightarrow> ('w, 'a) action" where
  "and_finally m f w = (case m w of (r, w1) \<Rightarrow> (r, f w1))"

lemma bind_ok:
  assumes "bind_action m f w = (Inr y, w2)"
  obtains x w1 where "m w = (Inr x, w1)" "f x w1 = (Inr y, w2)"
  using assms by (auto simp: bind_action_def split: prod.splits sum.splits)

lemma wrap_ok: "wrap_action msg m w = (Inr y, w2) \<longleftrightarrow> m w = (Inr y, w2)"
  by (auto simp: wrap_action_def split: prod.splits sum.splits)

lemma lift_ok: "lift_result r w = (Inr y, w2) \<longleftrightarrow> r = Inr y \<and> w2 = w"
  by (auto simp: lift_result_def)

text \<open>An action keeps a predicate of the state.\<close>

definition keeps :: "('w \<Rightarrow> bool) \<Rightarrow> ('w, 'a) action \<Rightarrow> bool" where
  "keeps P m \<longleftrightarrow> (\<forall>w. P w \<longrightarrow> P (snd (m w)))"

lemma keepsD: "keeps P m \<Longrightarrow> P w \<Longrightarrow> P (snd (m w))"
  by (simp add: keeps_def)

lemma keeps_bind [keeps_rules]: "keeps P m \<Longrightarrow> (\<And>x. keeps P (f x)) \<Longrightarrow> keeps P (bind_action m f)"
  unfolding keeps_def bind_action_def by (auto split: prod.splits sum.splits)

lemma keeps_wrap [keeps_rules]: "keeps P m \<Longrightarrow> keeps P (wrap_action msg m)"
  unfolding keeps_def wrap_action_def by (auto split: prod.splits sum.splits)

text \<open>Total correctness of actions: an action succeeds with a result and a state that satisfy a predicate.\<close>

definition succeeds :: "('w, 'a) action \<Rightarrow> 'w \<Rightarrow> ('a \<Rightarrow> 'w \<Rightarrow> bool) \<Rightarrow> bool" where
  "succeeds m w P \<longleftrightarrow> (\<exists>x w'. m w = (Inr x, w') \<and> P x w')"

lemma succeeds_bind:
  "succeeds m w R \<Longrightarrow> (\<And>x w1. R x w1 \<Longrightarrow> succeeds (f x) w1 P) \<Longrightarrow> succeeds (bind_action m f) w P"
  unfolding succeeds_def bind_action_def by fastforce

lemma succeeds_wrap: "succeeds m w P \<Longrightarrow> succeeds (wrap_action msg m) w P"
  unfolding succeeds_def wrap_ok .

lemma succeeds_lift: "r = Inr x \<Longrightarrow> P x w \<Longrightarrow> succeeds (lift_result r) w P"
  by (simp add: succeeds_def lift_result_def)

lemma succeeds_after_lift: "succeeds (f x) st P \<Longrightarrow> succeeds (bind_action (lift_result (Inr x)) f) st P"
  by (simp add: succeeds_def bind_action_def lift_result_def)

lemma succeeds_finally: "succeeds m w (\<lambda>x v. P x (f v)) \<Longrightarrow> succeeds (and_finally m f) w P"
  by (auto simp: succeeds_def and_finally_def)

text \<open>An action on the second part of a state.\<close>

definition on_host :: "('w, 'a) action \<Rightarrow> ('s \<times> 'w, 'a) action" where
  "on_host m st = (case st of (s, w) \<Rightarrow> (case m w of (r, w1) \<Rightarrow> (r, (s, w1))))"

lemma on_host_ok: "on_host m (s, w) = (Inr y, st2) \<longleftrightarrow> (\<exists>w2. m w = (Inr y, w2) \<and> st2 = (s, w2))"
  by (auto simp: on_host_def split: prod.splits)

lemma succeeds_on_host: "succeeds m w (\<lambda>x v. P x (s, v)) \<Longrightarrow> succeeds (on_host m) (s, w) P"
  unfolding succeeds_def on_host_ok by blast

lemma keeps_on_host [keeps_rules]: "keeps P m \<Longrightarrow> keeps (\<lambda>st. P (snd st)) (on_host m)"
  by (auto simp: keeps_def on_host_def split: prod.splits)

text \<open>An action whose error is dropped.\<close>

definition ignore :: "('w, 'a) action \<Rightarrow> ('w, unit) action" where
  "ignore m w = (Inr (), snd (m w))"

text \<open>On a failure run the clean-up, then return the error.\<close>

definition or_else :: "('w, 'a) action \<Rightarrow> ('w, unit) action \<Rightarrow> ('w, 'a) action" where
  "or_else m cleanup w = (case m w of (Inl e, w1) \<Rightarrow> (Inl e, snd (cleanup w1)) | (Inr x, w1) \<Rightarrow> (Inr x, w1))"

lemma keeps_ignore [keeps_rules]: "keeps P m \<Longrightarrow> keeps P (ignore m)"
  by (simp add: keeps_def ignore_def)

lemma keeps_lift [keeps_rules]: "keeps P (lift_result r)"
  by (simp add: keeps_def lift_result_def)

lemma keeps_or_else [keeps_rules]: "keeps P m \<Longrightarrow> keeps P c \<Longrightarrow> keeps P (or_else m c)"
  unfolding keeps_def or_else_def by (auto split: prod.splits sum.splits)

lemma keeps_if [keeps_rules]: "keeps P m \<Longrightarrow> keeps P n \<Longrightarrow> keeps P (if c then m else n)"
  by simp

lemma keeps_case_prod [keeps_rules]: "(\<And>a b. keeps P (f a b)) \<Longrightarrow> keeps P (case x of (a, b) \<Rightarrow> f a b)"
  by (cases x) simp

text \<open>Partial correctness of actions: when an action succeeds, its final state satisfies a predicate. In a sequence
  the last action decides.\<close>

definition ensures :: "('w \<Rightarrow> bool) \<Rightarrow> ('w, 'a) action \<Rightarrow> bool" where
  "ensures P m \<longleftrightarrow> (\<forall>w x w'. m w = (Inr x, w') \<longrightarrow> P w')"

lemma ensuresD: "ensures P m \<Longrightarrow> m w = (Inr x, w') \<Longrightarrow> P w'"
  by (simp add: ensures_def)

lemma ensures_bind: "(\<And>x. ensures P (f x)) \<Longrightarrow> ensures P (bind_action m f)"
  unfolding ensures_def by (blast elim: bind_ok)

lemma ensures_case_prod: "(\<And>a b. ensures P (f a b)) \<Longrightarrow> ensures P (case x of (a, b) \<Rightarrow> f a b)"
  by (cases x) simp

section \<open>Go maps\<close>

text \<open>A Go map is an association list with distinct keys, written with
  \<^const>\<open>AList.update\<close> and \<^const>\<open>AList.delete\<close>. A listing collects the values
  and sorts them, so it cannot depend on the iteration order.\<close>

type_synonym ('k, 'v) gomap = "('k \<times> 'v) list"

definition gomap_ok :: "('v \<Rightarrow> 'k) \<Rightarrow> ('k, 'v) gomap \<Rightarrow> bool" where
  "gomap_ok key m \<longleftrightarrow> distinct (map fst m) \<and> list_all (\<lambda>(k, v). key v = k) m"

lemma gomap_ok_Nil [simp]: "gomap_ok key []"
  by (simp add: gomap_ok_def)

lemma gomap_ok_lookup: "gomap_ok key m \<Longrightarrow> map_of m k = Some v \<Longrightarrow> key v = k"
  by (auto simp: gomap_ok_def list_all_iff dest: map_of_SomeD)

lemma set_update_subset: "set (AList.update k v m) \<subseteq> insert (k, v) (set m)"
  by (induction m) auto

lemma set_delete_subset: "set (AList.delete k m) \<subseteq> set m"
  by (auto simp: AList.delete_eq)

lemma gomap_ok_update [simp]:
  assumes "gomap_ok key m" "key v = k"
  shows "gomap_ok key (AList.update k v m)"
  using assms set_update_subset [of k v m]
  by (auto simp: gomap_ok_def list_all_iff distinct_update)

lemma gomap_ok_delete [simp]: "gomap_ok key m \<Longrightarrow> gomap_ok key (AList.delete k m)"
  using distinct_delete [of m k]
  by (auto simp: gomap_ok_def list_all_iff AList.delete_eq)

lemma gomap_keys: "gomap_ok key m \<Longrightarrow> map key (map snd m) = map fst m"
  by (induction m) (auto simp: gomap_ok_def)

lemma gomap_mem_iff: "gomap_ok key m \<Longrightarrow> v \<in> set (map snd m) \<longleftrightarrow> map_of m (key v) = Some v"
  by (force simp: gomap_ok_def list_all_iff dest: map_of_SomeD)

lemma distinct_map_sort_key: "distinct (map f (sort_key f zs)) = distinct (map f zs)"
  by (simp add: distinct_map)

lemma sort_key_unique:
  fixes f :: "'a \<Rightarrow> 'k::linorder"
  assumes "set xs = set ys" "distinct (map f xs)" "distinct (map f ys)"
  shows "sort_key f xs = sort_key f ys"
proof -
  have "inj_on f (set (sort_key f xs) \<union> set (sort_key f ys))"
    using assms by (simp add: distinct_map)
  then show ?thesis
    using assms by (intro map_sorted_distinct_set_unique [of f])
      (simp_all only: distinct_map_sort_key sorted_sort_key set_sort)
qed

lemma sort_key_id_sorted: "sorted (map f xs) \<Longrightarrow> sort_key f xs = xs"
  by (induction xs) (auto simp: insort_is_Cons)

lemma gomap_listing:
  fixes key :: "'v \<Rightarrow> 'k::linorder"
  assumes "gomap_ok key m"
  shows "sorted_wrt (\<lambda>a b. key a < key b) (sort_key key (map snd m))"
proof -
  have "distinct (map key (map snd m))"
    using assms unfolding gomap_keys [OF assms] by (simp add: gomap_ok_def)
  then have "distinct (map key (sort_key key (map snd m)))"
    by (simp only: distinct_map_sort_key)
  then have "sorted_wrt (<) (map key (sort_key key (map snd m)))"
    by (simp only: strict_sorted_iff sorted_sort_key simp_thms)
  then show ?thesis
    by (simp only: sorted_wrt_map)
qed

section \<open>Strings\<close>

text \<open>\<open>strings.HasPrefix\<close>, \<open>strings.TrimPrefix\<close> and \<open>strings.Contains\<close>.\<close>

fun has_prefix :: "string \<Rightarrow> string \<Rightarrow> bool" where
  "has_prefix s [] = True"
| "has_prefix [] (p # ps) = False"
| "has_prefix (c # s) (p # ps) = (c = p \<and> has_prefix s ps)"

lemma has_prefix_iff: "has_prefix s p \<longleftrightarrow> (\<exists>t. s = p @ t)"
  by (induction s p rule: has_prefix.induct) auto

lemma has_prefix_append [simp]: "has_prefix (p @ t) p"
  by (simp add: has_prefix_iff)

definition trim_prefix :: "string \<Rightarrow> string \<Rightarrow> string" where
  "trim_prefix s p = (if has_prefix s p then drop (length p) s else s)"

lemma trim_prefix_append [simp]: "trim_prefix (p @ t) p = t"
  by (simp add: trim_prefix_def)

fun str_contains :: "string \<Rightarrow> string \<Rightarrow> bool" where
  "str_contains [] t = (t = [])"
| "str_contains (c # s) t = (has_prefix (c # s) t \<or> str_contains s t)"

text \<open>\<open>strings.Split\<close> and \<open>strings.Join\<close> at a one-character separator.\<close>

fun split_on :: "char \<Rightarrow> string \<Rightarrow> string list" where
  "split_on c [] = [[]]"
| "split_on c (x # xs) =
    (if x = c then [] # split_on c xs
     else (case split_on c xs of [] \<Rightarrow> [[x]] | w # ws \<Rightarrow> (x # w) # ws))"

fun join_with :: "char \<Rightarrow> string list \<Rightarrow> string" where
  "join_with c [] = []"
| "join_with c [w] = w"
| "join_with c (w # ws) = w @ c # join_with c ws"

lemma split_on_ne [simp]: "split_on c s \<noteq> []"
  by (induction s) (auto split: list.splits)

lemma split_on_plain: "c \<notin> set w \<Longrightarrow> split_on c w = [w]"
  by (induction w) auto

lemma split_on_append: "c \<notin> set w \<Longrightarrow> split_on c (w @ c # s) = w # split_on c s"
  by (induction w) auto

lemma split_on_sep: "split_on c (s @ c # t) = split_on c s @ split_on c t"
  by (induction s) (auto split: list.splits)

lemma split_on_no_sep: "w \<in> set (split_on c s) \<Longrightarrow> c \<notin> set w"
proof (induction s arbitrary: w)
  case (Cons x s)
  obtain v vs where sp: "split_on c s = v # vs" by (meson neq_Nil_conv split_on_ne)
  show ?case
  proof (cases "x = c")
    case False
    then have "w = x # v \<or> w \<in> set vs" using Cons.prems sp by simp
    then show ?thesis using Cons.IH [of v] Cons.IH [of w] False sp by auto
  qed (use Cons in auto)
qed simp

lemma split_join [roundtrip]:
  "ws \<noteq> [] \<Longrightarrow> \<forall>w\<in>set ws. c \<notin> set w \<Longrightarrow> split_on c (join_with c ws) = ws"
  by (induction c ws rule: join_with.induct) (auto simp: split_on_plain split_on_append)

lemma join_split: "join_with c (split_on c s) = s"
proof (induction s)
  case (Cons x s)
  then show ?case
    by (cases "split_on c s"; cases "tl (split_on c s)") auto
qed simp

text \<open>\<open>strings.Cut\<close> at a one-character separator: the parts before and after the first one, and whether there is one.\<close>

definition str_cut :: "char \<Rightarrow> string \<Rightarrow> string \<times> string \<times> bool" where
  "str_cut c s = (takeWhile (\<lambda>x. x \<noteq> c) s, drop 1 (dropWhile (\<lambda>x. x \<noteq> c) s), c \<in> set s)"

lemma str_cut_append: "c \<notin> set a \<Longrightarrow> str_cut c (a @ c # b) = (a, b, True)"
  by (induction a) (auto simp: str_cut_def)

text \<open>\<open>strings.TrimSpace\<close> on the ASCII white space and \<open>strings.Fields\<close>.\<close>

definition is_space :: "char \<Rightarrow> bool" where
  "is_space c \<longleftrightarrow> (of_char c :: nat) = 32 \<or> (9 \<le> (of_char c :: nat) \<and> (of_char c :: nat) \<le> 13)"

definition trim_space :: "string \<Rightarrow> string" where
  "trim_space s = rev (dropWhile is_space (rev (dropWhile is_space s)))"

lemma dropWhile_none: "\<forall>c\<in>set s. \<not> P c \<Longrightarrow> dropWhile P s = s"
  by (cases s) auto

lemma trim_space_id: "\<forall>c\<in>set s. \<not> is_space c \<Longrightarrow> trim_space s = s"
  by (simp add: trim_space_def dropWhile_none)

text \<open>\<open>strings.Fields\<close>: the maximal runs of non-space characters.\<close>

definition str_fields :: "string \<Rightarrow> string list" where
  "str_fields s = filter (\<lambda>w. w \<noteq> []) (split_on CHR '' '' (map (\<lambda>c. if is_space c then CHR '' '' else c) s))"

section \<open>Decimal numbers\<close>

text \<open>\<open>strconv.Itoa\<close> on non-negative numbers and \<open>strconv.ParseUint\<close> at base 10
  for a given bit size: digits only, at least one, in range.\<close>

definition digit_char :: "nat \<Rightarrow> char" where
  "digit_char d = char_of (48 + d)"

definition digit_val :: "char \<Rightarrow> nat option" where
  "digit_val c = (let n = of_char c in if 48 \<le> n \<and> n \<le> 57 then Some (n - 48) else None)"

fun itoa :: "nat \<Rightarrow> string" where
  "itoa n = (if n < 10 then [digit_char n] else itoa (n div 10) @ [digit_char (n mod 10)])"

declare itoa.simps [simp del]

fun parse_digits :: "nat \<Rightarrow> string \<Rightarrow> nat option" where
  "parse_digits acc [] = Some acc"
| "parse_digits acc (c # s) =
    (case digit_val c of None \<Rightarrow> None | Some d \<Rightarrow> parse_digits (10 * acc + d) s)"

definition parse_uint :: "nat \<Rightarrow> string \<Rightarrow> nat option" where
  "parse_uint bits s =
    (if s = [] then None
     else case parse_digits 0 s of
       None \<Rightarrow> None
     | Some n \<Rightarrow> if n < 2 ^ bits then Some n else None)"

lemma digit_val_char [simp]: "d < 10 \<Longrightarrow> digit_val (digit_char d) = Some d"
  by (simp add: digit_val_def digit_char_def)

lemma parse_digits_append:
  "parse_digits acc (s @ t) =
    (case parse_digits acc s of None \<Rightarrow> None | Some n \<Rightarrow> parse_digits n t)"
  by (induction acc s rule: parse_digits.induct) (auto split: option.splits)

lemma parse_digits_itoa [simp]: "parse_digits 0 (itoa n) = Some n"
proof (induction n rule: itoa.induct)
  case (1 n)
  then show ?case
    by (subst itoa.simps) (auto simp: parse_digits_append)
qed

lemma itoa_ne [simp]: "itoa n \<noteq> []"
  by (subst itoa.simps) simp

lemma parse_uint_itoa [roundtrip]: "n < 2 ^ bits \<Longrightarrow> parse_uint bits (itoa n) = Some n"
  by (simp add: parse_uint_def)

lemma itoa_inj: "itoa m = itoa n \<Longrightarrow> m = n"
  by (metis option.inject parse_digits_itoa)

lemma digit_val_digit_char: "d < 10 \<Longrightarrow> c = digit_char d \<Longrightarrow> digit_val c \<noteq> None"
  by simp

lemma itoa_digits: "c \<in> set (itoa n) \<Longrightarrow> digit_val c \<noteq> None"
proof (induction n rule: itoa.induct)
  case (1 n)
  then show ?case
    by (subst (asm) (2) itoa.simps) (auto split: if_splits)
qed

text \<open>\<open>%d\<close> of a signed number and \<open>strconv.Atoi\<close>: an optional sign, digits, the range of an \<open>int64\<close>.\<close>

definition itoa_int :: "int \<Rightarrow> string" where
  "itoa_int x = (if x < 0 then CHR ''-'' # itoa (nat (- x)) else itoa (nat x))"

definition atoi :: "string \<Rightarrow> int option" where
  "atoi s =
    (let sgn = (case s of c # _ \<Rightarrow> if c = CHR ''-'' then - 1 else 1 | [] \<Rightarrow> 1);
         digits = (case s of c # r \<Rightarrow> if c = CHR ''-'' \<or> c = CHR ''+'' then r else s | [] \<Rightarrow> [])
     in if digits = [] then None
        else (case parse_digits 0 digits of
           None \<Rightarrow> None
         | Some n \<Rightarrow> let v = sgn * int n in if - (2 ^ 63) \<le> v \<and> v < 2 ^ 63 then Some v else None))"

lemma itoa_hd: "itoa n = c # r \<Longrightarrow> c \<noteq> CHR ''-'' \<and> c \<noteq> CHR ''+''"
  using itoa_digits [of c n] by (auto simp: digit_val_def Let_def)

lemma atoi_itoa_int [roundtrip]:
  assumes "- (2 ^ 63) \<le> x" "x < 2 ^ 63"
  shows "atoi (itoa_int x) = Some x"
proof (cases "x < 0")
  case True
  then show ?thesis using assms by (simp add: atoi_def itoa_int_def Let_def)
next
  case False
  obtain c r where "itoa (nat x) = c # r" by (meson itoa_ne neq_Nil_conv)
  moreover from this have "parse_digits 0 (c # r) = Some (nat x)" by (metis parse_digits_itoa)
  ultimately show ?thesis using False assms itoa_hd by (simp add: atoi_def itoa_int_def Let_def del: parse_digits.simps)
qed

section \<open>Signed 64-bit arithmetic and letter case\<close>

text \<open>The value of an \<open>int64\<close> expression: two's complement wrap-around.\<close>

definition int64 :: "int \<Rightarrow> int" where
  "int64 x = (x + 2 ^ 63) mod 2 ^ 64 - 2 ^ 63"

lemma int64_id: "- (2 ^ 63) \<le> x \<Longrightarrow> x < 2 ^ 63 \<Longrightarrow> int64 x = x"
  by (simp add: int64_def)

lemma int64_range: "- (2 ^ 63) \<le> int64 x" "int64 x < 2 ^ 63"
  by (simp_all add: int64_def)

lemma int64_over: "2 ^ 63 \<le> x \<Longrightarrow> x < 2 ^ 64 \<Longrightarrow> int64 x = x - 2 ^ 64"
  unfolding int64_def by (subst mod_pos_geq) auto

text \<open>ASCII lower case.\<close>

definition to_lower :: "char \<Rightarrow> char" where
  "to_lower c = (let n = of_char c :: nat in if 65 \<le> n \<and> n \<le> 90 then char_of (n + 32) else c)"

text \<open>\<open>strings.EqualFold\<close> on ASCII: comparison without regard to case.\<close>

definition equal_fold :: "string \<Rightarrow> string \<Rightarrow> bool" where
  "equal_fold a b \<longleftrightarrow> map to_lower a = map to_lower b"

text \<open>Lower case hexadecimal, two digits per byte.\<close>

definition hex_digit :: "nat \<Rightarrow> char" where
  "hex_digit d = (if d < 10 then char_of (48 + d) else char_of (87 + d))"

definition hex_byte :: "8 word \<Rightarrow> string" where
  "hex_byte b = [hex_digit (unat b div 16), hex_digit (unat b mod 16)]"

end
