(* ===== verification/Capsule_Proto.thy ===== *)
theory Capsule_Proto
  imports Capsule_Prelude
begin

text \<open>
  The messages of \<^verbatim>\<open>src/models/capsule/v1\<close> that the services read and write:
  workloads (\<^verbatim>\<open>workload.proto\<close>) and volumes (\<^verbatim>\<open>volume.proto\<close>). An enum is a
  datatype with one constructor per declared value, a message a record, a
  message-typed field an option, a \<^verbatim>\<open>map<string, string>\<close> an association list.
\<close>

section \<open>Workloads\<close>

datatype desired_state =
    DESIRED_STATE_UNSPECIFIED
  | DESIRED_STATE_RUNNING
  | DESIRED_STATE_STOPPED
  | DESIRED_STATE_DELETING

datatype workload_kind =
    WORKLOAD_KIND_UNSPECIFIED
  | WORKLOAD_KIND_CONTAINER
  | WORKLOAD_KIND_MICRO_VM

datatype workload_phase =
    WORKLOAD_PHASE_UNSPECIFIED
  | WORKLOAD_PHASE_PENDING
  | WORKLOAD_PHASE_RUNNING
  | WORKLOAD_PHASE_FAILED
  | WORKLOAD_PHASE_STOPPED

datatype network_mode =
    NETWORK_MODE_UNSPECIFIED
  | NETWORK_MODE_HOST
  | NETWORK_MODE_BRIDGE

datatype micro_vm_backend =
    MICRO_VM_BACKEND_UNSPECIFIED
  | MICRO_VM_BACKEND_FIRECRACKER
  | MICRO_VM_BACKEND_SMOLVM

record port_mapping =
  pm_container_port :: "32 word"
  pm_host_port :: "32 word"
  pm_protocol :: string

record volume_mount =
  vm_volume_name :: string
  vm_mount_path :: string
  vm_read_only :: bool

record container_spec =
  cs_image :: string
  cs_command :: "string list"
  cs_args :: "string list"
  cs_env :: "(string \<times> string) list"
  cs_mounts :: "volume_mount list"
  cs_network_mode :: network_mode
  cs_ports :: "port_mapping list"
  cs_privileged :: bool
  cs_host_pid :: bool
  cs_host_mount :: bool
  cs_host_ipc :: bool
  cs_host_bind_paths :: "string list"

record micro_vm_spec =
  ms_image :: string
  ms_command :: "string list"
  ms_args :: "string list"
  ms_env :: "(string \<times> string) list"
  ms_kernel_path :: string
  ms_rootfs_path :: string
  ms_vcpus :: "32 word"
  ms_memory_mib :: "32 word"
  ms_mounts :: "volume_mount list"
  ms_kernel_cmdline_extra :: string
  ms_backend :: micro_vm_backend
  ms_ports :: "port_mapping list"

record workload_status =
  st_phase :: workload_phase
  st_message :: string
  st_restart_count :: "32 word"

record workload =
  wl_name :: string
  wl_kind :: workload_kind
  wl_container :: "container_spec option"
  wl_micro_vm :: "micro_vm_spec option"
  wl_status :: "workload_status option"
  wl_desired_state :: desired_state

section \<open>Volumes\<close>

record volume =
  vol_name :: string
  vol_size_bytes :: "64 word"
  vol_host_path :: string
  vol_mounted_by :: "string list"
  vol_created_at_unix :: int

end
