(* ===== verification/Capsule_Store.thy ===== *)
theory Capsule_Store
  imports Capsule_Proto
begin

text \<open>
  The interfaces of the persistence layer, \<^verbatim>\<open>src/store/store.go\<close>: the stored
  records, each Go interface as a record of operations, and what a store
  promises its clients as the locales \<open>keyed_store\<close>, \<open>singleton_store\<close> and
  \<open>auth_key_laws\<close>. The implementations interpret them in
  \<open>Capsule_Store_Memory\<close> and \<open>Capsule_Store_Sqlite\<close>. Timestamps are unbounded
  integers.
\<close>

section \<open>Records and interfaces\<close>

definition ErrNotFound :: go_error where
  "ErrNotFound = Sentinel ''store: not found''"

definition ErrConflict :: go_error where
  "ErrConflict = Sentinel ''store: conflict''"

lemma store_errors_distinct [simp]: "ErrNotFound \<noteq> ErrConflict" "ErrConflict \<noteq> ErrNotFound"
  by (simp_all add: ErrNotFound_def ErrConflict_def)

record os_state =
  ActiveSlot :: string
  PendingSlot :: string
  PendingDeadlineUnix :: int
  LastGoodSlot :: string
  LastVersion :: string
  UpdatedAtUnix :: int

record capsule_identity =
  CapsuleID :: string
  ShortID :: string
  CreatedAtUnix :: int
  AdoptedAtUnix :: int
  AdoptedByKid :: string

record authorized_key =
  Kid :: string
  Pubkey :: "8 word list"
  KeyName :: string
  AddedByKid :: string
  AddedAtUnix :: int

text \<open>A Go interface value is the record of its methods, acting on a state \<open>'s\<close>.\<close>

record 's workload_store =
  ws_Put :: "workload \<Rightarrow> ('s, unit) action"
  ws_Get :: "string \<Rightarrow> ('s, workload) action"
  ws_List :: "('s, workload list) action"
  ws_Delete :: "string \<Rightarrow> ('s, unit) action"

record 's volume_store =
  vs_Put :: "volume \<Rightarrow> ('s, unit) action"
  vs_Get :: "string \<Rightarrow> ('s, volume) action"
  vs_List :: "('s, volume list) action"
  vs_Delete :: "string \<Rightarrow> ('s, unit) action"

record 's os_state_store =
  os_Get :: "('s, os_state) action"
  os_Put :: "os_state \<Rightarrow> ('s, unit) action"

record 's identity_store =
  id_Get :: "('s, capsule_identity) action"
  id_Put :: "capsule_identity \<Rightarrow> ('s, unit) action"

record 's auth_key_store =
  ak_Add :: "authorized_key \<Rightarrow> ('s, unit) action"
  ak_Get :: "string \<Rightarrow> ('s, authorized_key) action"
  ak_List :: "('s, authorized_key list) action"
  ak_Delete :: "string \<Rightarrow> ('s, unit) action"
  ak_Count :: "('s, nat) action"
  ak_DeleteAll :: "('s, unit) action"

text \<open>The order of a key listing: enrolment time, then kid.\<close>

definition key_order :: "authorized_key \<Rightarrow> int \<times> string" where
  "key_order k = (AddedAtUnix k, Kid k)"

section \<open>What a store promises\<close>

text \<open>A store of named records. \<open>lookup\<close> is its abstract content. \<open>norm s v\<close> is
  what the store keeps of \<open>v\<close> when it is put into state \<open>s\<close>; \<open>storable\<close> are the
  values it accepts.\<close>

locale keyed_store =
  fixes put :: "'v \<Rightarrow> ('s, unit) action"
    and get :: "string \<Rightarrow> ('s, 'v) action"
    and list :: "('s, 'v list) action"
    and del :: "string \<Rightarrow> ('s, unit) action"
    and inv :: "'s \<Rightarrow> bool"
    and lookup :: "'s \<Rightarrow> string \<Rightarrow> 'v option"
    and key :: "'v \<Rightarrow> string"
    and norm :: "'s \<Rightarrow> 'v \<Rightarrow> 'v"
    and storable :: "'v \<Rightarrow> bool"
  assumes put_ok: "inv s \<Longrightarrow> storable v \<Longrightarrow>
      fst (put v s) = Inr () \<and> inv (snd (put v s)) \<and>
      lookup (snd (put v s)) = (lookup s)(key v \<mapsto> norm s v)"
    and put_bad: "\<not> storable v \<Longrightarrow> \<exists>e. put v s = (Inl e, s)"
    and get_eq: "inv s \<Longrightarrow>
      get k s = ((case lookup s k of None \<Rightarrow> Inl ErrNotFound | Some v \<Rightarrow> Inr v), s)"
    and list_eq: "inv s \<Longrightarrow> \<exists>vs. list s = (Inr vs, s) \<and> set vs = ran (lookup s) \<and>
      sorted_wrt (\<lambda>a b. key a < key b) vs"
    and del_ok: "inv s \<Longrightarrow>
      fst (del k s) = Inr () \<and> inv (snd (del k s)) \<and>
      lookup (snd (del k s)) = (lookup s)(k := None)"
    and lookup_key: "inv s \<Longrightarrow> lookup s k = Some v \<Longrightarrow> key v = k"
begin

lemma get_put:
  "inv s \<Longrightarrow> storable v \<Longrightarrow> fst (get (key v) (snd (put v s))) = Inr (norm s v)"
  using put_ok [of s v] by (simp add: get_eq)

lemma get_put_other:
  "inv s \<Longrightarrow> storable v \<Longrightarrow> k \<noteq> key v \<Longrightarrow> fst (get k (snd (put v s))) = fst (get k s)"
  using put_ok [of s v] by (simp add: get_eq)

lemma get_del: "inv s \<Longrightarrow> fst (get k (snd (del k s))) = Inl ErrNotFound"
  using del_ok [of s k] by (simp add: get_eq)

lemma get_del_other: "inv s \<Longrightarrow> j \<noteq> k \<Longrightarrow> fst (get j (snd (del k s))) = fst (get j s)"
  using del_ok [of s k] by (simp add: get_eq)

text \<open>A listing is a function of the abstract content alone.\<close>

lemma list_cong:
  assumes "inv s" "inv t" "lookup s = lookup t"
  shows "fst (list s) = fst (list t)"
proof -
  obtain vs where vs: "list s = (Inr vs, s)" "set vs = ran (lookup s)"
      "sorted_wrt (\<lambda>a b. key a < key b) vs"
    using list_eq [OF assms(1)] by (elim exE conjE)
  obtain ws where ws: "list t = (Inr ws, t)" "set ws = ran (lookup t)"
      "sorted_wrt (\<lambda>a b. key a < key b) ws"
    using list_eq [OF assms(2)] by (elim exE conjE)
  have sd: "sorted (map key zs) \<and> distinct (map key zs)"
    if "sorted_wrt (\<lambda>a b. key a < key b) zs" for zs
    using that strict_sorted_iff [of "map key zs"] by (simp only: sorted_wrt_map)
  have "inj_on key (ran (lookup s))"
  proof (rule inj_onI)
    fix x y assume "x \<in> ran (lookup s)" "y \<in> ran (lookup s)" "key x = key y"
    then obtain a b where "lookup s a = Some x" "lookup s b = Some y" "a = b"
      using lookup_key [OF assms(1)] unfolding ran_def by fastforce
    then show "x = y" by simp
  qed
  then have "vs = ws"
    using sd [OF vs(3)] sd [OF ws(3)] vs(2) ws(2) assms(3)
    by (intro map_sorted_distinct_set_unique [of key]) (simp_all only: Un_absorb simp_thms)
  then show ?thesis by (simp add: vs ws)
qed

lemma list_mem:
  assumes "inv s"
  shows "\<exists>vs. list s = (Inr vs, s) \<and> (\<forall>v. v \<in> set vs \<longleftrightarrow> lookup s (key v) = Some v)"
proof -
  have "v \<in> ran (lookup s) \<longleftrightarrow> lookup s (key v) = Some v" for v
    using lookup_key [OF assms] by (auto simp: ran_def)
  then show ?thesis using list_eq [OF assms] by metis
qed

end

text \<open>A store of one record. \<open>norm\<close> is what it keeps of a value.\<close>

locale singleton_store =
  fixes put :: "'v \<Rightarrow> ('s, unit) action"
    and get :: "('s, 'v) action"
    and content :: "'s \<Rightarrow> 'v option"
    and norm :: "'v \<Rightarrow> 'v"
  assumes put_ok: "fst (put v s) = Inr () \<and> content (snd (put v s)) = Some (norm v)"
    and get_eq: "get s = ((case content s of None \<Rightarrow> Inl ErrNotFound | Some v \<Rightarrow> Inr v), s)"
begin

lemma get_put: "fst (get (snd (put v s))) = Inr (norm v)"
  using put_ok [of v s] by (simp add: get_eq)

lemma put_pair: "put v s = (Inr (), snd (put v s))"
  using put_ok [of v s] by (metis prod.collapse)

end

text \<open>The store of enrolled operator keys. A kid is enrolled at most once.\<close>

definition stamp_key :: "int \<Rightarrow> authorized_key \<Rightarrow> authorized_key" where
  "stamp_key now k = (if AddedAtUnix k = 0 then k\<lparr>AddedAtUnix := now\<rparr> else k)"

lemma Kid_stamp_key [simp]: "Kid (stamp_key now k) = Kid k"
  by (simp add: stamp_key_def)

lemma Pubkey_stamp_key [simp]: "Pubkey (stamp_key now k) = Pubkey k"
  by (simp add: stamp_key_def)

locale auth_key_laws =
  fixes add :: "authorized_key \<Rightarrow> ('s, unit) action"
    and get :: "string \<Rightarrow> ('s, authorized_key) action"
    and list :: "('s, authorized_key list) action"
    and del :: "string \<Rightarrow> ('s, unit) action"
    and count :: "('s, nat) action"
    and del_all :: "('s, unit) action"
    and inv :: "'s \<Rightarrow> bool"
    and keys :: "'s \<Rightarrow> string \<Rightarrow> authorized_key option"
    and stamp :: "authorized_key \<Rightarrow> authorized_key"
  assumes add_new: "inv s \<Longrightarrow> keys s (Kid k) = None \<Longrightarrow>
      fst (add k s) = Inr () \<and> inv (snd (add k s)) \<and>
      keys (snd (add k s)) = (keys s)(Kid k \<mapsto> stamp k)"
    and add_dup: "inv s \<Longrightarrow> keys s (Kid k) \<noteq> None \<Longrightarrow> add k s = (Inl ErrConflict, s)"
    and get_eq: "inv s \<Longrightarrow>
      get kid s = ((case keys s kid of None \<Rightarrow> Inl ErrNotFound | Some k \<Rightarrow> Inr k), s)"
    and list_eq: "inv s \<Longrightarrow> \<exists>ks. list s = (Inr ks, s) \<and> set ks = ran (keys s) \<and>
      sorted_wrt (\<lambda>a b. key_order a < key_order b) ks"
    and del_ok: "inv s \<Longrightarrow>
      fst (del kid s) = Inr () \<and> inv (snd (del kid s)) \<and>
      keys (snd (del kid s)) = (keys s)(kid := None)"
    and count_eq: "inv s \<Longrightarrow> count s = (Inr (card (dom (keys s))), s)"
    and del_all_ok: "fst (del_all s) = Inr () \<and> inv (snd (del_all s)) \<and>
      keys (snd (del_all s)) = Map.empty"
    and keys_kid: "inv s \<Longrightarrow> keys s kid = Some k \<Longrightarrow> Kid k = kid"
    and stamp_kid: "Kid (stamp k) = Kid k" "Pubkey (stamp k) = Pubkey k"
    and keys_finite: "inv s \<Longrightarrow> finite (dom (keys s))"
begin

lemma count_add:
  assumes "inv s" "keys s (Kid k) = None"
  shows "fst (count (snd (add k s))) = Inr (Suc (card (dom (keys s))))"
  using add_new [OF assms] assms keys_finite [of s] by (auto simp: count_eq card_insert_if)

lemma count_zero_iff: "inv s \<Longrightarrow> fst (count s) = Inr 0 \<longleftrightarrow> keys s = Map.empty"
  by (simp add: count_eq keys_finite)

lemma del_keeps_one:
  assumes "inv s" "card (dom (keys s)) > 1"
  shows "dom (keys (snd (del kid s))) \<noteq> {}"
proof
  assume "dom (keys (snd (del kid s))) = {}"
  then have "dom (keys s) \<subseteq> {kid}"
    using del_ok [OF assms(1), of kid] by auto
  then have "card (dom (keys s)) \<le> 1"
    using card_mono [of "{kid}" "dom (keys s)"] by simp
  with assms(2) show False by simp
qed

end

end
