(* ===== verification/Capsule_Runtime.thy ===== *)
theory Capsule_Runtime
  imports Capsule_Store
begin

text \<open>
  The driver interfaces of \<^verbatim>\<open>src/runtime/runtime.go\<close>. A driver is a record of
  operations on the state \<open>'r\<close> of the container or VM backend, which is outside
  this repository. The digest and the deterministic protobuf encoding that
  \<^verbatim>\<open>SpecHash\<close> calls are its parameters.
\<close>

datatype phase = PhaseUnknown | PhasePending | PhaseRunning | PhaseStopped | PhaseFailed

primrec phase_String :: "phase \<Rightarrow> string" where
  "phase_String PhasePending = ''Pending''"
| "phase_String PhaseRunning = ''Running''"
| "phase_String PhaseStopped = ''Stopped''"
| "phase_String PhaseFailed = ''Failed''"
| "phase_String PhaseUnknown = ''Unknown''"

record rt_status =
  rs_Phase :: phase
  rs_Message :: string
  rs_RestartCount :: "32 word"

record exec_request =
  er_Name :: string
  er_Command :: "string list"
  er_Env :: "(string \<times> string) list"
  er_TTY :: bool

text \<open>The bytes a log reader delivers.\<close>

type_synonym reader = string

record 'r container_driver =
  cd_EnsureRunning :: "workload \<Rightarrow> ('r, unit) action"
  cd_Remove :: "string \<Rightarrow> ('r, unit) action"
  cd_Status :: "string \<Rightarrow> ('r, rt_status) action"
  cd_LogPath :: "string \<Rightarrow> string"
  cd_Exec :: "exec_request \<Rightarrow> ('r, int) action"

record 'r vm_driver =
  vd_EnsureRunning :: "workload \<Rightarrow> ('r, unit) action"
  vd_Remove :: "string \<Rightarrow> ('r, unit) action"
  vd_Status :: "string \<Rightarrow> ('r, rt_status) action"
  vd_Logs :: "string \<Rightarrow> bool \<Rightarrow> int \<Rightarrow> ('r, reader) action"
  vd_SerialLogs :: "string \<Rightarrow> bool \<Rightarrow> ('r, reader) action"
  vd_Exec :: "exec_request \<Rightarrow> ('r, int) action"

text \<open>The message \<^verbatim>\<open>SpecHash\<close> encodes. The pointer it holds may be nil: the
  comparison \<^verbatim>\<open>msg == nil\<close> is on an interface that carries the pointer's type, so
  it is false even then, and the encoder receives a nil message.\<close>

datatype spec_message =
    ContainerMessage "container_spec option"
  | MicroVMMessage "micro_vm_spec option"

definition SpecHash ::
  "(spec_message \<Rightarrow> 8 word list result) \<Rightarrow> (8 word list \<Rightarrow> string) \<Rightarrow> workload \<Rightarrow> string result" where
  "SpecHash marshal sha256_hex w =
    (let hash = (\<lambda>msg. case marshal msg of
           Inl e \<Rightarrow> Inl (Wrap ''spec hash: marshal'' e)
         | Inr b \<Rightarrow> Inr (sha256_hex b))
     in case wl_kind w of
          WORKLOAD_KIND_CONTAINER \<Rightarrow> hash (ContainerMessage (wl_container w))
        | WORKLOAD_KIND_MICRO_VM \<Rightarrow> hash (MicroVMMessage (wl_micro_vm w))
        | WORKLOAD_KIND_UNSPECIFIED \<Rightarrow> Inl (Errorf ''spec hash: unsupported kind''))"

text \<open>The hash is a function of the kind and the kind's own specification only.\<close>

lemma SpecHash_cong:
  assumes "wl_kind v = wl_kind w" "wl_container v = wl_container w" "wl_micro_vm v = wl_micro_vm w"
  shows "SpecHash marshal h v = SpecHash marshal h w"
  using assms by (cases "wl_kind w") (simp_all add: SpecHash_def)

end
