(* ===== verification/Capsule_Store_Memory.thy ===== *)
theory Capsule_Store_Memory
  imports Capsule_Store
begin

text \<open>
  The in-memory store \<^verbatim>\<open>src/store/memory/memory.go\<close> and its interpretations of the
  store locales. \<open>time.Now().Unix()\<close> is the argument \<open>now\<close>. Each method holds
  its mutex for its whole body and copies what it stores and returns, so a
  method is one atomic step on the values.
\<close>

section \<open>The in-memory store\<close>

record mem_store =
  mem_workloads :: "(string, workload) gomap"
  mem_volumes :: "(string, volume) gomap"
  mem_osState :: "os_state option"
  mem_identity :: "capsule_identity option"
  mem_authKeys :: "(string, authorized_key) gomap"

definition mem_New :: mem_store where
  "mem_New = \<lparr>mem_workloads = [], mem_volumes = [], mem_osState = None,
     mem_identity = None, mem_authKeys = []\<rparr>"

definition mem_osState_Get :: "(mem_store, os_state) action" where
  "mem_osState_Get s =
    (case mem_osState s of None \<Rightarrow> (Inl ErrNotFound, s) | Some st \<Rightarrow> (Inr st, s))"

definition mem_osState_Put :: "os_state \<Rightarrow> (mem_store, unit) action" where
  "mem_osState_Put st s = (Inr (), s\<lparr>mem_osState := Some st\<rparr>)"

definition mem_volume_Put :: "volume \<Rightarrow> (mem_store, unit) action" where
  "mem_volume_Put v s =
    (if vol_name v = '''' then (Inl ErrNotFound, s)
     else (Inr (), s\<lparr>mem_volumes := AList.update (vol_name v) v (mem_volumes s)\<rparr>))"

definition mem_volume_Get :: "string \<Rightarrow> (mem_store, volume) action" where
  "mem_volume_Get name s =
    (case map_of (mem_volumes s) name of None \<Rightarrow> (Inl ErrNotFound, s) | Some v \<Rightarrow> (Inr v, s))"

definition mem_volume_List :: "(mem_store, volume list) action" where
  "mem_volume_List s = (Inr (sort_key vol_name (map snd (mem_volumes s))), s)"

definition mem_volume_Delete :: "string \<Rightarrow> (mem_store, unit) action" where
  "mem_volume_Delete name s = (Inr (), s\<lparr>mem_volumes := AList.delete name (mem_volumes s)\<rparr>)"

definition mem_workload_Put :: "workload \<Rightarrow> (mem_store, unit) action" where
  "mem_workload_Put w s =
    (if wl_name w = '''' then (Inl ErrNotFound, s)
     else (Inr (), s\<lparr>mem_workloads := AList.update (wl_name w) w (mem_workloads s)\<rparr>))"

definition mem_workload_Get :: "string \<Rightarrow> (mem_store, workload) action" where
  "mem_workload_Get name s =
    (case map_of (mem_workloads s) name of None \<Rightarrow> (Inl ErrNotFound, s) | Some w \<Rightarrow> (Inr w, s))"

definition mem_workload_List :: "(mem_store, workload list) action" where
  "mem_workload_List s = (Inr (sort_key wl_name (map snd (mem_workloads s))), s)"

definition mem_workload_Delete :: "string \<Rightarrow> (mem_store, unit) action" where
  "mem_workload_Delete name s =
    (Inr (), s\<lparr>mem_workloads := AList.delete name (mem_workloads s)\<rparr>)"

definition mem_identity_Get :: "(mem_store, capsule_identity) action" where
  "mem_identity_Get s =
    (case mem_identity s of None \<Rightarrow> (Inl ErrNotFound, s) | Some i \<Rightarrow> (Inr i, s))"

definition mem_identity_Put :: "int \<Rightarrow> capsule_identity \<Rightarrow> (mem_store, unit) action" where
  "mem_identity_Put now i s =
    (let cp = (if CreatedAtUnix i = 0 then i\<lparr>CreatedAtUnix := now\<rparr> else i)
     in (Inr (), s\<lparr>mem_identity := Some cp\<rparr>))"

definition mem_authKey_Add :: "int \<Rightarrow> authorized_key \<Rightarrow> (mem_store, unit) action" where
  "mem_authKey_Add now k s =
    (case map_of (mem_authKeys s) (Kid k) of
       Some _ \<Rightarrow> (Inl ErrConflict, s)
     | None \<Rightarrow>
         let cp = (if AddedAtUnix k = 0 then k\<lparr>AddedAtUnix := now\<rparr> else k)
         in (Inr (), s\<lparr>mem_authKeys := AList.update (Kid cp) cp (mem_authKeys s)\<rparr>))"

definition mem_authKey_Get :: "string \<Rightarrow> (mem_store, authorized_key) action" where
  "mem_authKey_Get kid s =
    (case map_of (mem_authKeys s) kid of None \<Rightarrow> (Inl ErrNotFound, s) | Some k \<Rightarrow> (Inr k, s))"

definition mem_authKey_List :: "(mem_store, authorized_key list) action" where
  "mem_authKey_List s = (Inr (sort_key key_order (map snd (mem_authKeys s))), s)"

definition mem_authKey_Delete :: "string \<Rightarrow> (mem_store, unit) action" where
  "mem_authKey_Delete kid s = (Inr (), s\<lparr>mem_authKeys := AList.delete kid (mem_authKeys s)\<rparr>)"

definition mem_authKey_Count :: "(mem_store, nat) action" where
  "mem_authKey_Count s = (Inr (length (mem_authKeys s)), s)"

definition mem_authKey_DeleteAll :: "(mem_store, unit) action" where
  "mem_authKey_DeleteAll s = (Inr (), s\<lparr>mem_authKeys := []\<rparr>)"

section \<open>The laws hold of the in-memory store\<close>

definition mem_inv :: "mem_store \<Rightarrow> bool" where
  "mem_inv s \<longleftrightarrow> gomap_ok wl_name (mem_workloads s) \<and> gomap_ok vol_name (mem_volumes s) \<and>
     gomap_ok Kid (mem_authKeys s) \<and>
     map_of (mem_workloads s) [] = None \<and> map_of (mem_volumes s) [] = None"

lemma mem_inv_New [simp]: "mem_inv mem_New"
  by (simp add: mem_inv_def mem_New_def)

lemma gomap_set_ran: "gomap_ok key m \<Longrightarrow> snd ` set m = ran (map_of m)"
  by (simp add: gomap_ok_def ran_distinct)

lemmas mem_workload_defs =
  mem_workload_Put_def mem_workload_Get_def mem_workload_List_def mem_workload_Delete_def

lemmas mem_volume_defs =
  mem_volume_Put_def mem_volume_Get_def mem_volume_List_def mem_volume_Delete_def

lemmas mem_authKey_defs =
  mem_authKey_Add_def mem_authKey_Get_def mem_authKey_List_def mem_authKey_Delete_def
  mem_authKey_Count_def mem_authKey_DeleteAll_def

interpretation mem_wl: keyed_store mem_workload_Put mem_workload_Get mem_workload_List
  mem_workload_Delete mem_inv "\<lambda>s. map_of (mem_workloads s)" wl_name "\<lambda>_ w. w" "\<lambda>w. wl_name w \<noteq> ''''"
proof (unfold_locales, goal_cases)
  case (4 s)
  then show ?case
    by (simp add: mem_workload_defs mem_inv_def gomap_listing gomap_set_ran [of wl_name])
next
  case (6 s k v)
  then show ?case by (auto simp: mem_inv_def intro: gomap_ok_lookup)
qed (auto simp: mem_workload_defs mem_inv_def update_conv' delete_conv' split: option.splits)

interpretation mem_vol: keyed_store mem_volume_Put mem_volume_Get mem_volume_List
  mem_volume_Delete mem_inv "\<lambda>s. map_of (mem_volumes s)" vol_name "\<lambda>_ v. v" "\<lambda>v. vol_name v \<noteq> ''''"
proof (unfold_locales, goal_cases)
  case (4 s)
  then show ?case
    by (simp add: mem_volume_defs mem_inv_def gomap_listing gomap_set_ran [of vol_name])
next
  case (6 s k v)
  then show ?case by (auto simp: mem_inv_def intro: gomap_ok_lookup)
qed (auto simp: mem_volume_defs mem_inv_def update_conv' delete_conv' split: option.splits)

interpretation mem_os: singleton_store mem_osState_Put mem_osState_Get mem_osState "\<lambda>st. st"
  by unfold_locales (auto simp: mem_osState_Put_def mem_osState_Get_def split: option.splits)

definition stamp_identity :: "int \<Rightarrow> capsule_identity \<Rightarrow> capsule_identity" where
  "stamp_identity now i = (if CreatedAtUnix i = 0 then i\<lparr>CreatedAtUnix := now\<rparr> else i)"

interpretation mem_id: singleton_store "mem_identity_Put now" mem_identity_Get mem_identity "stamp_identity now"
  for now
  by unfold_locales
    (auto simp: mem_identity_Put_def mem_identity_Get_def stamp_identity_def split: option.splits)

lemma key_listing:
  assumes "gomap_ok Kid m"
  shows "sorted_wrt (\<lambda>a b. key_order a < key_order b) (sort_key key_order (map snd m))"
proof -
  have "distinct (map Kid (map snd m))"
    using assms unfolding gomap_keys [OF assms] by (simp add: gomap_ok_def)
  then have "distinct (map snd m)" "inj_on Kid (set (map snd m))"
    by (simp_all only: distinct_map)
  then have "distinct (map key_order (map snd m))"
    by (auto simp: distinct_map inj_on_def key_order_def)
  then have "sorted_wrt (<) (map key_order (sort_key key_order (map snd m)))"
    by (simp only: strict_sorted_iff sorted_sort_key distinct_map_sort_key simp_thms)
  then show ?thesis by (simp only: sorted_wrt_map)
qed

lemma gomap_count: "gomap_ok key m \<Longrightarrow> length m = card (dom (map_of m))"
  using distinct_card [of "map fst m"] by (simp add: gomap_ok_def dom_map_of_conv_image_fst)

interpretation mem_ak: auth_key_laws "mem_authKey_Add now" mem_authKey_Get mem_authKey_List
  mem_authKey_Delete mem_authKey_Count mem_authKey_DeleteAll
  "\<lambda>s. gomap_ok Kid (mem_authKeys s)" "\<lambda>s. map_of (mem_authKeys s)" "stamp_key now"
  for now
proof (unfold_locales, goal_cases)
  case (1 s k)
  then show ?case
    by (auto simp: mem_authKey_defs stamp_key_def update_conv' Let_def)
next
  case (4 s)
  then show ?case
    by (simp add: mem_authKey_defs key_listing gomap_set_ran [of Kid])
next
  case (6 s)
  then show ?case by (simp add: mem_authKey_defs gomap_count [of Kid])
next
  case (8 s kid k)
  then show ?case by (rule gomap_ok_lookup)
qed (auto simp: mem_authKey_defs delete_conv' finite_dom_map_of split: option.splits)

section \<open>The store as interfaces\<close>

definition mem_workload_if :: "mem_store workload_store" where
  "mem_workload_if = \<lparr>ws_Put = mem_workload_Put, ws_Get = mem_workload_Get,
     ws_List = mem_workload_List, ws_Delete = mem_workload_Delete\<rparr>"

definition mem_volume_if :: "mem_store volume_store" where
  "mem_volume_if = \<lparr>vs_Put = mem_volume_Put, vs_Get = mem_volume_Get,
     vs_List = mem_volume_List, vs_Delete = mem_volume_Delete\<rparr>"

definition mem_osState_if :: "mem_store os_state_store" where
  "mem_osState_if = \<lparr>os_Get = mem_osState_Get, os_Put = mem_osState_Put\<rparr>"

definition mem_identity_if :: "int \<Rightarrow> mem_store identity_store" where
  "mem_identity_if now = \<lparr>id_Get = mem_identity_Get, id_Put = mem_identity_Put now\<rparr>"

definition mem_authKey_if :: "int \<Rightarrow> mem_store auth_key_store" where
  "mem_authKey_if now = \<lparr>ak_Add = mem_authKey_Add now, ak_Get = mem_authKey_Get,
     ak_List = mem_authKey_List, ak_Delete = mem_authKey_Delete, ak_Count = mem_authKey_Count,
     ak_DeleteAll = mem_authKey_DeleteAll\<rparr>"

end
