(* ===== verification/Capsule_Store_Sqlite.thy ===== *)
theory Capsule_Store_Sqlite
  imports Capsule_Store
begin

text \<open>
  The sqlite store \<^verbatim>\<open>src/store/sqlite/sqlite.go\<close>: schema migration and the
  statements of every method on the tables they name. A table is an association
  list from its primary key to the remaining columns; a nullable column is an
  option.

  Parameters: \<open>fault\<close> is the error the SQL driver reports for the statement
  (\<^const>\<open>None\<close> when it executes), \<open>now\<close> the clock (\<^verbatim>\<open>strftime('%s','now')\<close> and
  \<^verbatim>\<open>time.Now().Unix()\<close>), \<open>marshal\<close> and \<open>unmarshal\<close> the protobuf codec, \<open>dup\<close> the
  text of the driver's error for a violated primary key.
\<close>

section \<open>Migration\<close>

text \<open>A schema maps a table to its columns. \<open>CREATE TABLE IF NOT EXISTS\<close> leaves an
  existing table alone.\<close>

type_synonym schema = "(string, string list) gomap"

definition create_if_missing :: "string \<times> string list \<Rightarrow> schema \<Rightarrow> schema" where
  "create_if_missing t sc =
    (case map_of sc (fst t) of None \<Rightarrow> AList.update (fst t) (snd t) sc | Some _ \<Rightarrow> sc)"

definition migrate_tables :: "(string \<times> string list) list" where
  "migrate_tables =
    [(''workloads'', [''name'', ''spec'', ''updated_at'']),
     (''volumes'', [''name'', ''host_path'', ''created_at'']),
     (''os_state'', [''singleton'', ''active_slot'', ''pending_slot'', ''pending_deadline_unix'',
        ''last_good_slot'', ''last_version'', ''updated_at_unix'']),
     (''capsule_identity'', [''singleton'', ''capsule_id'', ''short_id'', ''created_at_unix'',
        ''adopted_at_unix'', ''adopted_by_kid'']),
     (''authorized_keys'', [''kid'', ''pubkey'', ''name'', ''added_by_kid'', ''added_at_unix''])]"

text \<open>\<open>PRAGMA table_info\<close> of an absent table has no rows, and \<open>ALTER TABLE\<close> then
  fails.\<close>

definition addColumnIfMissing :: "string \<Rightarrow> string \<Rightarrow> schema \<Rightarrow> schema result" where
  "addColumnIfMissing table column sc =
    (case map_of sc table of
       None \<Rightarrow> Inl (Wrap ''alter table'' (Errorf ''no such table''))
     | Some cols \<Rightarrow>
         if column \<in> set cols then Inr sc
         else Inr (AList.update table (cols @ [column]) sc))"

definition migrate :: "schema \<Rightarrow> schema result" where
  "migrate sc =
    (case addColumnIfMissing ''capsule_identity'' ''short_id'' (fold create_if_missing migrate_tables sc) of
       Inl e \<Rightarrow> Inl (Wrap ''sqlite migrate short_id'' e)
     | Inr sc' \<Rightarrow> Inr sc')"

section \<open>Tables\<close>

record os_row =
  or_active_slot :: string
  or_pending_slot :: "string option"
  or_pending_deadline_unix :: "int option"
  or_last_good_slot :: string
  or_last_version :: "string option"
  or_updated_at_unix :: int

record identity_row =
  ir_capsule_id :: string
  ir_short_id :: "string option"
  ir_created_at_unix :: int
  ir_adopted_at_unix :: "int option"
  ir_adopted_by_kid :: "string option"

record key_row =
  kr_pubkey :: "8 word list"
  kr_name :: string
  kr_added_by_kid :: "string option"
  kr_added_at_unix :: int

record volume_row =
  vr_host_path :: string
  vr_created_at :: int

record 'b workload_row =
  wr_spec :: 'b
  wr_updated_at :: int

record 'b sqlite_db =
  sq_workloads :: "(string, 'b workload_row) gomap"
  sq_volumes :: "(string, volume_row) gomap"
  sq_os_state :: "os_row option"
  sq_identity :: "identity_row option"
  sq_keys :: "(string, key_row) gomap"

text \<open>The conversions between a Go zero value and NULL.\<close>

definition null_str :: "string \<Rightarrow> string option" where
  "null_str s = (if s \<noteq> '''' then Some s else None)"

definition null_int :: "int \<Rightarrow> int option" where
  "null_int i = (if i \<noteq> 0 then Some i else None)"

definition str_of_null :: "string option \<Rightarrow> string" where
  "str_of_null x = (case x of Some s \<Rightarrow> s | None \<Rightarrow> '''')"

definition int_of_null :: "int option \<Rightarrow> int" where
  "int_of_null x = (case x of Some i \<Rightarrow> i | None \<Rightarrow> 0)"

lemma null_roundtrip [simp, roundtrip]:
  "str_of_null (null_str s) = s" "int_of_null (null_int i) = i"
  by (simp_all add: null_str_def str_of_null_def null_int_def int_of_null_def)

lemma null_simps [simp]:
  "str_of_null None = []" "str_of_null (Some s) = s" "int_of_null None = 0" "int_of_null (Some i) = i"
  by (simp_all add: str_of_null_def int_of_null_def)

section \<open>Operating system state\<close>

definition os_of_row :: "os_row \<Rightarrow> os_state" where
  "os_of_row r = \<lparr>ActiveSlot = or_active_slot r, PendingSlot = str_of_null (or_pending_slot r),
     PendingDeadlineUnix = int_of_null (or_pending_deadline_unix r),
     LastGoodSlot = or_last_good_slot r, LastVersion = str_of_null (or_last_version r),
     UpdatedAtUnix = or_updated_at_unix r\<rparr>"

definition sqlite_osState_Get :: "go_error option \<Rightarrow> ('b sqlite_db, os_state) action" where
  "sqlite_osState_Get fault db =
    (case fault of
       Some e \<Rightarrow> (Inl e, db)
     | None \<Rightarrow>
        (case sq_os_state db of
           None \<Rightarrow> (Inl ErrNotFound, db)
         | Some r \<Rightarrow> (Inr (os_of_row r), db)))"

definition sqlite_osState_Put :: "go_error option \<Rightarrow> int \<Rightarrow> os_state \<Rightarrow> ('b sqlite_db, unit) action" where
  "sqlite_osState_Put fault now st db =
    (let pending = null_str (PendingSlot st);
         deadline = null_int (PendingDeadlineUnix st);
         ver = null_str (LastVersion st)
     in case fault of
          Some e \<Rightarrow> (Inl e, db)
        | None \<Rightarrow> (Inr (), db\<lparr>sq_os_state := Some
            \<lparr>or_active_slot = ActiveSlot st, or_pending_slot = pending,
             or_pending_deadline_unix = deadline, or_last_good_slot = LastGoodSlot st,
             or_last_version = ver, or_updated_at_unix = now\<rparr>\<rparr>))"

section \<open>Volumes\<close>

text \<open>The insert keeps the given creation time unless it is zero; the update of an
  existing row changes \<open>host_path\<close> only.\<close>

definition sqlite_volume_Put :: "go_error option \<Rightarrow> int \<Rightarrow> volume \<Rightarrow> ('b sqlite_db, unit) action" where
  "sqlite_volume_Put fault now v db =
    (case fault of
       Some e \<Rightarrow> (Inl e, db)
     | None \<Rightarrow>
        let row = (case map_of (sq_volumes db) (vol_name v) of
              None \<Rightarrow> \<lparr>vr_host_path = vol_host_path v,
                 vr_created_at = (if vol_created_at_unix v = 0 then now else vol_created_at_unix v)\<rparr>
            | Some old \<Rightarrow> old\<lparr>vr_host_path := vol_host_path v\<rparr>)
        in (Inr (), db\<lparr>sq_volumes := AList.update (vol_name v) row (sq_volumes db)\<rparr>))"

definition volume_of_row :: "string \<times> volume_row \<Rightarrow> volume" where
  "volume_of_row r = \<lparr>vol_name = fst r, vol_size_bytes = 0, vol_host_path = vr_host_path (snd r),
     vol_mounted_by = [], vol_created_at_unix = vr_created_at (snd r)\<rparr>"

definition sqlite_volume_Get :: "go_error option \<Rightarrow> string \<Rightarrow> ('b sqlite_db, volume) action" where
  "sqlite_volume_Get fault name db =
    (case fault of
       Some e \<Rightarrow> (Inl e, db)
     | None \<Rightarrow>
        (case map_of (sq_volumes db) name of
           None \<Rightarrow> (Inl ErrNotFound, db)
         | Some r \<Rightarrow> (Inr (volume_of_row (name, r)), db)))"

definition sqlite_volume_List :: "go_error option \<Rightarrow> ('b sqlite_db, volume list) action" where
  "sqlite_volume_List fault db =
    (case fault of
       Some e \<Rightarrow> (Inl e, db)
     | None \<Rightarrow> (Inr (map volume_of_row (sort_key fst (sq_volumes db))), db))"

definition sqlite_volume_Delete :: "go_error option \<Rightarrow> string \<Rightarrow> ('b sqlite_db, unit) action" where
  "sqlite_volume_Delete fault name db =
    (case fault of
       Some e \<Rightarrow> (Inl e, db)
     | None \<Rightarrow> (Inr (), db\<lparr>sq_volumes := AList.delete name (sq_volumes db)\<rparr>))"

section \<open>Workloads\<close>

definition sqlite_workload_Put ::
  "(workload \<Rightarrow> 'b result) \<Rightarrow> go_error option \<Rightarrow> int \<Rightarrow> workload \<Rightarrow> ('b sqlite_db, unit) action" where
  "sqlite_workload_Put marshal fault now w db =
    (case marshal w of
       Inl e \<Rightarrow> (Inl (Wrap ''marshal workload'' e), db)
     | Inr blob \<Rightarrow>
        (case fault of
           Some e \<Rightarrow> (Inl e, db)
         | None \<Rightarrow> (Inr (), db\<lparr>sq_workloads :=
             AList.update (wl_name w) \<lparr>wr_spec = blob, wr_updated_at = now\<rparr> (sq_workloads db)\<rparr>)))"

definition sqlite_workload_Get ::
  "('b \<Rightarrow> workload result) \<Rightarrow> go_error option \<Rightarrow> string \<Rightarrow> ('b sqlite_db, workload) action" where
  "sqlite_workload_Get unmarshal fault name db =
    (case fault of
       Some e \<Rightarrow> (Inl e, db)
     | None \<Rightarrow>
        (case map_of (sq_workloads db) name of
           None \<Rightarrow> (Inl ErrNotFound, db)
         | Some r \<Rightarrow>
            (case unmarshal (wr_spec r) of
               Inl e \<Rightarrow> (Inl (Wrap ''unmarshal workload'' e), db)
             | Inr w \<Rightarrow> (Inr w, db))))"

fun unmarshal_all :: "('b \<Rightarrow> workload result) \<Rightarrow> 'b list \<Rightarrow> workload list result" where
  "unmarshal_all unmarshal [] = Inr []"
| "unmarshal_all unmarshal (b # bs) =
    (case unmarshal b of
       Inl e \<Rightarrow> Inl e
     | Inr w \<Rightarrow> (case unmarshal_all unmarshal bs of Inl e \<Rightarrow> Inl e | Inr ws \<Rightarrow> Inr (w # ws)))"

definition sqlite_workload_List ::
  "('b \<Rightarrow> workload result) \<Rightarrow> go_error option \<Rightarrow> ('b sqlite_db, workload list) action" where
  "sqlite_workload_List unmarshal fault db =
    (case fault of
       Some e \<Rightarrow> (Inl e, db)
     | None \<Rightarrow>
        (unmarshal_all unmarshal (map (\<lambda>r. wr_spec (snd r)) (sort_key fst (sq_workloads db))), db))"

definition sqlite_workload_Delete :: "go_error option \<Rightarrow> string \<Rightarrow> ('b sqlite_db, unit) action" where
  "sqlite_workload_Delete fault name db =
    (case fault of
       Some e \<Rightarrow> (Inl e, db)
     | None \<Rightarrow> (Inr (), db\<lparr>sq_workloads := AList.delete name (sq_workloads db)\<rparr>))"

section \<open>Identity\<close>

definition identity_of_row :: "identity_row \<Rightarrow> capsule_identity" where
  "identity_of_row r = \<lparr>CapsuleID = ir_capsule_id r, ShortID = str_of_null (ir_short_id r),
     CreatedAtUnix = ir_created_at_unix r, AdoptedAtUnix = int_of_null (ir_adopted_at_unix r),
     AdoptedByKid = str_of_null (ir_adopted_by_kid r)\<rparr>"

definition sqlite_identity_Get :: "go_error option \<Rightarrow> ('b sqlite_db, capsule_identity) action" where
  "sqlite_identity_Get fault db =
    (case fault of
       Some e \<Rightarrow> (Inl e, db)
     | None \<Rightarrow>
        (case sq_identity db of
           None \<Rightarrow> (Inl ErrNotFound, db)
         | Some r \<Rightarrow> (Inr (identity_of_row r), db)))"

definition sqlite_identity_Put ::
  "go_error option \<Rightarrow> int \<Rightarrow> capsule_identity \<Rightarrow> ('b sqlite_db, unit) action" where
  "sqlite_identity_Put fault now i db =
    (let shortID = null_str (ShortID i);
         adoptedAt = null_int (AdoptedAtUnix i);
         adoptedBy = null_str (AdoptedByKid i);
         createdAt = (if CreatedAtUnix i = 0 then now else CreatedAtUnix i)
     in case fault of
          Some e \<Rightarrow> (Inl e, db)
        | None \<Rightarrow> (Inr (), db\<lparr>sq_identity := Some
            \<lparr>ir_capsule_id = CapsuleID i, ir_short_id = shortID, ir_created_at_unix = createdAt,
             ir_adopted_at_unix = adoptedAt, ir_adopted_by_kid = adoptedBy\<rparr>\<rparr>))"

section \<open>Authorized keys\<close>

definition key_of_row :: "string \<times> key_row \<Rightarrow> authorized_key" where
  "key_of_row r = \<lparr>Kid = fst r, Pubkey = kr_pubkey (snd r), KeyName = kr_name (snd r),
     AddedByKid = str_of_null (kr_added_by_kid (snd r)), AddedAtUnix = kr_added_at_unix (snd r)\<rparr>"

definition sqlite_authKey_Add ::
  "string \<Rightarrow> go_error option \<Rightarrow> int \<Rightarrow> authorized_key \<Rightarrow> ('b sqlite_db, unit) action" where
  "sqlite_authKey_Add dup fault now k db =
    (let addedBy = null_str (AddedByKid k);
         addedAt = (if AddedAtUnix k = 0 then now else AddedAtUnix k);
         err = (case fault of
              Some e \<Rightarrow> Some e
            | None \<Rightarrow> (case map_of (sq_keys db) (Kid k) of Some _ \<Rightarrow> Some (Errorf dup) | None \<Rightarrow> None))
     in case err of
          Some e \<Rightarrow>
            if str_contains (error_text e) ''UNIQUE'' \<or> str_contains (error_text e) ''constraint''
            then (Inl ErrConflict, db) else (Inl e, db)
        | None \<Rightarrow> (Inr (), db\<lparr>sq_keys := AList.update (Kid k)
            \<lparr>kr_pubkey = Pubkey k, kr_name = KeyName k, kr_added_by_kid = addedBy,
             kr_added_at_unix = addedAt\<rparr> (sq_keys db)\<rparr>))"

definition sqlite_authKey_Get :: "go_error option \<Rightarrow> string \<Rightarrow> ('b sqlite_db, authorized_key) action" where
  "sqlite_authKey_Get fault kid db =
    (case fault of
       Some e \<Rightarrow> (Inl e, db)
     | None \<Rightarrow>
        (case map_of (sq_keys db) kid of
           None \<Rightarrow> (Inl ErrNotFound, db)
         | Some r \<Rightarrow> (Inr (key_of_row (kid, r)), db)))"

definition sqlite_authKey_List :: "go_error option \<Rightarrow> ('b sqlite_db, authorized_key list) action" where
  "sqlite_authKey_List fault db =
    (case fault of
       Some e \<Rightarrow> (Inl e, db)
     | None \<Rightarrow> (Inr (map key_of_row (sort_key (\<lambda>r. (kr_added_at_unix (snd r), fst r)) (sq_keys db))), db))"

definition sqlite_authKey_Delete :: "go_error option \<Rightarrow> string \<Rightarrow> ('b sqlite_db, unit) action" where
  "sqlite_authKey_Delete fault kid db =
    (case fault of
       Some e \<Rightarrow> (Inl e, db)
     | None \<Rightarrow> (Inr (), db\<lparr>sq_keys := AList.delete kid (sq_keys db)\<rparr>))"

definition sqlite_authKey_Count :: "go_error option \<Rightarrow> ('b sqlite_db, nat) action" where
  "sqlite_authKey_Count fault db =
    (case fault of Some e \<Rightarrow> (Inl e, db) | None \<Rightarrow> (Inr (length (sq_keys db)), db))"

definition sqlite_authKey_DeleteAll :: "go_error option \<Rightarrow> ('b sqlite_db, unit) action" where
  "sqlite_authKey_DeleteAll fault db =
    (case fault of Some e \<Rightarrow> (Inl e, db) | None \<Rightarrow> (Inr (), db\<lparr>sq_keys := []\<rparr>))"

section \<open>The laws hold of the sqlite store\<close>

definition sqlite_inv :: "'b sqlite_db \<Rightarrow> bool" where
  "sqlite_inv db \<longleftrightarrow> distinct (map fst (sq_workloads db)) \<and> distinct (map fst (sq_volumes db)) \<and>
     distinct (map fst (sq_keys db))"

definition rows_lookup :: "(string \<times> 'r \<Rightarrow> 'v) \<Rightarrow> (string, 'r) gomap \<Rightarrow> string \<Rightarrow> 'v option" where
  "rows_lookup f m k = map_option (\<lambda>r. f (k, r)) (map_of m k)"

lemma rows_lookup_update:
  "rows_lookup f (AList.update k r m) = (rows_lookup f m)(k \<mapsto> f (k, r))"
  by (rule ext) (simp add: rows_lookup_def update_conv')

lemma rows_lookup_delete: "rows_lookup f (AList.delete k m) = (rows_lookup f m)(k := None)"
  by (rule ext) (simp add: rows_lookup_def delete_conv')

lemma rows_lookup_Nil [simp]: "rows_lookup f [] = Map.empty"
  by (rule ext) (simp add: rows_lookup_def)

lemma dom_rows_lookup [simp]: "dom (rows_lookup f m) = dom (map_of m)"
  by (auto simp: rows_lookup_def)

lemma ran_rows_lookup: "distinct (map fst m) \<Longrightarrow> ran (rows_lookup f m) = f ` set m"
  by (force simp: rows_lookup_def ran_def image_iff)

lemma rows_listing:
  fixes ord :: "string \<times> 'r \<Rightarrow> 'o::linorder"
  assumes "distinct (map ord m)" "\<And>r. key (f r) = ord r"
  shows "sorted_wrt (\<lambda>a b. key a < key b) (map f (sort_key ord m))"
proof -
  have "sorted_wrt (<) (map ord (sort_key ord m))"
    using assms(1) by (simp only: strict_sorted_iff sorted_sort_key distinct_map_sort_key simp_thms)
  then show ?thesis by (simp only: sorted_wrt_map assms(2))
qed

lemmas sqlite_volume_defs =
  sqlite_volume_Put_def sqlite_volume_Get_def sqlite_volume_List_def sqlite_volume_Delete_def

lemmas sqlite_key_defs =
  sqlite_authKey_Add_def sqlite_authKey_Get_def sqlite_authKey_List_def sqlite_authKey_Delete_def
  sqlite_authKey_Count_def sqlite_authKey_DeleteAll_def

text \<open>What a volume put at time \<open>now\<close> reads back as: the derived fields are gone, and
  a row that exists keeps its creation time.\<close>

definition sqlite_volume_norm :: "int \<Rightarrow> 'b sqlite_db \<Rightarrow> volume \<Rightarrow> volume" where
  "sqlite_volume_norm now db v =
    v\<lparr>vol_size_bytes := 0, vol_mounted_by := [],
      vol_created_at_unix := (case map_of (sq_volumes db) (vol_name v) of
          Some old \<Rightarrow> vr_created_at old
        | None \<Rightarrow> if vol_created_at_unix v = 0 then now else vol_created_at_unix v)\<rparr>"

interpretation sq_vol: keyed_store "sqlite_volume_Put None now" "sqlite_volume_Get None"
  "sqlite_volume_List None" "sqlite_volume_Delete None" sqlite_inv
  "\<lambda>db. rows_lookup volume_of_row (sq_volumes db)" vol_name "sqlite_volume_norm now" "\<lambda>_. True"
  for now
proof (unfold_locales, goal_cases)
  case (1 s v)
  then show ?case
    by (auto simp: sqlite_volume_defs sqlite_inv_def distinct_update rows_lookup_update
        sqlite_volume_norm_def volume_of_row_def Let_def split: option.splits)
next
  case (4 s)
  then show ?case
    by (auto simp: sqlite_volume_defs sqlite_inv_def ran_rows_lookup volume_of_row_def
        intro!: rows_listing)
qed (auto simp: sqlite_volume_defs sqlite_inv_def distinct_delete rows_lookup_delete
       rows_lookup_def volume_of_row_def split: option.splits)

interpretation sq_os: singleton_store "sqlite_osState_Put None now" "sqlite_osState_Get None"
  "\<lambda>db. map_option os_of_row (sq_os_state db)" "\<lambda>st. st\<lparr>UpdatedAtUnix := now\<rparr>"
  for now
  by unfold_locales (auto simp: sqlite_osState_Put_def sqlite_osState_Get_def os_of_row_def
      split: option.splits)

interpretation sq_id: singleton_store "sqlite_identity_Put None now" "sqlite_identity_Get None"
  "\<lambda>db. map_option identity_of_row (sq_identity db)"
  "\<lambda>i. if CreatedAtUnix i = 0 then i\<lparr>CreatedAtUnix := now\<rparr> else i"
  for now
  by unfold_locales (auto simp: sqlite_identity_Put_def sqlite_identity_Get_def identity_of_row_def
      split: option.splits)

text \<open>The keystore recognises a duplicate by the text of the driver's error, so its
  laws hold whenever that text mentions the constraint.\<close>

definition dup_ok :: "string \<Rightarrow> bool" where
  "dup_ok dup \<longleftrightarrow> str_contains dup ''UNIQUE'' \<or> str_contains dup ''constraint''"

lemma key_rows_distinct:
  "distinct (map fst m) \<Longrightarrow> distinct (map (\<lambda>r. (kr_added_at_unix (snd r), fst r)) m)"
  by (auto simp: distinct_map inj_on_def)

lemma key_order_of_row: "key_order (key_of_row r) = (kr_added_at_unix (snd r), fst r)"
  by (simp add: key_order_def key_of_row_def)

lemma sqlite_auth_key_laws:
  assumes "dup_ok dup"
  shows "auth_key_laws (sqlite_authKey_Add dup None now) (sqlite_authKey_Get None)
    (sqlite_authKey_List None) (sqlite_authKey_Delete None) (sqlite_authKey_Count None)
    (sqlite_authKey_DeleteAll None) (\<lambda>db. distinct (map fst (sq_keys db)))
    (\<lambda>db. rows_lookup key_of_row (sq_keys db)) (stamp_key now)"
proof (unfold_locales, goal_cases)
  case (1 s k)
  then show ?case
    by (auto simp: sqlite_key_defs rows_lookup_update distinct_update key_of_row_def stamp_key_def
        rows_lookup_def Let_def)
next
  case (2 s k)
  then show ?case
    using assms by (auto simp: sqlite_key_defs rows_lookup_def dup_ok_def Let_def)
next
  case (4 s)
  then show ?case
    by (auto simp: sqlite_key_defs ran_rows_lookup key_order_of_row
        intro!: rows_listing key_rows_distinct)
next
  case (6 s)
  then show ?case
    using distinct_card [of "map fst (sq_keys s)"]
    by (simp add: sqlite_key_defs dom_map_of_conv_image_fst)
qed (auto simp: sqlite_key_defs distinct_delete rows_lookup_delete rows_lookup_def key_of_row_def
       finite_dom_map_of split: option.splits)

text \<open>The workload table keeps an encoded message per row. The protobuf codec is
  required to decode what it encoded.\<close>

definition codec_ok :: "(workload \<Rightarrow> 'b result) \<Rightarrow> ('b \<Rightarrow> workload result) \<Rightarrow> bool" where
  "codec_ok marshal unmarshal \<longleftrightarrow> (\<forall>w. \<exists>b. marshal w = Inr b \<and> unmarshal b = Inr w)"

definition decodes :: "('b \<Rightarrow> workload result) \<Rightarrow> string \<times> 'b workload_row \<Rightarrow> bool" where
  "decodes unmarshal r = (case unmarshal (wr_spec (snd r)) of Inr w \<Rightarrow> wl_name w = fst r | Inl _ \<Rightarrow> False)"

definition decoded :: "('b \<Rightarrow> workload result) \<Rightarrow> string \<times> 'b workload_row \<Rightarrow> workload" where
  "decoded unmarshal r = projr (unmarshal (wr_spec (snd r)))"

definition sqlite_wl_inv :: "('b \<Rightarrow> workload result) \<Rightarrow> 'b sqlite_db \<Rightarrow> bool" where
  "sqlite_wl_inv unmarshal db \<longleftrightarrow> sqlite_inv db \<and> (\<forall>r\<in>set (sq_workloads db). decodes unmarshal r)"

lemma unmarshal_all_decoded:
  "\<forall>r\<in>set rs. decodes unmarshal r \<Longrightarrow>
   unmarshal_all unmarshal (map (\<lambda>r. wr_spec (snd r)) rs) = Inr (map (decoded unmarshal) rs)"
  by (induction rs) (auto simp: decodes_def decoded_def split: sum.splits)

lemma decoded_name: "decodes unmarshal r \<Longrightarrow> wl_name (decoded unmarshal r) = fst r"
  by (simp add: decodes_def decoded_def split: sum.splits)

lemma decodes_Get:
  "decodes unmarshal (k, r) \<Longrightarrow> unmarshal (wr_spec r) = Inr (decoded unmarshal (k, r))"
  by (simp add: decodes_def decoded_def split: sum.splits)

lemma sorted_decoded:
  assumes "distinct (map fst m)" "\<forall>r\<in>set m. decodes unmarshal r"
  shows "sorted_wrt (\<lambda>a b. wl_name a < wl_name b) (map (decoded unmarshal) (sort_key fst m))"
proof -
  have "map wl_name (map (decoded unmarshal) (sort_key fst m)) = map fst (sort_key fst m)"
    using assms(2) by (simp add: decoded_name)
  moreover have "sorted_wrt (<) (map fst (sort_key fst m))"
    using assms(1) by (simp only: strict_sorted_iff sorted_sort_key distinct_map_sort_key simp_thms)
  ultimately show ?thesis
    by (metis sorted_wrt_map)
qed

lemmas sqlite_workload_defs =
  sqlite_workload_Put_def sqlite_workload_Get_def sqlite_workload_List_def sqlite_workload_Delete_def

lemma sqlite_wl_inv_put:
  assumes "sqlite_wl_inv unmarshal db" "unmarshal b = Inr w"
  shows "sqlite_wl_inv unmarshal (db\<lparr>sq_workloads :=
    AList.update (wl_name w) \<lparr>wr_spec = b, wr_updated_at = t\<rparr> (sq_workloads db)\<rparr>)"
  using assms set_update_subset [of "wl_name w" "\<lparr>wr_spec = b, wr_updated_at = t\<rparr>" "sq_workloads db"]
  by (auto simp: sqlite_wl_inv_def sqlite_inv_def distinct_update decodes_def)

lemma sqlite_wl_inv_delete:
  "sqlite_wl_inv unmarshal db \<Longrightarrow>
   sqlite_wl_inv unmarshal (db\<lparr>sq_workloads := AList.delete k (sq_workloads db)\<rparr>)"
  using set_delete_subset [of k "sq_workloads db"]
  by (auto simp: sqlite_wl_inv_def sqlite_inv_def distinct_delete)

lemma sqlite_workload_keyed:
  assumes "codec_ok marshal unmarshal"
  shows "keyed_store (sqlite_workload_Put marshal None now) (sqlite_workload_Get unmarshal None)
    (sqlite_workload_List unmarshal None) (sqlite_workload_Delete None) (sqlite_wl_inv unmarshal)
    (\<lambda>db. rows_lookup (decoded unmarshal) (sq_workloads db)) wl_name (\<lambda>_ w. w) (\<lambda>_. True)"
proof (unfold_locales, goal_cases)
  case (1 s w)
  obtain b where b: "marshal w = Inr b" "unmarshal b = Inr w"
    using assms unfolding codec_ok_def by blast
  then show ?case
    using sqlite_wl_inv_put [OF 1(1) b(2)]
    by (simp add: sqlite_workload_defs rows_lookup_update decoded_def)
next
  case (3 s k)
  then have "decodes unmarshal (k, r)" if "map_of (sq_workloads s) k = Some r" for r
    using map_of_SomeD [OF that] by (auto simp: sqlite_wl_inv_def)
  then show ?case
    by (auto simp: sqlite_workload_defs rows_lookup_def decodes_Get split: option.splits)
next
  case (4 s)
  then show ?case
    by (auto simp: sqlite_workload_defs sqlite_wl_inv_def sqlite_inv_def unmarshal_all_decoded
        ran_rows_lookup intro!: sorted_decoded)
next
  case (5 s k)
  then show ?case
    by (simp add: sqlite_workload_defs rows_lookup_delete sqlite_wl_inv_delete)
next
  case (6 s k v)
  then show ?case
    by (auto simp: sqlite_wl_inv_def rows_lookup_def dest!: map_of_SomeD intro: decoded_name [THEN trans])
qed simp

section \<open>Migration of an existing database\<close>

definition schema_le :: "schema \<Rightarrow> schema \<Rightarrow> bool" where
  "schema_le a b \<longleftrightarrow> (\<forall>t cols. map_of a t = Some cols \<longrightarrow>
     (\<exists>cols'. map_of b t = Some cols' \<and> set cols \<subseteq> set cols'))"

lemma schema_le_refl: "schema_le a a"
  by (simp add: schema_le_def)

lemma schema_le_trans: "schema_le a b \<Longrightarrow> schema_le b c \<Longrightarrow> schema_le a c"
  unfolding schema_le_def by (meson subset_trans)

lemma create_if_missing_le: "schema_le sc (create_if_missing t sc)"
  by (auto simp: schema_le_def create_if_missing_def update_conv' split: option.splits)

lemma fold_create_le: "schema_le sc (fold create_if_missing ts sc)"
proof (induction ts arbitrary: sc)
  case (Cons t ts)
  then show ?case using create_if_missing_le schema_le_trans by fastforce
qed (simp add: schema_le_refl)

lemma fold_create_present:
  "t \<in> fst ` set ts \<Longrightarrow> map_of (fold create_if_missing ts sc) t \<noteq> None"
proof (induction ts arbitrary: sc)
  case (Cons x ts)
  show ?case
  proof (cases "t = fst x")
    case True
    then have "map_of (create_if_missing x sc) t \<noteq> None"
      by (auto simp: create_if_missing_def update_conv' split: option.splits)
    then show ?thesis
      using fold_create_le [of "create_if_missing x sc" ts] by (fastforce simp: schema_le_def)
  qed (use Cons in auto)
qed simp

lemma fold_create_noop:
  "\<forall>t\<in>fst ` set ts. map_of sc t \<noteq> None \<Longrightarrow> fold create_if_missing ts sc = sc"
  by (induction ts) (auto simp: create_if_missing_def)

lemma migrate_succeeds:
  "\<exists>sc'. migrate sc = Inr sc' \<and> schema_le sc sc' \<and>
     (\<forall>t\<in>fst ` set migrate_tables. map_of sc' t \<noteq> None) \<and>
     (\<exists>cols. map_of sc' ''capsule_identity'' = Some cols \<and> ''short_id'' \<in> set cols)"
proof -
  let ?m = "fold create_if_missing migrate_tables sc"
  have present: "\<forall>t\<in>fst ` set migrate_tables. map_of ?m t \<noteq> None"
    using fold_create_present by blast
  have le: "schema_le sc ?m" by (rule fold_create_le)
  have "''capsule_identity'' \<in> fst ` set migrate_tables"
    by (simp add: migrate_tables_def)
  then obtain cols where cols: "map_of ?m ''capsule_identity'' = Some cols"
    using present by blast
  let ?n = "AList.update ''capsule_identity'' (cols @ [''short_id'']) ?m"
  have "schema_le ?m ?n"
    using cols by (auto simp: schema_le_def update_conv')
  then have "schema_le sc ?n" by (rule schema_le_trans [OF le])
  moreover have "\<forall>t\<in>fst ` set migrate_tables. map_of ?n t \<noteq> None"
    using present by (simp add: update_conv')
  ultimately show ?thesis
    using cols le present by (auto simp: migrate_def addColumnIfMissing_def update_conv')
qed

lemma migrate_idem: "migrate sc = Inr sc' \<Longrightarrow> migrate sc' = Inr sc'"
  using migrate_succeeds [of sc]
  by (auto simp: migrate_def [of sc'] fold_create_noop addColumnIfMissing_def)

section \<open>The store as interfaces\<close>

definition sqlite_workloads ::
  "(workload \<Rightarrow> 'b result) \<Rightarrow> ('b \<Rightarrow> workload result) \<Rightarrow> int \<Rightarrow> 'b sqlite_db workload_store" where
  "sqlite_workloads marshal unmarshal now =
    \<lparr>ws_Put = sqlite_workload_Put marshal None now, ws_Get = sqlite_workload_Get unmarshal None,
     ws_List = sqlite_workload_List unmarshal None, ws_Delete = sqlite_workload_Delete None\<rparr>"

definition sqlite_volumes :: "int \<Rightarrow> 'b sqlite_db volume_store" where
  "sqlite_volumes now =
    \<lparr>vs_Put = sqlite_volume_Put None now, vs_Get = sqlite_volume_Get None,
     vs_List = sqlite_volume_List None, vs_Delete = sqlite_volume_Delete None\<rparr>"

definition sqlite_osState :: "int \<Rightarrow> 'b sqlite_db os_state_store" where
  "sqlite_osState now = \<lparr>os_Get = sqlite_osState_Get None, os_Put = sqlite_osState_Put None now\<rparr>"

definition sqlite_identity :: "int \<Rightarrow> 'b sqlite_db identity_store" where
  "sqlite_identity now = \<lparr>id_Get = sqlite_identity_Get None, id_Put = sqlite_identity_Put None now\<rparr>"

definition sqlite_authKeys :: "string \<Rightarrow> int \<Rightarrow> 'b sqlite_db auth_key_store" where
  "sqlite_authKeys dup now =
    \<lparr>ak_Add = sqlite_authKey_Add dup None now, ak_Get = sqlite_authKey_Get None,
     ak_List = sqlite_authKey_List None, ak_Delete = sqlite_authKey_Delete None,
     ak_Count = sqlite_authKey_Count None, ak_DeleteAll = sqlite_authKey_DeleteAll None\<rparr>"

definition sqlite_empty :: "'b sqlite_db" where
  "sqlite_empty = \<lparr>sq_workloads = [], sq_volumes = [], sq_os_state = None, sq_identity = None, sq_keys = []\<rparr>"

end
