(* ===== verification/Capsule_Workload.thy ===== *)
theory Capsule_Workload
  imports Capsule_Runtime Capsule_Store_Memory Capsule_Store_Sqlite
begin

text \<open>
  The workload service \<^verbatim>\<open>src/core/workload/service.go\<close>. Its state is the store,
  the runtime backends and the reconciler's wake channel; an operation of the
  service takes the wired service (store and drivers, a nil driver being
  \<^const>\<open>None\<close>) and the state. Every operation is defined for an arbitrary store
  and arbitrary drivers, so all their error returns are branches. The locale
  \<open>workload_backend\<close> states what the service relies on in the store, and proves
  the operations correct under it.
\<close>

section \<open>State\<close>

record ('s, 'r) service =
  svc_store :: "'s workload_store"
  svc_driver :: "'r container_driver option"
  svc_vm :: "'r vm_driver option"
  svc_onChange :: bool

text \<open>\<open>w_wake\<close> is the reconciler's one-place wake channel; \<open>svc_onChange\<close> says
  whether the callback, the reconciler's \<open>Kick\<close>, is installed.\<close>

record ('s, 'r) wstate =
  w_store :: 's
  w_rt :: 'r
  w_wake :: bool

definition on_store :: "('s, 'a) action \<Rightarrow> (('s, 'r) wstate, 'a) action" where
  "on_store f st = (case f (w_store st) of (x, s) \<Rightarrow> (x, st\<lparr>w_store := s\<rparr>))"

definition on_rt :: "('r, 'a) action \<Rightarrow> (('s, 'r) wstate, 'a) action" where
  "on_rt f st = (case f (w_rt st) of (x, r) \<Rightarrow> (x, st\<lparr>w_rt := r\<rparr>))"

text \<open>A send on a full channel of capacity one is dropped by the \<open>select\<close>.\<close>

definition Kick :: "('s, 'r) wstate \<Rightarrow> ('s, 'r) wstate" where
  "Kick st = (if w_wake st then st else st\<lparr>w_wake := True\<rparr>)"

definition notifyChange :: "('s, 'r) service \<Rightarrow> ('s, 'r) wstate \<Rightarrow> ('s, 'r) wstate" where
  "notifyChange svc st = (if svc_onChange svc then Kick st else st)"

definition ErrNoRuntime :: go_error where
  "ErrNoRuntime = Sentinel ''no runtime driver configured''"

section \<open>Validation\<close>

definition name_char :: "char \<Rightarrow> bool" where
  "name_char c \<longleftrightarrow> (CHR ''a'' \<le> c \<and> c \<le> CHR ''z'') \<or> (CHR ''0'' \<le> c \<and> c \<le> CHR ''9'')"

text \<open>The regular expression \<^verbatim>\<open>^[a-z0-9]([-a-z0-9]*[a-z0-9])?$\<close>.\<close>

definition nameRE :: "string \<Rightarrow> bool" where
  "nameRE s =
    (case s of
       [] \<Rightarrow> False
     | c # t \<Rightarrow> name_char c \<and>
         (t = [] \<or> list_all (\<lambda>x. x = CHR ''-'' \<or> name_char x) (butlast t) \<and> name_char (last t)))"

definition validate :: "workload option \<Rightarrow> workload result" where
  "validate ww =
    (case ww of
       None \<Rightarrow> Inl (Errorf ''workload is nil'')
     | Some w \<Rightarrow>
        if wl_name w = '''' then Inl (Errorf ''workload.name is required'')
        else if length (wl_name w) > 63 \<or> \<not> nameRE (wl_name w)
        then Inl (Errorf ''workload.name is invalid (expect DNS-1123 label, <=63 chars)'')
        else (case wl_kind w of
          WORKLOAD_KIND_CONTAINER \<Rightarrow>
            (case wl_container w of
               None \<Rightarrow> Inl (Errorf ''kind=Container requires container spec'')
             | Some c \<Rightarrow>
                 if cs_image c = '''' then Inl (Errorf ''container.image is required'') else Inr w)
        | WORKLOAD_KIND_MICRO_VM \<Rightarrow>
            (case wl_micro_vm w of
               None \<Rightarrow> Inl (Errorf ''kind=MicroVM requires micro_vm spec'')
             | Some m \<Rightarrow>
                 if ms_image m = ''''
                 then if ms_kernel_path m = ''''
                   then Inl (Errorf ''micro_vm: either image or kernel_path is required'')
                   else if ms_rootfs_path m = ''''
                   then Inl (Errorf ''micro_vm.rootfs_path is required when image is not set'')
                   else Inr w
                 else Inr w)
        | WORKLOAD_KIND_UNSPECIFIED \<Rightarrow>
            Inl (Errorf ''workload.kind is required (Container or MicroVM)'')))"

definition workloadKindString :: "workload_kind \<Rightarrow> string" where
  "workloadKindString k =
    (case k of
       WORKLOAD_KIND_CONTAINER \<Rightarrow> ''container''
     | WORKLOAD_KIND_MICRO_VM \<Rightarrow> ''microvm''
     | WORKLOAD_KIND_UNSPECIFIED \<Rightarrow> ''unknown'')"

text \<open>The getters of a nil message return the zero value.\<close>

definition workloadImage :: "workload \<Rightarrow> string" where
  "workloadImage w =
    (case wl_kind w of
       WORKLOAD_KIND_CONTAINER \<Rightarrow> (case wl_container w of None \<Rightarrow> '''' | Some c \<Rightarrow> cs_image c)
     | WORKLOAD_KIND_MICRO_VM \<Rightarrow> (case wl_micro_vm w of None \<Rightarrow> '''' | Some m \<Rightarrow> ms_image m)
     | WORKLOAD_KIND_UNSPECIFIED \<Rightarrow> '''')"

section \<open>Operations\<close>

definition workload_Apply ::
  "('s, 'r) service \<Rightarrow> workload option \<Rightarrow> (('s, 'r) wstate, workload) action" where
  "workload_Apply svc ww st =
    (case validate ww of
       Inl e \<Rightarrow> (Inl e, st)
     | Inr w \<Rightarrow>
        (case on_store (ws_Get (svc_store svc) (wl_name w)) st of (r, st1) \<Rightarrow>
          let put = (\<lambda>merged.
                case on_store (ws_Put (svc_store svc) merged) st1 of
                  (Inl e, st2) \<Rightarrow> (Inl e, st2)
                | (Inr _, st2) \<Rightarrow> (Inr merged, notifyChange svc st2))
          in case r of
               Inl e \<Rightarrow> if errors_is e ErrNotFound then put w else (Inl e, st1)
             | Inr existing \<Rightarrow> put (w\<lparr>wl_status := wl_status existing\<rparr>)))"

definition workload_Get :: "('s, 'r) service \<Rightarrow> string \<Rightarrow> (('s, 'r) wstate, workload) action" where
  "workload_Get svc name = on_store (ws_Get (svc_store svc) name)"

definition workload_List :: "('s, 'r) service \<Rightarrow> (('s, 'r) wstate, workload list) action" where
  "workload_List svc = on_store (ws_List (svc_store svc))"

text \<open>The runtime teardown of a workload of a given kind. \<open>absent\<close> is the result
  when the driver of that kind is nil.\<close>

definition remove_runtime ::
  "('s, 'r) service \<Rightarrow> unit result \<Rightarrow> workload_kind \<Rightarrow> string \<Rightarrow> (('s, 'r) wstate, unit) action" where
  "remove_runtime svc absent kind name st =
    (case kind of
       WORKLOAD_KIND_MICRO_VM \<Rightarrow>
         (case svc_vm svc of None \<Rightarrow> (absent, st) | Some vm \<Rightarrow> on_rt (vd_Remove vm name) st)
     | _ \<Rightarrow>
         (case svc_driver svc of None \<Rightarrow> (absent, st) | Some d \<Rightarrow> on_rt (cd_Remove d name) st))"

text \<open>The part of \<open>Delete\<close> after the row is marked.\<close>

definition delete_marked ::
  "('s, 'r) service \<Rightarrow> workload_kind \<Rightarrow> string \<Rightarrow> (('s, 'r) wstate, unit) action" where
  "delete_marked svc kind name st =
    (case remove_runtime svc (Inr ()) kind name st of
       (Inl e, st1) \<Rightarrow>
         (Inl (Wrap (if kind = WORKLOAD_KIND_MICRO_VM then ''runtime vm remove'' else ''runtime remove'') e), st1)
     | (Inr _, st1) \<Rightarrow>
         (case on_store (ws_Delete (svc_store svc) name) st1 of
            (Inl e, st2) \<Rightarrow> (Inl e, st2)
          | (Inr _, st2) \<Rightarrow> (Inr (), notifyChange svc st2)))"

text \<open>A failed lookup of any kind counts as an absent row.\<close>

definition workload_Delete :: "('s, 'r) service \<Rightarrow> string \<Rightarrow> (('s, 'r) wstate, unit) action" where
  "workload_Delete svc name st =
    (case on_store (ws_Get (svc_store svc) name) st of
       (Inl _, st1) \<Rightarrow> delete_marked svc WORKLOAD_KIND_UNSPECIFIED name st1
     | (Inr w, st1) \<Rightarrow>
         if wl_desired_state w \<noteq> DESIRED_STATE_DELETING
         then (case on_store (ws_Put (svc_store svc) (w\<lparr>wl_desired_state := DESIRED_STATE_DELETING\<rparr>)) st1 of
                 (Inl e, st2) \<Rightarrow> (Inl (Wrap ''mark workload deleting'' e), st2)
               | (Inr _, st2) \<Rightarrow> delete_marked svc (wl_kind w) name st2)
         else delete_marked svc (wl_kind w) name st1)"

definition workload_Restart :: "('s, 'r) service \<Rightarrow> string \<Rightarrow> (('s, 'r) wstate, unit) action" where
  "workload_Restart svc name st =
    (case on_store (ws_Get (svc_store svc) name) st of
       (Inl e, st1) \<Rightarrow> (Inl e, st1)
     | (Inr w, st1) \<Rightarrow>
         (case remove_runtime svc (Inl ErrNoRuntime) (wl_kind w) name st1 of
            (Inl e, st2) \<Rightarrow> (Inl e, st2)
          | (Inr _, st2) \<Rightarrow> (Inr (), notifyChange svc st2)))"

definition workload_Stop :: "('s, 'r) service \<Rightarrow> string \<Rightarrow> (('s, 'r) wstate, unit) action" where
  "workload_Stop svc name st =
    (case on_store (ws_Get (svc_store svc) name) st of
       (Inl e, st1) \<Rightarrow> (Inl e, st1)
     | (Inr w, st1) \<Rightarrow>
         (case on_store (ws_Put (svc_store svc) (w\<lparr>wl_desired_state := DESIRED_STATE_STOPPED\<rparr>)) st1 of
            (Inl e, st2) \<Rightarrow> (Inl e, st2)
          | (Inr _, st2) \<Rightarrow>
              (Inr (), notifyChange svc (snd (remove_runtime svc (Inr ()) (wl_kind w) name st2)))))"

definition starting_status :: workload_status where
  "starting_status = \<lparr>st_phase = WORKLOAD_PHASE_PENDING, st_message = ''starting'', st_restart_count = 0\<rparr>"

definition workload_Start :: "('s, 'r) service \<Rightarrow> string \<Rightarrow> (('s, 'r) wstate, unit) action" where
  "workload_Start svc name st =
    (case on_store (ws_Get (svc_store svc) name) st of
       (Inl e, st1) \<Rightarrow> (Inl e, st1)
     | (Inr w, st1) \<Rightarrow>
         (case on_store (ws_Put (svc_store svc)
             (w\<lparr>wl_desired_state := DESIRED_STATE_RUNNING, wl_status := Some starting_status\<rparr>)) st1 of
            (Inl e, st2) \<Rightarrow> (Inl e, st2)
          | (Inr _, st2) \<Rightarrow> (Inr (), notifyChange svc st2)))"

definition workload_SetStatus ::
  "('s, 'r) service \<Rightarrow> string \<Rightarrow> workload_status \<Rightarrow> (('s, 'r) wstate, unit) action" where
  "workload_SetStatus svc name status st =
    (case on_store (ws_Get (svc_store svc) name) st of
       (Inl e, st1) \<Rightarrow> (Inl e, st1)
     | (Inr w, st1) \<Rightarrow>
         if wl_status w = Some status then (Inr (), st1)
         else on_store (ws_Put (svc_store svc) (w\<lparr>wl_status := Some status\<rparr>)) st1)"

definition workload_LogPath :: "('s, 'r) service \<Rightarrow> string \<Rightarrow> string" where
  "workload_LogPath svc name =
    (case svc_driver svc of None \<Rightarrow> '''' | Some d \<Rightarrow> cd_LogPath d name)"

datatype log_source = LogSourcePayload | LogSourceSerial

definition workload_OpenLogs ::
  "(string \<Rightarrow> reader result) \<Rightarrow> ('s, 'r) service \<Rightarrow> string \<Rightarrow> bool \<Rightarrow> int \<Rightarrow> log_source \<Rightarrow>
   (('s, 'r) wstate, reader) action" where
  "workload_OpenLogs open_file svc name follow tailLines source st =
    (case on_store (ws_Get (svc_store svc) name) st of
       (Inl e, st1) \<Rightarrow> (Inl e, st1)
     | (Inr w, st1) \<Rightarrow>
        if wl_kind w = WORKLOAD_KIND_MICRO_VM
        then (case svc_vm svc of
                None \<Rightarrow> (Inl ErrNoRuntime, st1)
              | Some vm \<Rightarrow>
                  if source = LogSourceSerial then on_rt (vd_SerialLogs vm name follow) st1
                  else on_rt (vd_Logs vm name follow tailLines) st1)
        else if source = LogSourceSerial
        then (Inl (Errorf ''--serial is only valid for MicroVM workloads''), st1)
        else (case svc_driver svc of
                None \<Rightarrow> (Inl ErrNoRuntime, st1)
              | Some d \<Rightarrow>
                  let path = cd_LogPath d name
                  in if path = '''' then (Inl (Sentinel ''file does not exist''), st1)
                     else (open_file path, st1)))"

definition workload_Exec :: "('s, 'r) service \<Rightarrow> exec_request \<Rightarrow> (('s, 'r) wstate, int) action" where
  "workload_Exec svc req st =
    (case on_store (ws_Get (svc_store svc) (er_Name req)) st of (r, st1) \<Rightarrow>
      let vm_kind = (case r of Inr w \<Rightarrow> wl_kind w = WORKLOAD_KIND_MICRO_VM | Inl _ \<Rightarrow> False)
      in if vm_kind
         then (case svc_vm svc of
                 None \<Rightarrow> (Inl ErrNoRuntime, st1)
               | Some vm \<Rightarrow> on_rt (vd_Exec vm req) st1)
         else (case svc_driver svc of
                 None \<Rightarrow> (Inl ErrNoRuntime, st1)
               | Some d \<Rightarrow> on_rt (cd_Exec d req) st1))"

section \<open>Validation accepts exactly the DNS-1123 labels\<close>

definition dns1123_label :: "string \<Rightarrow> bool" where
  "dns1123_label s \<longleftrightarrow> s \<noteq> [] \<and> list_all (\<lambda>c. c = CHR ''-'' \<or> name_char c) s \<and>
     hd s \<noteq> CHR ''-'' \<and> last s \<noteq> CHR ''-''"

lemma name_char_dash [simp]: "\<not> name_char CHR ''-''"
  by (simp add: name_char_def less_eq_char_def)

lemma nameRE_iff: "nameRE s \<longleftrightarrow> dns1123_label s"
proof (cases s)
  case (Cons c t)
  show ?thesis
  proof (cases t rule: rev_cases)
    case Nil
    then show ?thesis using Cons by (auto simp: nameRE_def dns1123_label_def)
  next
    case (snoc u d)
    then show ?thesis using Cons by (auto simp: nameRE_def dns1123_label_def)
  qed
qed (simp add: nameRE_def dns1123_label_def)

lemma validate_Inr: "validate (Some w) = Inr v \<Longrightarrow> v = w \<and> nameRE (wl_name w) \<and> wl_name w \<noteq> ''''"
  by (auto simp: validate_def split: if_splits workload_kind.splits option.splits)

section \<open>Correctness over any store that keeps its contract\<close>

lemma notifyChange_simps [simp]:
  "w_store (notifyChange svc st) = w_store st" "w_rt (notifyChange svc st) = w_rt st"
  "svc_onChange svc \<Longrightarrow> w_wake (notifyChange svc st)"
  "w_wake st \<Longrightarrow> w_wake (notifyChange svc st)"
  by (auto simp: notifyChange_def Kick_def)

lemma remove_runtime_store [simp]:
  "w_store (snd (remove_runtime svc a k n st)) = w_store st"
  "w_wake (snd (remove_runtime svc a k n st)) = w_wake st"
  by (auto simp: remove_runtime_def on_rt_def split: workload_kind.splits option.splits prod.splits)

lemma remove_runtime_frame:
  "remove_runtime svc a k n (st\<lparr>w_store := s\<rparr>) =
    (case remove_runtime svc a k n st of (r, st') \<Rightarrow> (r, st'\<lparr>w_store := s\<rparr>))"
  by (auto simp: remove_runtime_def on_rt_def split: workload_kind.splits option.splits prod.splits)

lemma on_rt_store [simp]: "w_store (snd (on_rt f st)) = w_store st"
  by (simp add: on_rt_def split: prod.splits)

text \<open>A row that \<open>Delete\<close> has marked.\<close>

definition tombstone :: "workload \<Rightarrow> workload" where
  "tombstone w = w\<lparr>wl_desired_state := DESIRED_STATE_DELETING\<rparr>"

lemma tombstone_simps [simp]:
  "wl_name (tombstone w) = wl_name w" "wl_kind (tombstone w) = wl_kind w"
  "wl_desired_state (tombstone w) = DESIRED_STATE_DELETING"
  by (simp_all add: tombstone_def)

lemma tombstone_id: "wl_desired_state w = DESIRED_STATE_DELETING \<Longrightarrow> tombstone w = w"
  by (simp add: tombstone_def)

locale workload_backend =
  keyed_store "ws_Put S" "ws_Get S" "ws_List S" "ws_Delete S" inv lookup wl_name "\<lambda>_ w. w" storable
  for S :: "'s workload_store" and inv lookup storable +
  assumes storable_named: "wl_name w \<noteq> '''' \<Longrightarrow> storable w"
    and storable_cong: "wl_name v = wl_name w \<Longrightarrow> storable v = storable w"
    and lookup_storable: "inv s \<Longrightarrow> lookup s k = Some w \<Longrightarrow> storable w"
begin

lemma store_get:
  "inv (w_store st) \<Longrightarrow> on_store (ws_Get S k) st =
     ((case lookup (w_store st) k of None \<Rightarrow> Inl ErrNotFound | Some w \<Rightarrow> Inr w), st)"
  by (simp add: on_store_def get_eq)

lemma store_put:
  assumes "inv (w_store st)" "storable w"
  obtains s' where "on_store (ws_Put S w) st = (Inr (), st\<lparr>w_store := s'\<rparr>)" "inv s'"
    "lookup s' = (lookup (w_store st))(wl_name w \<mapsto> w)"
  using put_ok [OF assms] by (cases "ws_Put S w (w_store st)") (simp add: on_store_def)

lemma store_del:
  assumes "inv (w_store st)"
  obtains s' where "on_store (ws_Delete S k) st = (Inr (), st\<lparr>w_store := s'\<rparr>)" "inv s'"
    "lookup s' = (lookup (w_store st))(k := None)"
  using del_ok [OF assms, of k] by (cases "ws_Delete S k (w_store st)") (simp add: on_store_def)

lemma storable_upd:
  "inv s \<Longrightarrow> lookup s k = Some w \<Longrightarrow> wl_name w' = wl_name w \<Longrightarrow> storable w'"
  using lookup_storable storable_cong by blast

text \<open>The workload \<open>Apply\<close> writes is the request with the status of the existing row.\<close>

lemma Apply_ok:
  assumes "svc_store svc = S" "inv (w_store st)" "validate (Some w) = Inr v"
    and m: "m = w\<lparr>wl_status := (case lookup (w_store st) (wl_name w) of
      None \<Rightarrow> wl_status w | Some old \<Rightarrow> wl_status old)\<rparr>"
  obtains s' where "workload_Apply svc (Some w) st = (Inr m, notifyChange svc (st\<lparr>w_store := s'\<rparr>))"
    "inv s'" "lookup s' = (lookup (w_store st))(wl_name w \<mapsto> m)"
proof -
  have v: "v = w" "wl_name m \<noteq> []" "wl_name m = wl_name w"
    using validate_Inr [OF assms(3)] m by simp_all
  obtain s' where s': "on_store (ws_Put S m) st = (Inr (), st\<lparr>w_store := s'\<rparr>)" "inv s'"
    "lookup s' = (lookup (w_store st))(wl_name m \<mapsto> m)"
    using store_put [OF assms(2) storable_named [OF v(2)]] .
  have "workload_Apply svc (Some w) st = (Inr m, notifyChange svc (st\<lparr>w_store := s'\<rparr>))"
    using s'(1) v assms m by (auto simp: workload_Apply_def store_get split: option.splits)
  then show ?thesis using that s' v by simp
qed

lemma delete_marked_ok:
  assumes "svc_store svc = S" "inv (w_store st)"
  shows "inv (w_store (snd (delete_marked svc kind name st)))"
    and "w_rt (snd (delete_marked svc kind name st)) = w_rt (snd (remove_runtime svc (Inr ()) kind name st))"
    and "is_ok (fst (delete_marked svc kind name st)) = is_ok (fst (remove_runtime svc (Inr ()) kind name st))"
    and "lookup (w_store (snd (delete_marked svc kind name st))) =
       (if is_ok (fst (remove_runtime svc (Inr ()) kind name st))
        then (lookup (w_store st))(name := None) else lookup (w_store st))"
proof -
  obtain r st1 where rm: "remove_runtime svc (Inr ()) kind name st = (r, st1)" by fastforce
  then have same: "w_store st1 = w_store st" using remove_runtime_store(1) by (metis snd_conv)
  obtain s' where s': "on_store (ws_Delete S name) st1 = (Inr (), st1\<lparr>w_store := s'\<rparr>)" "inv s'"
    "lookup s' = (lookup (w_store st1))(name := None)"
    using store_del [of st1 name] assms(2) same by auto
  show "inv (w_store (snd (delete_marked svc kind name st)))"
    and "w_rt (snd (delete_marked svc kind name st)) = w_rt (snd (remove_runtime svc (Inr ()) kind name st))"
    and "is_ok (fst (delete_marked svc kind name st)) = is_ok (fst (remove_runtime svc (Inr ()) kind name st))"
    and "lookup (w_store (snd (delete_marked svc kind name st))) =
       (if is_ok (fst (remove_runtime svc (Inr ()) kind name st))
        then (lookup (w_store st))(name := None) else lookup (w_store st))"
    using assms s' same by (simp_all add: delete_marked_def rm split: sum.split)
qed

text \<open>\<open>Delete\<close> of an existing row tears the runtime down first. The row is gone if that
  succeeded, and is a tombstone if it failed.\<close>

lemma Delete_present:
  assumes "svc_store svc = S" "inv (w_store st)" "lookup (w_store st) name = Some w"
    and rm: "remove_runtime svc (Inr ()) (wl_kind w) name st = (r, rst)"
    and del: "workload_Delete svc name st = (res, st')"
  shows "inv (w_store st')" "w_rt st' = w_rt rst" "is_ok res = is_ok r"
    "lookup (w_store st') = (lookup (w_store st))(name := if is_ok r then None else Some (tombstone w))"
proof -
  have name: "wl_name w = name" using lookup_key assms(2,3) by blast
  obtain s1 where s1: "inv s1" "lookup s1 = (lookup (w_store st))(name \<mapsto> tombstone w)"
    and eq: "workload_Delete svc name st = delete_marked svc (wl_kind w) name (st\<lparr>w_store := s1\<rparr>)"
  proof (cases "wl_desired_state w = DESIRED_STATE_DELETING")
    case True
    have "workload_Delete svc name st = delete_marked svc (wl_kind w) name (st\<lparr>w_store := w_store st\<rparr>)"
      using assms True by (simp add: workload_Delete_def store_get)
    then show ?thesis
      using that [of "w_store st"] assms True by (simp add: tombstone_id map_upd_triv)
  next
    case False
    have "storable (tombstone w)" using storable_upd assms(2,3) by simp
    then obtain s1 where "on_store (ws_Put S (tombstone w)) st = (Inr (), st\<lparr>w_store := s1\<rparr>)" "inv s1"
      "lookup s1 = (lookup (w_store st))(wl_name (tombstone w) \<mapsto> tombstone w)"
      using store_put [OF assms(2)] by blast
    then show ?thesis
      using that [of s1] assms False name
      by (simp add: workload_Delete_def store_get tombstone_def)
  qed
  have rm': "remove_runtime svc (Inr ()) (wl_kind w) name (st\<lparr>w_store := s1\<rparr>) = (r, rst\<lparr>w_store := s1\<rparr>)"
    using rm by (simp add: remove_runtime_frame)
  show "inv (w_store st')" "w_rt st' = w_rt rst" "is_ok res = is_ok r"
    "lookup (w_store st') = (lookup (w_store st))(name := if is_ok r then None else Some (tombstone w))"
    using delete_marked_ok [OF assms(1), of "st\<lparr>w_store := s1\<rparr>" "wl_kind w" name] s1 rm' del eq
    by (simp_all split: if_splits)
qed

text \<open>A missing row: the container driver is asked to remove the name and the row
  stays absent.\<close>

lemma Delete_absent:
  assumes "svc_store svc = S" "inv (w_store st)" "lookup (w_store st) name = None"
  shows "inv (w_store (snd (workload_Delete svc name st)))"
    "lookup (w_store (snd (workload_Delete svc name st))) = lookup (w_store st)"
  using delete_marked_ok [OF assms(1,2), of WORKLOAD_KIND_UNSPECIFIED name] assms
  by (simp_all add: workload_Delete_def store_get fun_upd_idem)

lemma Stop_ok:
  assumes "svc_store svc = S" "inv (w_store st)" "lookup (w_store st) name = Some w"
  obtains s' where "inv s'"
    "lookup s' = (lookup (w_store st))(name \<mapsto> w\<lparr>wl_desired_state := DESIRED_STATE_STOPPED\<rparr>)"
    "workload_Stop svc name st = (Inr (), notifyChange svc
       ((snd (remove_runtime svc (Inr ()) (wl_kind w) name st))\<lparr>w_store := s'\<rparr>))"
proof -
  let ?w = "w\<lparr>wl_desired_state := DESIRED_STATE_STOPPED\<rparr>"
  have name: "wl_name w = name" using lookup_key assms(2,3) by blast
  have "storable ?w" using storable_upd assms(2,3) by simp
  then obtain s' where "on_store (ws_Put S ?w) st = (Inr (), st\<lparr>w_store := s'\<rparr>)" "inv s'"
    "lookup s' = (lookup (w_store st))(wl_name ?w \<mapsto> ?w)"
    using store_put [OF assms(2)] by blast
  then show ?thesis
    using that [of s'] assms name
    by (simp add: workload_Stop_def store_get remove_runtime_frame split: prod.splits)
qed

lemma Start_ok:
  assumes "svc_store svc = S" "inv (w_store st)" "lookup (w_store st) name = Some w"
  obtains s' where "inv s'"
    "lookup s' = (lookup (w_store st))(name \<mapsto>
       w\<lparr>wl_desired_state := DESIRED_STATE_RUNNING, wl_status := Some starting_status\<rparr>)"
    "workload_Start svc name st = (Inr (), notifyChange svc (st\<lparr>w_store := s'\<rparr>))"
proof -
  let ?w = "w\<lparr>wl_desired_state := DESIRED_STATE_RUNNING, wl_status := Some starting_status\<rparr>"
  have name: "wl_name w = name" using lookup_key assms(2,3) by blast
  have "storable ?w" using storable_upd assms(2,3) by simp
  then obtain s' where "on_store (ws_Put S ?w) st = (Inr (), st\<lparr>w_store := s'\<rparr>)" "inv s'"
    "lookup s' = (lookup (w_store st))(wl_name ?w \<mapsto> ?w)"
    using store_put [OF assms(2)] by blast
  then show ?thesis
    using that [of s'] assms name by (simp add: workload_Start_def store_get)
qed

lemma SetStatus_ok:
  assumes "svc_store svc = S" "inv (w_store st)" "lookup (w_store st) name = Some w"
  obtains s' where "inv s'" "lookup s' = (lookup (w_store st))(name \<mapsto> w\<lparr>wl_status := Some x\<rparr>)"
    "workload_SetStatus svc name x st = (Inr (), st\<lparr>w_store := s'\<rparr>)"
proof (cases "wl_status w = Some x")
  case True
  then have "w\<lparr>wl_status := Some x\<rparr> = w" by simp
  then show ?thesis
    using that [of "w_store st"] assms True
    by (simp add: workload_SetStatus_def store_get map_upd_triv)
next
  case False
  let ?w = "w\<lparr>wl_status := Some x\<rparr>"
  have name: "wl_name w = name" using lookup_key assms(2,3) by blast
  have "storable ?w" using storable_upd assms(2,3) by simp
  then obtain s' where "on_store (ws_Put S ?w) st = (Inr (), st\<lparr>w_store := s'\<rparr>)" "inv s'"
    "lookup s' = (lookup (w_store st))(wl_name ?w \<mapsto> ?w)"
    using store_put [OF assms(2)] by blast
  then show ?thesis
    using that [of s'] assms name False by (simp add: workload_SetStatus_def store_get)
qed

lemma SetStatus_absent:
  assumes "svc_store svc = S" "inv (w_store st)" "lookup (w_store st) name = None"
  shows "workload_SetStatus svc name x st = (Inl ErrNotFound, st)"
  using assms by (simp add: workload_SetStatus_def store_get)

end

section \<open>The contract holds of both stores\<close>

interpretation mem_backend: workload_backend mem_workload_if mem_inv "\<lambda>s. map_of (mem_workloads s)"
  "\<lambda>w. wl_name w \<noteq> []"
proof (intro workload_backend.intro workload_backend_axioms.intro, goal_cases)
  case 1
  then show ?case using mem_wl.keyed_store_axioms by (simp add: mem_workload_if_def)
qed (auto simp: mem_inv_def dest: gomap_ok_lookup)

lemma sqlite_backend:
  assumes "codec_ok marshal unmarshal"
  shows "workload_backend (sqlite_workloads marshal unmarshal now) (sqlite_wl_inv unmarshal)
    (\<lambda>db. rows_lookup (decoded unmarshal) (sq_workloads db)) (\<lambda>_. True)"
proof (intro workload_backend.intro workload_backend_axioms.intro, goal_cases)
  case 1
  then show ?case using sqlite_workload_keyed [OF assms] by (simp add: sqlite_workloads_def)
qed simp_all

section \<open>Properties of the service\<close>

text \<open>The specification part of a workload is complete for its kind: a container has
  an image, a microVM has an image or both a kernel and a root file system.\<close>

definition spec_complete :: "workload \<Rightarrow> bool" where
  "spec_complete w =
    (case wl_kind w of
       WORKLOAD_KIND_CONTAINER \<Rightarrow> (case wl_container w of None \<Rightarrow> False | Some c \<Rightarrow> cs_image c \<noteq> [])
     | WORKLOAD_KIND_MICRO_VM \<Rightarrow>
         (case wl_micro_vm w of None \<Rightarrow> False
          | Some m \<Rightarrow> ms_image m \<noteq> [] \<or> ms_kernel_path m \<noteq> [] \<and> ms_rootfs_path m \<noteq> [])
     | WORKLOAD_KIND_UNSPECIFIED \<Rightarrow> False)"

text \<open>validation accepts a workload exactly when its name is a DNS-1123 label of at
  most 63 characters (lower-case alphanumerics and dashes, no dash at either
  end) and its specification is complete for its kind.\<close>

theorem validate_accepts_iff:
  "is_ok (validate (Some w)) \<longleftrightarrow>
     dns1123_label (wl_name w) \<and> length (wl_name w) \<le> 63 \<and> spec_complete w"
proof -
  have "wl_name w = [] \<Longrightarrow> \<not> dns1123_label (wl_name w)" by (simp add: dns1123_label_def)
  then show ?thesis
    by (auto simp: validate_def nameRE_iff spec_complete_def
        split: workload_kind.split option.split)
qed

text \<open>The image of an example container workload, as the witnesses use it.\<close>

definition example_container :: container_spec where
  "example_container = \<lparr>cs_image = ''alpine'', cs_command = [], cs_args = [], cs_env = [], cs_mounts = [],
     cs_network_mode = NETWORK_MODE_HOST, cs_ports = [], cs_privileged = False, cs_host_pid = False,
     cs_host_mount = False, cs_host_ipc = False, cs_host_bind_paths = []\<rparr>"

definition example_workload :: workload where
  "example_workload = \<lparr>wl_name = ''web-1'', wl_kind = WORKLOAD_KIND_CONTAINER,
     wl_container = Some example_container, wl_micro_vm = None, wl_status = None,
     wl_desired_state = DESIRED_STATE_RUNNING\<rparr>"

text \<open>A backend that only tracks which names run, and the services over it that the
  witnesses run.\<close>

definition example_driver :: "string list container_driver" where
  "example_driver = \<lparr>cd_EnsureRunning = \<lambda>w r. (Inr (), if wl_name w \<in> set r then r else wl_name w # r),
     cd_Remove = \<lambda>n r. (Inr (), filter (\<lambda>k. k \<noteq> n) r),
     cd_Status = \<lambda>n r. (Inr \<lparr>rs_Phase = if n \<in> set r then PhaseRunning else PhaseUnknown,
       rs_Message = [], rs_RestartCount = 0\<rparr>, r),
     cd_LogPath = \<lambda>n. n, cd_Exec = \<lambda>_ r. (Inr 0, r)\<rparr>"

definition example_sqlite :: "(workload sqlite_db, string list) service" where
  "example_sqlite = \<lparr>svc_store = sqlite_workloads Inr Inr 100, svc_driver = Some example_driver,
     svc_vm = None, svc_onChange = True\<rparr>"

definition example_state :: "(workload sqlite_db, string list) wstate" where
  "example_state = \<lparr>w_store = sqlite_empty\<lparr>sq_workloads :=
       [(''web-1'', \<lparr>wr_spec = example_workload, wr_updated_at = 7\<rparr>)]\<rparr>,
     w_rt = [''web-1'', ''db''], w_wake = False\<rparr>"

lemma codec_ok_id: "codec_ok Inr Inr"
  by (simp add: codec_ok_def)

lemma example_ok:
  "sqlite_wl_inv Inr (w_store example_state)" "svc_store example_sqlite = sqlite_workloads Inr Inr 100"
  "fst (workload_Get example_sqlite ''web-1'' example_state) = Inr example_workload"
  by (simp_all add: sqlite_wl_inv_def sqlite_inv_def example_state_def sqlite_empty_def decodes_def
      example_workload_def example_sqlite_def workload_Get_def on_store_def sqlite_workloads_def
      sqlite_workload_Get_def)

lemma validate_example: "validate (Some example_workload) = Inr example_workload"
  by code_simp

definition sq_rows :: "('b \<Rightarrow> workload result) \<Rightarrow> ('b sqlite_db, 'r) wstate \<Rightarrow> string \<Rightarrow> workload option" where
  "sq_rows unmarshal st = rows_lookup (decoded unmarshal) (sq_workloads (w_store st))"

lemma sq_Get:
  assumes "codec_ok marshal unmarshal" "svc_store svc = sqlite_workloads marshal unmarshal now"
    "sqlite_wl_inv unmarshal (w_store st)"
  shows "workload_Get svc k st =
    ((case sq_rows unmarshal st k of None \<Rightarrow> Inl ErrNotFound | Some w \<Rightarrow> Inr w), st)"
  using workload_backend.store_get [OF sqlite_backend [OF assms(1)] assms(3)] assms(2)
  by (simp add: workload_Get_def sq_rows_def)

lemma sq_Get_iff:
  assumes "codec_ok marshal unmarshal" "svc_store svc = sqlite_workloads marshal unmarshal now"
    "sqlite_wl_inv unmarshal (w_store st)"
  shows "fst (workload_Get svc k st) = Inr w \<longleftrightarrow> sq_rows unmarshal st k = Some w"
  by (simp add: sq_Get [OF assms] split: option.splits)



text \<open>deleting a stored workload tears its runtime down before the row goes. If the
  driver reports success the row is gone; if it reports an error, the call
  returns an error and the row remains as a DELETING tombstone, so a retry can
  finish the job. No other row changes either way.\<close>

theorem Delete_removes_or_leaves_tombstone:
  assumes codec: "codec_ok marshal unmarshal"
    and svc: "svc_store svc = sqlite_workloads marshal unmarshal now"
    and inv: "sqlite_wl_inv unmarshal (w_store st)"
    and row: "fst (workload_Get svc name st) = Inr w"
    and rm: "remove_runtime svc (Inr ()) (wl_kind w) name st = (r, rst)"
    and del: "workload_Delete svc name st = (res, st')"
  shows "is_ok res = is_ok r \<and> w_rt st' = w_rt rst \<and>
    fst (workload_Get svc name st') =
      (if is_ok r then Inl ErrNotFound else Inr (w\<lparr>wl_desired_state := DESIRED_STATE_DELETING\<rparr>)) \<and>
    (\<forall>k. k = name \<or> fst (workload_Get svc k st') = fst (workload_Get svc k st)) \<and>
    sqlite_wl_inv unmarshal (w_store st')"
proof -
  have look: "rows_lookup (decoded unmarshal) (sq_workloads (w_store st)) name = Some w"
    using row sq_Get_iff [OF codec svc inv] by (simp add: sq_rows_def)
  note d = workload_backend.Delete_present [OF sqlite_backend [OF codec] svc inv look rm del]
  show ?thesis
    using d by (simp add: sq_Get [OF codec svc inv] sq_Get [OF codec svc d(1)] sq_rows_def tombstone_def)
qed

theorem Delete_removes_or_leaves_tombstone_witness:
  "fst (workload_Get example_sqlite ''web-1'' (snd (workload_Delete example_sqlite ''web-1'' example_state))) =
     Inl ErrNotFound \<and>
   w_rt (snd (workload_Delete example_sqlite ''web-1'' example_state)) = [''db'']"
proof -
  have "remove_runtime example_sqlite (Inr ()) (wl_kind example_workload) ''web-1'' example_state =
     (Inr (), example_state\<lparr>w_rt := [''db'']\<rparr>)"
    by (simp add: remove_runtime_def example_workload_def example_sqlite_def example_driver_def
        on_rt_def example_state_def)
  from Delete_removes_or_leaves_tombstone [OF codec_ok_id example_ok(2,1,3) this prod.collapse [symmetric]]
  show ?thesis by simp
qed

lemma sq_Stop:
  assumes codec: "codec_ok marshal unmarshal"
    and svc: "svc_store svc = sqlite_workloads marshal unmarshal now"
    and inv: "sqlite_wl_inv unmarshal (w_store st)"
    and row: "sq_rows unmarshal st name = Some w"
  shows "fst (workload_Stop svc name st) = Inr ()"
    "sqlite_wl_inv unmarshal (w_store (snd (workload_Stop svc name st)))"
    "sq_rows unmarshal (snd (workload_Stop svc name st)) =
       (sq_rows unmarshal st)(name \<mapsto> w\<lparr>wl_desired_state := DESIRED_STATE_STOPPED\<rparr>)"
    "w_rt (snd (workload_Stop svc name st)) = w_rt (snd (remove_runtime svc (Inr ()) (wl_kind w) name st))"
  using workload_backend.Stop_ok [OF sqlite_backend [OF codec] svc inv row [unfolded sq_rows_def]]
  by (force simp: sq_rows_def)+

lemma sq_Start:
  assumes codec: "codec_ok marshal unmarshal"
    and svc: "svc_store svc = sqlite_workloads marshal unmarshal now"
    and inv: "sqlite_wl_inv unmarshal (w_store st)"
    and row: "sq_rows unmarshal st name = Some w"
  shows "fst (workload_Start svc name st) = Inr ()"
    "sqlite_wl_inv unmarshal (w_store (snd (workload_Start svc name st)))"
    "sq_rows unmarshal (snd (workload_Start svc name st)) = (sq_rows unmarshal st)(name \<mapsto>
       w\<lparr>wl_desired_state := DESIRED_STATE_RUNNING, wl_status := Some starting_status\<rparr>)"
    "w_rt (snd (workload_Start svc name st)) = w_rt st"
  using workload_backend.Start_ok [OF sqlite_backend [OF codec] svc inv row [unfolded sq_rows_def]]
  by (force simp: sq_rows_def)+

text \<open>stopping a stored workload marks it STOPPED and tears its runtime down, a
  second stop changes no row further, and a start afterwards marks it RUNNING
  with a fresh pending status while leaving its specification as it was.\<close>

theorem Stop_Start_rows:
  assumes codec: "codec_ok marshal unmarshal"
    and svc: "svc_store svc = sqlite_workloads marshal unmarshal now"
    and inv: "sqlite_wl_inv unmarshal (w_store st)"
    and row: "fst (workload_Get svc name st) = Inr w"
  defines "stopped \<equiv> snd (workload_Stop svc name st)"
  shows "fst (workload_Stop svc name st) = Inr () \<and>
    fst (workload_Get svc name stopped) = Inr (w\<lparr>wl_desired_state := DESIRED_STATE_STOPPED\<rparr>) \<and>
    w_rt stopped = w_rt (snd (remove_runtime svc (Inr ()) (wl_kind w) name st)) \<and>
    (\<forall>k. fst (workload_Get svc k (snd (workload_Stop svc name stopped))) = fst (workload_Get svc k stopped)) \<and>
    fst (workload_Get svc name (snd (workload_Start svc name stopped))) =
      Inr (w\<lparr>wl_desired_state := DESIRED_STATE_RUNNING, wl_status := Some starting_status\<rparr>)"
proof -
  have r: "sq_rows unmarshal st name = Some w" using row sq_Get_iff [OF codec svc inv] by simp
  note a = sq_Stop [OF codec svc inv r, folded stopped_def]
  have r': "sq_rows unmarshal stopped name = Some (w\<lparr>wl_desired_state := DESIRED_STATE_STOPPED\<rparr>)"
    using a(3) by simp
  note b = sq_Stop [OF codec svc a(2) r'] and c = sq_Start [OF codec svc a(2) r']
  show ?thesis
    using a b c by (simp add: sq_Get [OF codec svc a(2)] sq_Get [OF codec svc b(2)] sq_Get [OF codec svc c(2)])
qed

theorem Stop_Start_rows_witness:
  "w_rt (snd (workload_Stop example_sqlite ''web-1'' example_state)) = [''db''] \<and>
   fst (workload_Get example_sqlite ''web-1'' (snd (workload_Stop example_sqlite ''web-1'' example_state))) =
     Inr (example_workload\<lparr>wl_desired_state := DESIRED_STATE_STOPPED\<rparr>)"
  using Stop_Start_rows [OF codec_ok_id example_ok(2,1,3)]
  by (simp add: remove_runtime_def example_workload_def example_sqlite_def example_driver_def
      on_rt_def example_state_def)

end
