(* ===== verification/Capsule_Reconciler.thy ===== *)
theory Capsule_Reconciler
  imports Capsule_Workload
begin

text \<open>
  The reconciler \<^verbatim>\<open>src/core/reconciler/reconciler.go\<close>: one pass over the workloads,
  and the loop that runs passes on a timer and on wake-ups, interleaved with
  the operations of the workload service. The loop is an inductive step relation in which a pass
  is split at the points where another goroutine can run: the listing, and each
  workload of the listed snapshot.
\<close>

section \<open>One pass\<close>

record ('s, 'r) reconciler =
  rc_service :: "('s, 'r) service"
  rc_driver :: "'r container_driver option"
  rc_vm :: "'r vm_driver option"

definition toProtoPhase :: "phase \<Rightarrow> workload_phase" where
  "toProtoPhase p =
    (case p of
       PhaseRunning \<Rightarrow> WORKLOAD_PHASE_RUNNING
     | PhasePending \<Rightarrow> WORKLOAD_PHASE_PENDING
     | PhaseStopped \<Rightarrow> WORKLOAD_PHASE_STOPPED
     | PhaseFailed \<Rightarrow> WORKLOAD_PHASE_FAILED
     | PhaseUnknown \<Rightarrow> WORKLOAD_PHASE_UNSPECIFIED)"

text \<open>An error of \<open>SetStatus\<close> is only logged.\<close>

definition writeStatus ::
  "('s, 'r) reconciler \<Rightarrow> string \<Rightarrow> workload_phase \<Rightarrow> string \<Rightarrow> ('s, 'r) wstate \<Rightarrow> ('s, 'r) wstate" where
  "writeStatus rc name phase msg st =
    snd (workload_SetStatus (rc_service rc) name
      \<lparr>st_phase = phase, st_message = msg, st_restart_count = 0\<rparr> st)"

text \<open>The common tail of the two running cases: bring the workload up, then record
  what the driver reports.\<close>

definition ensure_and_report ::
  "('s, 'r) reconciler \<Rightarrow> ('r, unit) action \<Rightarrow> ('r, rt_status) action \<Rightarrow> string \<Rightarrow>
   ('s, 'r) wstate \<Rightarrow> ('s, 'r) wstate" where
  "ensure_and_report rc ensure status name st =
    (case on_rt ensure st of
       (Inl e, st1) \<Rightarrow> writeStatus rc name WORKLOAD_PHASE_FAILED (error_text e) st1
     | (Inr _, st1) \<Rightarrow>
         (case on_rt status st1 of
            (Inl _, st2) \<Rightarrow> st2
          | (Inr s, st2) \<Rightarrow> writeStatus rc name (toProtoPhase (rs_Phase s)) (rs_Message s) st2))"

definition reconcileOne ::
  "('s, 'r) reconciler \<Rightarrow> workload \<Rightarrow> ('s, 'r) wstate \<Rightarrow> ('s, 'r) wstate" where
  "reconcileOne rc w st =
    (let name = wl_name w in
     if wl_desired_state w = DESIRED_STATE_DELETING then st
     else if wl_desired_state w = DESIRED_STATE_STOPPED
     then writeStatus rc name WORKLOAD_PHASE_STOPPED ''stopped by operator''
       (case wl_kind w of
          WORKLOAD_KIND_CONTAINER \<Rightarrow>
            (case rc_driver rc of None \<Rightarrow> st | Some d \<Rightarrow> snd (on_rt (cd_Remove d name) st))
        | WORKLOAD_KIND_MICRO_VM \<Rightarrow>
            (case rc_vm rc of None \<Rightarrow> st | Some vm \<Rightarrow> snd (on_rt (vd_Remove vm name) st))
        | WORKLOAD_KIND_UNSPECIFIED \<Rightarrow> st)
     else (case wl_kind w of
          WORKLOAD_KIND_CONTAINER \<Rightarrow>
            (case rc_driver rc of
               None \<Rightarrow> writeStatus rc name WORKLOAD_PHASE_FAILED ''no container runtime'' st
             | Some d \<Rightarrow> ensure_and_report rc (cd_EnsureRunning d w) (cd_Status d name) name st)
        | WORKLOAD_KIND_MICRO_VM \<Rightarrow>
            (case rc_vm rc of
               None \<Rightarrow> writeStatus rc name WORKLOAD_PHASE_FAILED ''no vm runtime'' st
             | Some vm \<Rightarrow> ensure_and_report rc (vd_EnsureRunning vm w) (vd_Status vm name) name st)
        | WORKLOAD_KIND_UNSPECIFIED \<Rightarrow>
            writeStatus rc name WORKLOAD_PHASE_FAILED ''unsupported kind'' st))"

definition Tick :: "('s, 'r) reconciler \<Rightarrow> ('s, 'r) wstate \<Rightarrow> ('s, 'r) wstate" where
  "Tick rc st =
    (case workload_List (rc_service rc) st of
       (Inl _, st1) \<Rightarrow> st1
     | (Inr ws, st1) \<Rightarrow> fold (reconcileOne rc) ws st1)"

section \<open>What a pass may change\<close>

text \<open>A workload without its status: the desired state an operator controls.\<close>

definition desired :: "workload \<Rightarrow> workload" where
  "desired w = w\<lparr>wl_status := None\<rparr>"

lemma desired_status [simp]: "desired (w\<lparr>wl_status := x\<rparr>) = desired w"
  by (simp add: desired_def)

definition same_desired :: "(string \<Rightarrow> workload option) \<Rightarrow> (string \<Rightarrow> workload option) \<Rightarrow> bool" where
  "same_desired f g \<longleftrightarrow> (\<forall>k. map_option desired (f k) = map_option desired (g k))"

lemma same_desired_refl [simp]: "same_desired f f"
  by (simp add: same_desired_def)

lemma same_desired_trans: "same_desired f g \<Longrightarrow> same_desired g h \<Longrightarrow> same_desired f h"
  by (simp add: same_desired_def)

section \<open>Convergence\<close>

text \<open>What the interfaces document of a driver, on the set of names that have a
  running instance: \<open>EnsureRunning\<close> leaves an instance of that name running when
  it succeeds, \<open>Remove\<close> leaves none when it succeeds, \<open>Status\<close> only observes,
  and no call affects another name.\<close>

definition driver_contract ::
  "(workload \<Rightarrow> ('r, unit) action) \<Rightarrow> (string \<Rightarrow> ('r, unit) action) \<Rightarrow> (string \<Rightarrow> ('r, rt_status) action) \<Rightarrow>
   ('r \<Rightarrow> string \<Rightarrow> bool) \<Rightarrow> bool" where
  "driver_contract ensure remove status running \<longleftrightarrow>
    (\<forall>w r k. k \<noteq> wl_name w \<longrightarrow> running (snd (ensure w r)) k = running r k) \<and>
    (\<forall>w r. is_ok (fst (ensure w r)) \<longrightarrow> running (snd (ensure w r)) (wl_name w)) \<and>
    (\<forall>n r k. k \<noteq> n \<longrightarrow> running (snd (remove n r)) k = running r k) \<and>
    (\<forall>n r. is_ok (fst (remove n r)) \<longrightarrow> \<not> running (snd (remove n r)) n) \<and>
    (\<forall>n r. running (snd (status n r)) = running r)"

definition drivers_ok :: "('s, 'r) reconciler \<Rightarrow> ('r \<Rightarrow> string \<Rightarrow> bool) \<Rightarrow> bool" where
  "drivers_ok rc running \<longleftrightarrow>
    (case rc_driver rc of None \<Rightarrow> True | Some d \<Rightarrow>
       driver_contract (cd_EnsureRunning d) (cd_Remove d) (cd_Status d) running) \<and>
    (case rc_vm rc of None \<Rightarrow> True | Some vm \<Rightarrow>
       driver_contract (vd_EnsureRunning vm) (vd_Remove vm) (vd_Status vm) running)"

definition reported_failed :: "workload option \<Rightarrow> bool" where
  "reported_failed row = (case row of None \<Rightarrow> False
     | Some w \<Rightarrow> (case wl_status w of None \<Rightarrow> False | Some s \<Rightarrow> st_phase s = WORKLOAD_PHASE_FAILED))"

lemma writeStatus_rt [simp]: "w_rt (writeStatus rc n p m st) = w_rt st"
  by (auto simp: writeStatus_def workload_SetStatus_def on_store_def split: prod.splits sum.splits)

lemma on_rt_rt [simp]: "w_rt (snd (on_rt f st)) = snd (f (w_rt st))" "fst (on_rt f st) = fst (f (w_rt st))"
  by (simp_all add: on_rt_def split: prod.splits)

lemma ensure_and_report_rt:
  "w_rt (ensure_and_report rc f g n st) =
     (if is_ok (fst (f (w_rt st))) then snd (g (snd (f (w_rt st)))) else snd (f (w_rt st)))"
  by (auto simp: ensure_and_report_def on_rt_def split: prod.splits sum.splits)

lemma reconcileOne_other:
  assumes "drivers_ok rc running" "k \<noteq> wl_name w"
  shows "running (w_rt (reconcileOne rc w st)) k = running (w_rt st) k"
  using assms
  by (auto simp: reconcileOne_def Let_def ensure_and_report_rt drivers_ok_def driver_contract_def
      split: workload_kind.splits option.splits)

lemma fold_reconcile_other:
  assumes "drivers_ok rc running" "k \<notin> wl_name ` set ws"
  shows "running (w_rt (fold (reconcileOne rc) ws st)) k = running (w_rt st) k"
  using assms(2) by (induction ws arbitrary: st) (auto simp: reconcileOne_other [OF assms(1)])

lemma reconcileOne_stopped:
  assumes "drivers_ok rc running" "wl_desired_state w = DESIRED_STATE_STOPPED"
    "(case wl_kind w of
        WORKLOAD_KIND_CONTAINER \<Rightarrow> \<exists>d. rc_driver rc = Some d \<and> (\<forall>r. is_ok (fst (cd_Remove d (wl_name w) r)))
      | WORKLOAD_KIND_MICRO_VM \<Rightarrow> \<exists>vm. rc_vm rc = Some vm \<and> (\<forall>r. is_ok (fst (vd_Remove vm (wl_name w) r)))
      | WORKLOAD_KIND_UNSPECIFIED \<Rightarrow> False)"
  shows "\<not> running (w_rt (reconcileOne rc w st)) (wl_name w)"
  using assms
  by (auto simp: reconcileOne_def Let_def drivers_ok_def driver_contract_def
      split: workload_kind.splits option.splits)

context workload_backend
begin

text \<open>The effect of one reconciliation on the store is at most a new status of the
  row with that name.\<close>

definition status_step ::
  "string \<Rightarrow> ('s, 'r) wstate \<Rightarrow> ('s, 'r) wstate \<Rightarrow> bool" where
  "status_step name st st' \<longleftrightarrow> inv (w_store st') \<and> w_wake st' = w_wake st \<and>
     same_desired (lookup (w_store st')) (lookup (w_store st)) \<and>
     (\<forall>k. k \<noteq> name \<longrightarrow> lookup (w_store st') k = lookup (w_store st) k)"

lemma status_step_rt:
  "inv (w_store st) \<Longrightarrow> w_store st' = w_store st \<Longrightarrow> w_wake st' = w_wake st \<Longrightarrow> status_step n st st'"
  by (simp add: status_step_def)

lemma status_step_trans:
  "status_step n st st' \<Longrightarrow> status_step n st' st'' \<Longrightarrow> status_step n st st''"
  by (auto simp: status_step_def intro: same_desired_trans)

lemma writeStatus_lookup:
  assumes "svc_store (rc_service rc) = S" "inv (w_store st)"
  shows "inv (w_store (writeStatus rc name p m st))"
    "lookup (w_store (writeStatus rc name p m st)) = (lookup (w_store st))(name :=
       map_option (\<lambda>w. w\<lparr>wl_status := Some \<lparr>st_phase = p, st_message = m, st_restart_count = 0\<rparr>\<rparr>)
         (lookup (w_store st) name))"
    "w_rt (writeStatus rc name p m st) = w_rt st" "w_wake (writeStatus rc name p m st) = w_wake st"
proof -
  let ?x = "\<lparr>st_phase = p, st_message = m, st_restart_count = 0\<rparr>"
  have "\<exists>s'. inv s' \<and> writeStatus rc name p m st = st\<lparr>w_store := s'\<rparr> \<and>
    lookup s' = (lookup (w_store st))(name := map_option (\<lambda>w. w\<lparr>wl_status := Some ?x\<rparr>) (lookup (w_store st) name))"
  proof (cases "lookup (w_store st) name")
    case None
    then show ?thesis
      using SetStatus_absent [OF assms None, of ?x] assms(2)
      by (intro exI [of _ "w_store st"]) (simp add: writeStatus_def fun_upd_idem)
  next
    case (Some w)
    obtain s' where "inv s'" "lookup s' = (lookup (w_store st))(name \<mapsto> w\<lparr>wl_status := Some ?x\<rparr>)"
      "workload_SetStatus (rc_service rc) name ?x st = (Inr (), st\<lparr>w_store := s'\<rparr>)"
      using SetStatus_ok [OF assms Some] by blast
    then show ?thesis using Some by (intro exI [of _ s']) (simp add: writeStatus_def)
  qed
  then show "inv (w_store (writeStatus rc name p m st))"
    "lookup (w_store (writeStatus rc name p m st)) = (lookup (w_store st))(name :=
       map_option (\<lambda>w. w\<lparr>wl_status := Some ?x\<rparr>) (lookup (w_store st) name))"
    "w_rt (writeStatus rc name p m st) = w_rt st" "w_wake (writeStatus rc name p m st) = w_wake st"
    by auto
qed

lemma writeStatus_step:
  "svc_store (rc_service rc) = S \<Longrightarrow> inv (w_store st) \<Longrightarrow> status_step name st (writeStatus rc name p m st)"
  by (auto simp: status_step_def writeStatus_lookup same_desired_def option.map_comp comp_def)

lemma on_rt_step:
  "inv (w_store st) \<Longrightarrow> on_rt f st = (r, st') \<Longrightarrow> status_step n st st'"
  by (rule status_step_rt) (auto simp: on_rt_def split: prod.splits)

lemma step_inv: "status_step n st st' \<Longrightarrow> inv (w_store st')"
  by (simp add: status_step_def)

lemma ensure_and_report_step:
  assumes "svc_store (rc_service rc) = S" "inv (w_store st)"
  shows "status_step name st (ensure_and_report rc f g name st)"
proof -
  obtain r st1 where 1: "on_rt f st = (r, st1)" by fastforce
  obtain q st2 where 2: "on_rt g st1 = (q, st2)" by fastforce
  have s1: "status_step name st st1" by (rule on_rt_step [OF assms(2) 1])
  have s2: "status_step name st1 st2" by (rule on_rt_step [OF step_inv [OF s1] 2])
  have "status_step name st1 (writeStatus rc name p m st1)" "status_step name st2 (writeStatus rc name p m st2)" for p m
    using writeStatus_step [OF assms(1)] step_inv [OF s1] step_inv [OF s2] by blast+
  then show ?thesis
    using s1 s2 by (auto simp: ensure_and_report_def 1 2 split: sum.split intro: status_step_trans)
qed

lemma reconcileOne_step:
  assumes "svc_store (rc_service rc) = S" "inv (w_store st)"
  shows "status_step (wl_name w) st (reconcileOne rc w st)"
proof -
  have rt: "status_step n st (snd (on_rt f st))" for f n
    using on_rt_step [OF assms(2), of f] by (metis prod.collapse)
  have rt_ws: "status_step n st (writeStatus rc n p m (snd (on_rt f st)))" for f n p m
    using status_step_trans [OF rt writeStatus_step [OF assms(1) step_inv [OF rt]]] .
  show ?thesis
    using writeStatus_step [OF assms] ensure_and_report_step [OF assms] rt_ws assms(2)
    by (auto simp: reconcileOne_def Let_def status_step_rt split: workload_kind.split option.split)
qed

lemma fold_reconcile:
  assumes "svc_store (rc_service rc) = S" "inv (w_store st)"
  shows "inv (w_store (fold (reconcileOne rc) ws st))"
    "w_wake (fold (reconcileOne rc) ws st) = w_wake st"
    "same_desired (lookup (w_store (fold (reconcileOne rc) ws st))) (lookup (w_store st))"
    "k \<notin> wl_name ` set ws \<Longrightarrow>
       lookup (w_store (fold (reconcileOne rc) ws st)) k = lookup (w_store st) k"
proof -
  have "inv (w_store (fold (reconcileOne rc) ws st)) \<and> w_wake (fold (reconcileOne rc) ws st) = w_wake st \<and>
    same_desired (lookup (w_store (fold (reconcileOne rc) ws st))) (lookup (w_store st)) \<and>
    (k \<notin> wl_name ` set ws \<longrightarrow> lookup (w_store (fold (reconcileOne rc) ws st)) k = lookup (w_store st) k)"
    using assms(2)
  proof (induction ws arbitrary: st)
    case (Cons w ws)
    have "status_step (wl_name w) st (reconcileOne rc w st)"
      by (rule reconcileOne_step [OF assms(1) Cons.prems])
    then show ?case
      using Cons.IH [of "reconcileOne rc w st"]
      by (auto simp: status_step_def intro: same_desired_trans)
  qed simp
  then show "inv (w_store (fold (reconcileOne rc) ws st))"
    "w_wake (fold (reconcileOne rc) ws st) = w_wake st"
    "same_desired (lookup (w_store (fold (reconcileOne rc) ws st))) (lookup (w_store st))"
    "k \<notin> wl_name ` set ws \<Longrightarrow>
       lookup (w_store (fold (reconcileOne rc) ws st)) k = lookup (w_store st) k"
    by blast+
qed

text \<open>A pass visits every row once: the listing splits around any stored workload,
  and no other visited workload has its name.\<close>

lemma Tick_split:
  assumes "svc_store (rc_service rc) = S" "inv (w_store st)" "lookup (w_store st) k = Some w"
  obtains us vs where "Tick rc st = fold (reconcileOne rc) vs (reconcileOne rc w (fold (reconcileOne rc) us st))"
    "k \<notin> wl_name ` set us" "k \<notin> wl_name ` set vs"
proof -
  obtain ws where ws: "ws_List S (w_store st) = (Inr ws, w_store st)" "set ws = ran (lookup (w_store st))"
    "sorted_wrt (\<lambda>a b. wl_name a < wl_name b) ws"
    using list_eq [OF assms(2)] by blast
  have "w \<in> set ws" using assms(3) ws(2) by (auto simp: ran_def)
  then obtain us vs where split: "ws = us @ w # vs" by (auto simp: in_set_conv_decomp)
  have "wl_name w = k" using lookup_key assms(2,3) by blast
  then have "k \<notin> wl_name ` set us" "k \<notin> wl_name ` set vs"
    using ws(3) split by (auto simp: sorted_wrt_append)
  moreover have "Tick rc st = fold (reconcileOne rc) ws st"
    using assms(1) ws(1) by (simp add: Tick_def workload_List_def on_store_def)
  ultimately show ?thesis using that split by simp
qed

lemma Tick_same_desired:
  assumes "svc_store (rc_service rc) = S" "inv (w_store st)"
  shows "inv (w_store (Tick rc st))" "w_wake (Tick rc st) = w_wake st"
    "same_desired (lookup (w_store (Tick rc st))) (lookup (w_store st))"
proof -
  obtain ws where "ws_List S (w_store st) = (Inr ws, w_store st)"
    using list_eq [OF assms(2)] by blast
  then have "Tick rc st = fold (reconcileOne rc) ws st"
    using assms(1) by (simp add: Tick_def workload_List_def on_store_def)
  then show "inv (w_store (Tick rc st))" "w_wake (Tick rc st) = w_wake st"
    "same_desired (lookup (w_store (Tick rc st))) (lookup (w_store st))"
    using fold_reconcile [OF assms] by simp_all
qed

lemma Tick_tombstone:
  assumes "svc_store (rc_service rc) = S" "inv (w_store st)" "lookup (w_store st) k = Some w"
    "wl_desired_state w = DESIRED_STATE_DELETING"
  shows "lookup (w_store (Tick rc st)) k = Some w"
proof -
  obtain us vs where uv: "Tick rc st = fold (reconcileOne rc) vs (reconcileOne rc w (fold (reconcileOne rc) us st))"
    "k \<notin> wl_name ` set us" "k \<notin> wl_name ` set vs"
    using Tick_split [OF assms(1-3)] .
  let ?u = "fold (reconcileOne rc) us st"
  have "reconcileOne rc w ?u = ?u" using assms(4) by (simp add: reconcileOne_def)
  then show ?thesis
    using uv assms fold_reconcile [OF assms(1)] by simp
qed

lemma writeStatus_failed:
  assumes "svc_store (rc_service rc) = S" "inv (w_store st)" "lookup (w_store st) name \<noteq> None"
  shows "reported_failed (lookup (w_store (writeStatus rc name WORKLOAD_PHASE_FAILED m st)) name)"
  using assms by (auto simp: writeStatus_lookup reported_failed_def)

lemma ensure_and_report_running:
  assumes "svc_store (rc_service rc) = S" "inv (w_store st)" "lookup (w_store st) (wl_name w) \<noteq> None"
    "driver_contract ens rem stat running"
  shows "running (w_rt (ensure_and_report rc (ens w) (stat (wl_name w)) (wl_name w) st)) (wl_name w) \<or>
    reported_failed (lookup (w_store (ensure_and_report rc (ens w) (stat (wl_name w)) (wl_name w) st)) (wl_name w))"
proof (cases "is_ok (fst (ens w (w_rt st)))")
  case True
  then show ?thesis using assms(4) by (simp add: ensure_and_report_rt driver_contract_def)
next
  case False
  then obtain e where e: "fst (ens w (w_rt st)) = Inl e" by (cases "fst (ens w (w_rt st))") auto
  obtain st1 where 1: "on_rt (ens w) st = (Inl e, st1)" "w_store st1 = w_store st"
    using e on_rt_store [of "ens w" st] on_rt_rt(2) [of "ens w" st] by (metis prod.collapse)
  then show ?thesis
    using writeStatus_failed [OF assms(1), of st1] assms(2,3) by (simp add: ensure_and_report_def)
qed

text \<open>After a pass, every workload that should run has a running instance or is
  reported failed.\<close>

lemma Tick_running:
  assumes "svc_store (rc_service rc) = S" "inv (w_store st)" "lookup (w_store st) k = Some w"
    "drivers_ok rc running"
    "wl_desired_state w \<in> {DESIRED_STATE_UNSPECIFIED, DESIRED_STATE_RUNNING}"
  shows "running (w_rt (Tick rc st)) k \<or> reported_failed (lookup (w_store (Tick rc st)) k)"
proof -
  obtain us vs where uv: "Tick rc st = fold (reconcileOne rc) vs (reconcileOne rc w (fold (reconcileOne rc) us st))"
    "k \<notin> wl_name ` set us" "k \<notin> wl_name ` set vs"
    using Tick_split [OF assms(1-3)] .
  let ?u = "fold (reconcileOne rc) us st"
  let ?o = "reconcileOne rc w ?u"
  have name: "wl_name w = k" using lookup_key assms(2,3) by blast
  have u: "inv (w_store ?u)" "lookup (w_store ?u) (wl_name w) = Some w"
    using fold_reconcile(1,4) [OF assms(1,2)] uv(2) assms(3) name by simp_all
  have "running (w_rt ?o) k \<or> reported_failed (lookup (w_store ?o) k)"
  proof (cases "wl_kind w")
    case WORKLOAD_KIND_UNSPECIFIED
    then show ?thesis
      using assms(5) writeStatus_failed [OF assms(1) u(1)] u(2) name by (auto simp: reconcileOne_def)
  next
    case WORKLOAD_KIND_CONTAINER
    show ?thesis
    proof (cases "rc_driver rc")
      case None
      then show ?thesis
        using assms(5) WORKLOAD_KIND_CONTAINER writeStatus_failed [OF assms(1) u(1)] u(2) name
        by (auto simp: reconcileOne_def)
    next
      case (Some x)
      then have "driver_contract (cd_EnsureRunning x) (cd_Remove x) (cd_Status x) running"
        using assms(4) by (simp add: drivers_ok_def)
      from ensure_and_report_running [OF assms(1) u(1) _ this, of w] show ?thesis
        using assms(5) WORKLOAD_KIND_CONTAINER Some u(2) name by (auto simp: reconcileOne_def)
    qed
  next
    case WORKLOAD_KIND_MICRO_VM
    show ?thesis
    proof (cases "rc_vm rc")
      case None
      then show ?thesis
        using assms(5) WORKLOAD_KIND_MICRO_VM writeStatus_failed [OF assms(1) u(1)] u(2) name
        by (auto simp: reconcileOne_def)
    next
      case (Some x)
      then have "driver_contract (vd_EnsureRunning x) (vd_Remove x) (vd_Status x) running"
        using assms(4) by (simp add: drivers_ok_def)
      from ensure_and_report_running [OF assms(1) u(1) _ this, of w] show ?thesis
        using assms(5) WORKLOAD_KIND_MICRO_VM Some u(2) name by (auto simp: reconcileOne_def)
    qed
  qed
  moreover have "inv (w_store ?o)"
    using reconcileOne_step [OF assms(1) u(1)] by (rule step_inv)
  ultimately show ?thesis
    using uv fold_reconcile_other [OF assms(4) uv(3)] fold_reconcile(4) [OF assms(1), of ?o] by simp
qed

lemma Tick_stopped:
  assumes "svc_store (rc_service rc) = S" "inv (w_store st)" "lookup (w_store st) k = Some w"
    "drivers_ok rc running" "wl_desired_state w = DESIRED_STATE_STOPPED"
    "(case wl_kind w of
        WORKLOAD_KIND_CONTAINER \<Rightarrow> \<exists>d. rc_driver rc = Some d \<and> (\<forall>r. is_ok (fst (cd_Remove d (wl_name w) r)))
      | WORKLOAD_KIND_MICRO_VM \<Rightarrow> \<exists>vm. rc_vm rc = Some vm \<and> (\<forall>r. is_ok (fst (vd_Remove vm (wl_name w) r)))
      | WORKLOAD_KIND_UNSPECIFIED \<Rightarrow> False)"
  shows "\<not> running (w_rt (Tick rc st)) k"
proof -
  obtain us vs where uv: "Tick rc st = fold (reconcileOne rc) vs (reconcileOne rc w (fold (reconcileOne rc) us st))"
    "k \<notin> wl_name ` set us" "k \<notin> wl_name ` set vs"
    using Tick_split [OF assms(1-3)] .
  have "wl_name w = k" using lookup_key assms(2,3) by blast
  then show ?thesis
    using uv fold_reconcile_other [OF assms(4) uv(3)] reconcileOne_stopped [OF assms(4-6)] by simp
qed

text \<open>A name with no row is not visited: a pass neither creates its row nor starts
  an instance of it.\<close>

lemma Tick_absent:
  assumes "svc_store (rc_service rc) = S" "inv (w_store st)" "lookup (w_store st) k = None"
    "drivers_ok rc running"
  shows "lookup (w_store (Tick rc st)) k = None"
    "running (w_rt (Tick rc st)) k = running (w_rt st) k"
proof -
  obtain ws where ws: "ws_List S (w_store st) = (Inr ws, w_store st)" "set ws = ran (lookup (w_store st))"
    using list_eq [OF assms(2)] by blast
  then have tick: "Tick rc st = fold (reconcileOne rc) ws st"
    using assms(1) by (simp add: Tick_def workload_List_def on_store_def)
  have k: "k \<notin> wl_name ` set ws"
    using ws(2) lookup_key [OF assms(2)] assms(3) by (auto simp: ran_def)
  show "lookup (w_store (Tick rc st)) k = None"
    using tick fold_reconcile(4) [OF assms(1,2) k] assms(3) by simp
  show "running (w_rt (Tick rc st)) k = running (w_rt st) k"
    using tick fold_reconcile_other [OF assms(4) k] by simp
qed

lemma Ticks_absent:
  assumes "svc_store (rc_service rc) = S" "inv (w_store st)" "lookup (w_store st) k = None"
    "drivers_ok rc running"
  shows "lookup (w_store ((Tick rc ^^ n) st)) k = None \<and>
    running (w_rt ((Tick rc ^^ n) st)) k = running (w_rt st) k \<and> inv (w_store ((Tick rc ^^ n) st))"
  using assms(2,3)
proof (induction n arbitrary: st)
  case (Suc n)
  have "lookup (w_store (Tick rc st)) k = None" "inv (w_store (Tick rc st))"
    using Tick_absent(1) [OF assms(1) Suc.prems assms(4)] Tick_same_desired(1) [OF assms(1) Suc.prems(1)]
    by simp_all
  then show ?case
    using Suc.IH [of "Tick rc st"] Tick_absent(2) [OF assms(1) Suc.prems assms(4)]
    by (simp add: funpow_swap1)
qed simp

end

section \<open>The loop, interleaved with the service\<close>

text \<open>A successful operation of the service that changes desired state.\<close>

inductive service_op :: "('s, 'r) service \<Rightarrow> ('s, 'r) wstate \<Rightarrow> ('s, 'r) wstate \<Rightarrow> bool" for svc where
  op_Apply: "workload_Apply svc ww st = (Inr w, st') \<Longrightarrow> service_op svc st st'"
| op_Delete: "workload_Delete svc name st = (Inr u, st') \<Longrightarrow> service_op svc st st'"
| op_Restart: "workload_Restart svc name st = (Inr u, st') \<Longrightarrow> service_op svc st st'"
| op_Stop: "workload_Stop svc name st = (Inr u, st') \<Longrightarrow> service_op svc st st'"
| op_Start: "workload_Start svc name st = (Inr u, st') \<Longrightarrow> service_op svc st st'"

text \<open>The reconciler goroutine is waiting in its \<open>select\<close>, or inside a pass with
  the workloads of its snapshot still to visit. The third component of a system
  state records whether desired state changed since the last listing.\<close>

datatype loop_pc = Waiting | Visiting "workload list"

type_synonym ('s, 'r) system = "('s, 'r) wstate \<times> loop_pc \<times> bool"

inductive loop_step :: "('s, 'r) reconciler \<Rightarrow> ('s, 'r) system \<Rightarrow> ('s, 'r) system \<Rightarrow> bool" for rc where
  timer: "workload_List (rc_service rc) st = (Inr ws, st') \<Longrightarrow>
    loop_step rc (st, Waiting, dirty) (st', Visiting ws, False)"
| wake: "w_wake st \<Longrightarrow> workload_List (rc_service rc) (st\<lparr>w_wake := False\<rparr>) = (Inr ws, st') \<Longrightarrow>
    loop_step rc (st, Waiting, dirty) (st', Visiting ws, False)"
| visit: "loop_step rc (st, Visiting (w # ws), dirty) (reconcileOne rc w st, Visiting ws, dirty)"
| finish: "loop_step rc (st, Visiting [], dirty) (st, Waiting, dirty)"
| operate: "service_op (rc_service rc) st st' \<Longrightarrow> loop_step rc (st, pc, dirty) (st', pc, True)"

inductive loop_reach :: "('s, 'r) reconciler \<Rightarrow> ('s, 'r) system \<Rightarrow> ('s, 'r) system \<Rightarrow> bool" for rc where
  reach_refl: "loop_reach rc x x"
| reach_step: "loop_reach rc x y \<Longrightarrow> loop_step rc y z \<Longrightarrow> loop_reach rc x z"

inductive_cases loop_stepE: "loop_step rc x y"

lemma on_store_wake [simp]: "w_wake (snd (on_store f st)) = w_wake st"
  by (simp add: on_store_def split: prod.splits)

lemma on_rt_wake [simp]: "w_wake (snd (on_rt f st)) = w_wake st"
  by (simp add: on_rt_def split: prod.splits)

lemma writeStatus_wake [simp]: "w_wake (writeStatus rc n p m st) = w_wake st"
  by (auto simp: writeStatus_def workload_SetStatus_def on_store_def split: prod.splits sum.splits)

lemma ensure_and_report_wake [simp]: "w_wake (ensure_and_report rc f g n st) = w_wake st"
  by (auto simp: ensure_and_report_def on_rt_def split: prod.splits sum.splits)

lemma reconcileOne_wake [simp]: "w_wake (reconcileOne rc w st) = w_wake st"
  by (auto simp: reconcileOne_def Let_def split: workload_kind.split option.split)

lemma service_op_wake: "service_op svc st st' \<Longrightarrow> svc_onChange svc \<Longrightarrow> w_wake st'"
  by (induction rule: service_op.induct)
    (auto simp: workload_Apply_def workload_Delete_def delete_marked_def workload_Restart_def
      workload_Stop_def workload_Start_def Let_def
      split: prod.splits sum.splits if_splits)

lemma loop_step_wake:
  assumes "loop_step rc x y" "svc_onChange (rc_service rc)" "snd (snd x) \<longrightarrow> w_wake (fst x)"
  shows "snd (snd y) \<longrightarrow> w_wake (fst y)"
  using assms by (induction rule: loop_step.induct) (auto dest: service_op_wake)

section \<open>Properties of the reconciler\<close>

text \<open>a reconciliation pass over the sqlite-backed service changes nothing but
  statuses. Every row keeps its specification and desired state, no row appears
  or disappears, and a row marked DELETING is left exactly as it is.\<close>

theorem Tick_only_writes_status:
  assumes codec: "codec_ok marshal unmarshal"
    and svc: "svc_store (rc_service rc) = sqlite_workloads marshal unmarshal now"
    and inv: "sqlite_wl_inv unmarshal (w_store st)"
  shows "same_desired (sq_rows unmarshal (Tick rc st)) (sq_rows unmarshal st) \<and>
    (\<forall>k w. sq_rows unmarshal st k \<noteq> Some w \<or> wl_desired_state w \<noteq> DESIRED_STATE_DELETING \<or>
       sq_rows unmarshal (Tick rc st) k = Some w) \<and>
    sqlite_wl_inv unmarshal (w_store (Tick rc st))"
  using workload_backend.Tick_same_desired [OF sqlite_backend [OF codec] svc inv]
    workload_backend.Tick_tombstone [OF sqlite_backend [OF codec] svc inv]
  by (auto simp: sq_rows_def)

definition example_reconciler :: "(workload sqlite_db, string list) reconciler" where
  "example_reconciler = \<lparr>rc_service = example_sqlite, rc_driver = Some example_driver, rc_vm = None\<rparr>"

lemma example_drivers_ok: "drivers_ok example_reconciler (\<lambda>r n. n \<in> set r)"
  by (auto simp: drivers_ok_def example_reconciler_def driver_contract_def example_driver_def)

lemma example_rows: "sq_rows Inr example_state ''web-1'' = Some example_workload"
  by (simp add: sq_rows_def example_state_def sqlite_empty_def rows_lookup_def decoded_def)

lemma example_rc: "svc_store (rc_service example_reconciler) = sqlite_workloads Inr Inr 100"
  by (simp add: example_reconciler_def example_sqlite_def)

theorem Tick_only_writes_status_witness:
  "same_desired (sq_rows Inr (Tick example_reconciler example_state)) (sq_rows Inr example_state)"
  using Tick_only_writes_status [OF codec_ok_id example_rc example_ok(1)] by simp





lemma remove_runtime_stops:
  assumes "drivers_ok rc running" "rc_driver rc = svc_driver svc" "rc_vm rc = svc_vm svc"
    "svc_driver svc \<noteq> None" "svc_vm svc \<noteq> None"
    "remove_runtime svc absent kind name st = (r, st')" "is_ok r"
  shows "\<not> running (w_rt st') name"
  using assms
  by (auto simp: remove_runtime_def drivers_ok_def driver_contract_def on_rt_def
      split: workload_kind.splits option.splits prod.splits) (metis fst_conv snd_conv is_ok_simps)+

text \<open>once a delete has returned successfully, passes that start afterwards never
  bring the workload back: after any number of them its row is absent and no
  instance of it runs.\<close>

theorem Delete_then_Ticks:
  assumes codec: "codec_ok marshal unmarshal"
    and svc: "svc_store (rc_service rc) = sqlite_workloads marshal unmarshal now"
    and inv: "sqlite_wl_inv unmarshal (w_store st)"
    and row: "sq_rows unmarshal st name = Some w"
    and drivers: "drivers_ok rc running" "rc_driver rc = svc_driver (rc_service rc)"
      "rc_vm rc = svc_vm (rc_service rc)" "rc_driver rc \<noteq> None" "rc_vm rc \<noteq> None"
    and del: "workload_Delete (rc_service rc) name st = (Inr u, st')"
  shows "sq_rows unmarshal ((Tick rc ^^ n) st') name = None \<and> \<not> running (w_rt ((Tick rc ^^ n) st')) name"
proof -
  obtain r rst where rm: "remove_runtime (rc_service rc) (Inr ()) (wl_kind w) name st = (r, rst)" by fastforce
  note d = workload_backend.Delete_present [OF sqlite_backend [OF codec] svc inv row [unfolded sq_rows_def] rm del]
  have "is_ok r" using d(3) by simp
  then have "\<not> running (w_rt st') name"
    using remove_runtime_stops [OF drivers(1-3) _ _ rm] drivers d(2) by simp
  moreover have "rows_lookup (decoded unmarshal) (sq_workloads (w_store st')) name = None"
    using d(4) \<open>is_ok r\<close> by simp
  ultimately show ?thesis
    using workload_backend.Ticks_absent [OF sqlite_backend [OF codec] svc d(1) _ drivers(1), of name n]
    by (simp add: sq_rows_def)
qed

definition example_vm :: "string list vm_driver" where
  "example_vm = \<lparr>vd_EnsureRunning = cd_EnsureRunning example_driver, vd_Remove = cd_Remove example_driver,
     vd_Status = cd_Status example_driver, vd_Logs = \<lambda>_ _ _ r. (Inr [], r),
     vd_SerialLogs = \<lambda>_ _ r. (Inr [], r), vd_Exec = \<lambda>_ r. (Inr 0, r)\<rparr>"

definition example_full :: "(workload sqlite_db, string list) reconciler" where
  "example_full = \<lparr>rc_service = example_sqlite\<lparr>svc_vm := Some example_vm\<rparr>,
     rc_driver = Some example_driver, rc_vm = Some example_vm\<rparr>"

theorem Delete_then_Ticks_witness:
  "''web-1'' \<notin> set (w_rt ((Tick example_full ^^ 3) (snd (workload_Delete (rc_service example_full) ''web-1'' example_state))))"
proof -
  have drv: "drivers_ok example_full (\<lambda>r n. n \<in> set r)"
    by (auto simp: drivers_ok_def example_full_def driver_contract_def example_driver_def example_vm_def)
  have del: "workload_Delete (rc_service example_full) ''web-1'' example_state =
      (Inr (), snd (workload_Delete (rc_service example_full) ''web-1'' example_state))"
    by code_simp
  have "svc_store (rc_service example_full) = sqlite_workloads Inr Inr 100"
    "rc_driver example_full = svc_driver (rc_service example_full)"
    "rc_vm example_full = svc_vm (rc_service example_full)"
    "rc_driver example_full \<noteq> None" "rc_vm example_full \<noteq> None"
    by (simp_all add: example_full_def example_sqlite_def)
  with Delete_then_Ticks [OF codec_ok_id _ example_ok(1) example_rows drv _ _ _ _ del, of 100 3]
  show ?thesis by blast
qed


end
