(* ===== verification/Capsule_Machine.thy ===== *)
theory Capsule_Machine
  imports Capsule_Prelude
begin

text \<open>
  The machine below the services, as far as several components use it: commands with
  their outcome, block devices, files, mounts and the kernel's views under
  \<^verbatim>\<open>/sys\<close> and \<^verbatim>\<open>/proc\<close>. All of it is external: the components take a record of
  operations on an arbitrary machine state.
\<close>

section \<open>Commands\<close>

text \<open>The outcome of a command: success with its output, a non-zero exit with code and output,
  or a program that could not be started, with the error's text.\<close>

datatype exec_outcome = ExecOk string | ExecExit int string | ExecFail string

text \<open>The block size ioctl: the device cannot be opened, the ioctl fails, or a size.\<close>

datatype blk_outcome = BlkNoDevice | BlkIoctlError | BlkSize "64 word"

record 'l machine_ops =
  mo_exec :: "string \<Rightarrow> string list \<Rightarrow> 'l \<Rightarrow> exec_outcome \<times> 'l"
  mo_blk :: "string \<Rightarrow> 'l \<Rightarrow> blk_outcome"

text \<open>The error of a failed command: \<open>exit status n\<close> or the start error.\<close>

definition exec_error :: "exec_outcome \<Rightarrow> go_error option" where
  "exec_error oc = (case oc of
     ExecOk _ \<Rightarrow> None
   | ExecExit n _ \<Rightarrow> Some (Errorf ''exit status'')
   | ExecFail t \<Rightarrow> Some (Errorf t))"

definition exec_output :: "exec_outcome \<Rightarrow> string" where
  "exec_output oc = (case oc of ExecOk s \<Rightarrow> s | ExecExit n s \<Rightarrow> s | ExecFail t \<Rightarrow> [])"

section \<open>Paths\<close>

text \<open>\<open>filepath.Base\<close> and \<open>filepath.Dir\<close> of a clean path.\<close>

definition path_base :: "string \<Rightarrow> string" where
  "path_base p = (let b = last (split_on CHR ''/'' p) in if p = [] then ''.'' else if b = [] then ''/'' else b)"

definition path_dir :: "string \<Rightarrow> string" where
  "path_dir p = (let d = join_with CHR ''/'' (butlast (split_on CHR ''/'' p)) in
     if d = [] then (if has_prefix p ''/'' then ''/'' else ''.'') else d)"

lemma path_base_file: "CHR ''/'' \<notin> set b \<Longrightarrow> b \<noteq> [] \<Longrightarrow> path_base (d @ CHR ''/'' # b) = b"
proof -
  assume b: "CHR ''/'' \<notin> set b" "b \<noteq> []"
  have "last (split_on CHR ''/'' (d @ CHR ''/'' # b)) = b"
    by (simp add: split_on_sep split_on_plain [OF b(1)])
  then show ?thesis using b by (simp add: path_base_def)
qed

text \<open>\<open>filepath.Join\<close> of rooted elements: joined with slashes and cleaned.\<close>

definition clean_step :: "string list \<Rightarrow> string \<Rightarrow> string list" where
  "clean_step acc c = (if c = [] \<or> c = ''.'' then acc else if c = ''..'' then butlast acc else acc @ [c])"

definition path_join :: "string list \<Rightarrow> string" where
  "path_join parts = CHR ''/'' # join_with CHR ''/'' (foldl clean_step [] (concat (map (split_on CHR ''/'') parts)))"

section \<open>The kernel's view\<close>

type_synonym device = "8 word list"

text \<open>
  What is read of \<^verbatim>\<open>/proc/cmdline\<close> and \<^verbatim>\<open>/proc/mounts\<close>; the entries of
  \<^verbatim>\<open>/sys/class/block\<close> in the order of the listing, for each name its \<open>partition\<close> file, the target
  of its symbolic link and its \<open>removable\<close> and \<open>size\<close> files; the bytes of device nodes; the entries of
  \<^verbatim>\<open>/sys/class/net\<close> and their \<open>address\<close> files.
\<close>

record sysfs =
  sy_cmdline :: "string result"
  sy_mounts :: "string result"
  sy_blocks :: "string list result"
  sy_partition :: "string \<Rightarrow> string option"
  sy_target :: "string \<Rightarrow> string option"
  sy_removable :: "string \<Rightarrow> string option"
  sy_size :: "string \<Rightarrow> string option"
  sy_dev :: "string \<Rightarrow> device result"
  sy_nets :: "string list result"
  sy_address :: "string \<Rightarrow> string option"

definition os_ErrNotExist :: go_error where "os_ErrNotExist = Sentinel ''file does not exist''"

definition os_ErrExist :: go_error where "os_ErrExist = Sentinel ''file already exists''"

definition unix_EBUSY :: go_error where "unix_EBUSY = Sentinel ''device or resource busy''"

text \<open>
  How the operating system answers for one device: opening, seeking and syncing may fail, a read or
  a write at an offset may fail after some bytes. Past its end a device reads as end of file and
  takes no bytes.
\<close>

record dev_io =
  dv_open :: "go_error option"
  dv_seek :: "go_error option"
  dv_sync :: "go_error option"
  dv_read :: "nat \<Rightarrow> (nat \<times> go_error) option"
  dv_write :: "nat \<Rightarrow> (nat \<times> go_error) option"

section \<open>Operations of the host\<close>

record mount_spec =
  ms_source :: string
  ms_target :: string
  ms_fstype :: string
  ms_flags :: "string list"
  ms_data :: string
  ms_required :: bool

text \<open>
  The operations of the host: commands and block sizes of \<^typ>\<open>'w machine_ops\<close>, and the calls
  of the standard library on files, mounts, the host name and the random source. Polling for
  a path is one question: does it appear before the deadline. \<open>ho_settle\<close> is the state
  after waiting for a network interface. \<open>ho_io\<close> says how a device answers, \<open>ho_set\<close> replaces its bytes.
\<close>

record 'w host_ops = "'w machine_ops" +
  ho_sys :: "'w \<Rightarrow> sysfs"
  ho_read :: "string \<Rightarrow> 'w \<Rightarrow> string result"
  ho_write :: "string \<Rightarrow> string \<Rightarrow> ('w, unit) action"
  ho_mkdir :: "string \<Rightarrow> ('w, unit) action"
  ho_remove :: "string \<Rightarrow> ('w, unit) action"
  ho_rename :: "string \<Rightarrow> string \<Rightarrow> ('w, unit) action"
  ho_symlink :: "string \<Rightarrow> string \<Rightarrow> ('w, unit) action"
  ho_stat :: "string \<Rightarrow> 'w \<Rightarrow> go_error option"
  ho_appears :: "string \<Rightarrow> 'w \<Rightarrow> bool"
  ho_mount :: "mount_spec \<Rightarrow> ('w, unit) action"
  ho_sethostname :: "string \<Rightarrow> ('w, unit) action"
  ho_settle :: "'w \<Rightarrow> 'w"
  ho_io :: "string \<Rightarrow> 'w \<Rightarrow> dev_io"
  ho_set :: "string \<Rightarrow> device \<Rightarrow> 'w \<Rightarrow> 'w"
  ho_rand :: "nat \<Rightarrow> ('w, 8 word list) action"

text \<open>A command whose error is returned, and calls whose errors are dropped.\<close>

definition mo_exec_action :: "'w host_ops \<Rightarrow> string \<Rightarrow> string list \<Rightarrow> ('w, unit) action" where
  "mo_exec_action H bin args w =
    (case mo_exec H bin args w of (oc, w1) \<Rightarrow>
      (case exec_error oc of None \<Rightarrow> (Inr (), w1) | Some e \<Rightarrow> (Inl e, w1)))"

definition run_ignored :: "'w host_ops \<Rightarrow> string \<Rightarrow> string list \<Rightarrow> ('w, unit) action" where
  "run_ignored H bin args w = (Inr (), snd (mo_exec H bin args w))"

definition mkdir_ignored :: "'w host_ops \<Rightarrow> string \<Rightarrow> ('w, unit) action" where
  "mkdir_ignored H d w = (Inr (), snd (ho_mkdir H d w))"

definition keeps_exec :: "('w \<Rightarrow> bool) \<Rightarrow> 'w host_ops \<Rightarrow> string \<Rightarrow> string list \<Rightarrow> bool" where
  "keeps_exec P H bin args \<longleftrightarrow> (\<forall>w. P w \<longrightarrow> P (snd (mo_exec H bin args w)))"

end
