(* ===== verification/Capsule_Container.thy ===== *)
theory Capsule_Container
  imports Capsule_Reconciler Capsule_Machine
begin

text \<open>
  The containerd driver \<^verbatim>\<open>src/runtime/container\<close>. The containerd client, the CNI library and
  the system tools are external: the driver takes a record of their operations on
  the state \<open>'w\<close> of the machine. The driver's own state is the cached outcome of the
  CNI initialisation. Handles of containers and tasks are represented by
  the container's name, which is what the client looks them up by.
\<close>

section \<open>Port mappings\<close>

text \<open>The ports are \<open>int32\<close> in go-cni, converted from \<open>uint32\<close>: the same word, read as signed.\<close>

record cni_port =
  cp_HostPort :: "32 word"
  cp_ContainerPort :: "32 word"
  cp_Protocol :: string

definition gocniPortMappings :: "port_mapping list \<Rightarrow> cni_port list" where
  "gocniPortMappings ports = map (\<lambda>p.
     let proto = map to_lower (pm_protocol p)
     in \<lparr>cp_HostPort = pm_host_port p, cp_ContainerPort = pm_container_port p,
         cp_Protocol = (if proto = [] then ''tcp'' else proto)\<rparr>) ports"

text \<open>The namespace options: at most one, the port map capability.\<close>

definition portMapNSOpts :: "cni_port list \<Rightarrow> cni_port list list" where
  "portMapNSOpts m = (if m = [] then [] else [m])"

definition encode_port :: "cni_port \<Rightarrow> string" where
  "encode_port p = itoa_int (sint (cp_HostPort p)) @ '':'' @ itoa_int (sint (cp_ContainerPort p)) @ ''/'' @ cp_Protocol p"

definition encodePortMappings :: "port_mapping list \<Rightarrow> string" where
  "encodePortMappings ports =
    (let m = gocniPortMappings ports in if m = [] then [] else join_with CHR '','' (map encode_port m))"

definition decode_port :: "string \<Rightarrow> cni_port option" where
  "decode_port e =
    (case str_cut CHR ''/'' e of (hostCtr, proto, ok) \<Rightarrow>
       if \<not> ok then None
       else (case str_cut CHR '':'' hostCtr of (hp, cp, ok1) \<Rightarrow>
         if \<not> ok1 then None
         else (case (atoi hp, atoi cp) of
            (Some h, Some c) \<Rightarrow>
              Some \<lparr>cp_HostPort = word_of_int h, cp_ContainerPort = word_of_int c, cp_Protocol = proto\<rparr>
          | _ \<Rightarrow> None)))"

definition decodePortMappings :: "string \<Rightarrow> cni_port list" where
  "decodePortMappings s0 =
    (let s = trim_space s0 in if s = [] then [] else List.map_filter decode_port (split_on CHR '','' s))"

section \<open>Process, environment and mounts of a container\<close>

definition processArgs :: "container_spec \<Rightarrow> string list" where
  "processArgs spec = (if cs_command spec \<noteq> [] then cs_command spec @ cs_args spec else cs_args spec)"

definition env_entry :: "string \<times> string \<Rightarrow> string" where
  "env_entry kv = fst kv @ ''='' @ snd kv"

definition envSlice :: "container_spec \<Rightarrow> string list" where
  "envSlice spec = map env_entry (cs_env spec)"

text \<open>The key of an entry, when it has a non-empty one.\<close>

definition entry_key :: "string \<Rightarrow> string option" where
  "entry_key e = (case str_cut CHR ''='' e of (k, _, ok) \<Rightarrow> if ok \<and> k \<noteq> [] then Some k else None)"

definition merge_entry :: "(string \<times> string) list \<Rightarrow> string \<Rightarrow> string" where
  "merge_entry extra e =
    (case entry_key e of
       None \<Rightarrow> e
     | Some k \<Rightarrow> (case map_of extra k of None \<Rightarrow> e | Some v \<Rightarrow> env_entry (k, v)))"

definition mergeEnv :: "string list \<Rightarrow> (string \<times> string) list \<Rightarrow> string list" where
  "mergeEnv base extra =
    map (merge_entry extra) base @
    map env_entry (filter (\<lambda>(k, v). Some k \<notin> set (map entry_key base)) extra)"

record oci_mount =
  om_Type :: string
  om_Source :: string
  om_Destination :: string
  om_Options :: "string list"

definition hostBindMounts :: "string list \<Rightarrow> oci_mount list" where
  "hostBindMounts paths =
    map (\<lambda>p. \<lparr>om_Type = ''bind'', om_Source = p, om_Destination = p, om_Options = [''rbind'', ''rw'']\<rparr>)
      (filter (\<lambda>p. \<not> (p = [] \<or> \<not> has_prefix p ''/'')) paths)"

definition bind_mount :: "(string \<times> string) list \<Rightarrow> volume_mount \<Rightarrow> oci_mount option" where
  "bind_mount mounted m =
    (case map_of mounted (vm_volume_name m) of
       None \<Rightarrow> None
     | Some src \<Rightarrow>
        if vm_mount_path m = [] then None
        else Some \<lparr>om_Type = ''bind'', om_Source = src, om_Destination = vm_mount_path m,
          om_Options = [''rbind'', if vm_read_only m then ''ro'' else ''rw'']\<rparr>)"

definition bindMounts :: "container_spec \<Rightarrow> (string \<times> string) list \<Rightarrow> oci_mount list" where
  "bindMounts spec mounted = List.map_filter (bind_mount mounted) (cs_mounts spec)"

section \<open>The specification of a container\<close>

datatype linux_namespace = NetworkNamespace | PIDNamespace | MountNamespace | IPCNamespace

datatype spec_opt =
    WithImageConfig string
  | WithProcessArgs "string list"
  | WithEnv "string list"
  | WithMounts "oci_mount list"
  | WithHostNamespace linux_namespace
  | WithHostHostsFile
  | WithHostResolvconf
  | WithPrivileged
  | WithAllDevicesAllowed
  | WithHostDevices

definition network_opts :: "network_mode \<Rightarrow> spec_opt list" where
  "network_opts m =
    (case m of
       NETWORK_MODE_HOST \<Rightarrow> [WithHostNamespace NetworkNamespace, WithHostHostsFile, WithHostResolvconf]
     | NETWORK_MODE_BRIDGE \<Rightarrow> [WithHostHostsFile, WithHostResolvconf]
     | NETWORK_MODE_UNSPECIFIED \<Rightarrow> [])"

definition build_spec_opts :: "string \<Rightarrow> container_spec \<Rightarrow> (string \<times> string) list \<Rightarrow> spec_opt list" where
  "build_spec_opts img spec mounted =
    [WithImageConfig img] @
    (if processArgs spec \<noteq> [] then [WithProcessArgs (processArgs spec)] else []) @
    (if envSlice spec \<noteq> [] then [WithEnv (envSlice spec)] else []) @
    (if bindMounts spec mounted \<noteq> [] then [WithMounts (bindMounts spec mounted)] else []) @
    network_opts (cs_network_mode spec) @
    (if cs_privileged spec then [WithPrivileged, WithAllDevicesAllowed, WithHostDevices] else []) @
    (if cs_host_pid spec then [WithHostNamespace PIDNamespace] else []) @
    (if cs_host_mount spec then [WithHostNamespace MountNamespace] else []) @
    (if cs_host_ipc spec then [WithHostNamespace IPCNamespace] else []) @
    (if hostBindMounts (cs_host_bind_paths spec) \<noteq> [] then [WithMounts (hostBindMounts (cs_host_bind_paths spec))] else [])"

definition networkModeLabel :: "network_mode \<Rightarrow> string" where
  "networkModeLabel m =
    (case m of NETWORK_MODE_HOST \<Rightarrow> ''host'' | NETWORK_MODE_BRIDGE \<Rightarrow> ''bridge'' | NETWORK_MODE_UNSPECIFIED \<Rightarrow> ''none'')"

definition BridgeLabel :: string where "BridgeLabel = ''capsule.network/mode''"
definition SpecHashLabel :: string where "SpecHashLabel = ''capsule.spec/hash''"
definition PortMapLabel :: string where "PortMapLabel = ''capsule.network/portmap''"

record new_container =
  nc_image :: string
  nc_snapshot :: string
  nc_spec :: "spec_opt list"
  nc_labels :: "(string \<times> string) list"

definition container_opts :: "string \<Rightarrow> string \<Rightarrow> container_spec \<Rightarrow> (string \<times> string) list \<Rightarrow> string \<Rightarrow> new_container" where
  "container_opts name img spec mounted desiredHash =
    \<lparr>nc_image = img, nc_snapshot = name @ ''-snapshot'', nc_spec = build_spec_opts img spec mounted,
     nc_labels = [(BridgeLabel, networkModeLabel (cs_network_mode spec)), (SpecHashLabel, desiredHash),
       (PortMapLabel, encodePortMappings (cs_ports spec))]\<rparr>"

text \<open>A label of a container; an absent key reads as the empty string.\<close>

definition label :: "(string \<times> string) list \<Rightarrow> string \<Rightarrow> string" where
  "label m k = (case map_of m k of None \<Rightarrow> [] | Some v \<Rightarrow> v)"

section \<open>The operations the driver calls\<close>

datatype process_status = ProcRunning | ProcCreated | ProcStopped | ProcPaused | ProcPausing | ProcUnknown

primrec process_status_String :: "process_status \<Rightarrow> string" where
  "process_status_String ProcRunning = ''running''"
| "process_status_String ProcCreated = ''created''"
| "process_status_String ProcStopped = ''stopped''"
| "process_status_String ProcPaused = ''paused''"
| "process_status_String ProcPausing = ''pausing''"
| "process_status_String ProcUnknown = ''unknown''"

record exec_process =
  ep_Args :: "string list"
  ep_Env :: "string list"
  ep_Terminal :: bool

text \<open>
  The client's operations. A lookup only observes. \<open>cc_load\<close> is the error of \<open>LoadContainer\<close>,
  \<open>cc_labels\<close> the labels of \<open>Info\<close>, \<open>cc_task\<close> the process id of the task. \<open>cc_kill\<close> signals
  every process of the container, \<open>cc_wait\<close> waits for its exit or five seconds. \<open>cc_cni_init\<close> creates and
  loads the CNI client. \<open>cc_exec_run\<close> waits for a process: \<open>None\<close> when the context ends first.
\<close>

record 'w containerd_ops = "'w host_ops" +
  cc_load :: "string \<Rightarrow> 'w \<Rightarrow> go_error option"
  cc_labels :: "string \<Rightarrow> 'w \<Rightarrow> (string \<times> string) list result"
  cc_task :: "string \<Rightarrow> 'w \<Rightarrow> 32 word result"
  cc_task_status :: "string \<Rightarrow> 'w \<Rightarrow> (process_status \<times> 32 word) result"
  cc_task_delete :: "string \<Rightarrow> ('w, unit) action"
  cc_delete :: "string \<Rightarrow> ('w, unit) action"
  cc_get_image :: "string \<Rightarrow> 'w \<Rightarrow> string result"
  cc_pull :: "string \<Rightarrow> ('w, string) action"
  cc_new_container :: "string \<Rightarrow> new_container \<Rightarrow> ('w, unit) action"
  cc_new_task :: "string \<Rightarrow> string \<Rightarrow> ('w, 32 word) action"
  cc_start :: "string \<Rightarrow> ('w, unit) action"
  cc_kill :: "string \<Rightarrow> ('w, unit) action"
  cc_wait :: "string \<Rightarrow> ('w, unit) action"
  cc_cni_init :: "('w, unit) action"
  cc_cni_setup :: "string \<Rightarrow> string \<Rightarrow> cni_port list list \<Rightarrow> ('w, unit) action"
  cc_cni_remove :: "string \<Rightarrow> string \<Rightarrow> cni_port list list \<Rightarrow> ('w, unit) action"
  cc_readdir :: "string \<Rightarrow> 'w \<Rightarrow> string list result"
  cc_process_env :: "string \<Rightarrow> 'w \<Rightarrow> string list result"
  cc_exec :: "string \<Rightarrow> string \<Rightarrow> exec_process \<Rightarrow> ('w, unit) action"
  cc_exec_wait :: "string \<Rightarrow> string \<Rightarrow> ('w, unit) action"
  cc_exec_start :: "string \<Rightarrow> string \<Rightarrow> ('w, unit) action"
  cc_exec_run :: "string \<Rightarrow> string \<Rightarrow> 'w \<Rightarrow> int result option \<times> 'w"
  cc_exec_kill :: "string \<Rightarrow> string \<Rightarrow> ('w, unit) action"
  cc_exec_delete :: "string \<Rightarrow> string \<Rightarrow> ('w, unit) action"
  cc_images :: "'w \<Rightarrow> (string \<times> string \<times> int result \<times> int) list result"
  cc_import :: "string \<Rightarrow> ('w, string list) action"
  cc_unpack :: "string \<Rightarrow> ('w, unit) action"

definition errdefs_NotFound :: go_error where "errdefs_NotFound = Sentinel ''not found''"

definition IsNotFound :: "go_error \<Rightarrow> bool" where "IsNotFound e = errors_is e errdefs_NotFound"

text \<open>The driver's state: whether the CNI client was initialised and with which error, and the counter
  of exec identifiers.\<close>

record driver_state =
  dr_cni :: "go_error option option"
  dr_execSeq :: "64 word"

type_synonym 'w dstate = "driver_state \<times> 'w"

section \<open>Volumes\<close>

definition volumeMountDir :: string where "volumeMountDir = ''/run/capsule/mounts''"

definition volumeBlockDevice :: "string \<Rightarrow> string" where
  "volumeBlockDevice name = ''/dev/capsule/vol-'' @ name"

definition runMount :: "'w containerd_ops \<Rightarrow> string list \<Rightarrow> ('w, unit) action" where
  "runMount D args = wrap_action ''mount'' (mo_exec_action (host_ops.truncate D) ''/bin/mount'' args)"

definition runUmount :: "'w containerd_ops \<Rightarrow> string \<Rightarrow> ('w, unit) action" where
  "runUmount D mp = wrap_action ''umount'' (mo_exec_action (host_ops.truncate D) ''/bin/umount'' [mp])"

definition mount_volume :: "'w containerd_ops \<Rightarrow> string \<Rightarrow> volume_mount \<Rightarrow> ('w, string) action" where
  "mount_volume D workload m w =
    (let vol = vm_volume_name m; dev = volumeBlockDevice vol; mp = path_join [volumeMountDir, workload, vol] in
     case ho_stat D dev w of
       Some e \<Rightarrow> (Inl (Wrap ''volume'' e), w)
     | None \<Rightarrow>
        bind_action (wrap_action ''mkdir'' (ho_mkdir D mp)) (\<lambda>_.
        bind_action (wrap_action ''mount'' (runMount D ([''-t'', ''ext4''] @ (if vm_read_only m then [''-o'', ''ro''] else []) @ [dev, mp]))) (\<lambda>_.
        lift_result (Inr mp))) w)"

text \<open>On an error the volumes mounted so far are returned with it.\<close>

fun mount_volumes :: "'w containerd_ops \<Rightarrow> string \<Rightarrow> volume_mount list \<Rightarrow> (string \<times> string) list \<Rightarrow> 'w \<Rightarrow>
    (go_error option \<times> (string \<times> string) list) \<times> 'w" where
  "mount_volumes D workload [] mounted w = ((None, mounted), w)"
| "mount_volumes D workload (m # ms) mounted w =
    (if vm_volume_name m = [] then mount_volumes D workload ms mounted w
     else (case mount_volume D workload m w of
        (Inl e, w1) \<Rightarrow> ((Some e, mounted), w1)
      | (Inr mp, w1) \<Rightarrow> mount_volumes D workload ms (AList.update (vm_volume_name m) mp mounted) w1))"

definition mountContainerVolumes :: "'w containerd_ops \<Rightarrow> string \<Rightarrow> volume_mount list \<Rightarrow> 'w \<Rightarrow>
    (go_error option \<times> (string \<times> string) list) \<times> 'w" where
  "mountContainerVolumes D workload declared w =
    (if declared = [] then ((None, []), w) else mount_volumes D workload declared [] w)"

primrec unmount_all :: "'w containerd_ops \<Rightarrow> string list \<Rightarrow> ('w, unit) action" where
  "unmount_all D [] w = (Inr (), w)"
| "unmount_all D (mp # mps) w = unmount_all D mps (snd (ho_remove D mp (snd (runUmount D mp w))))"

definition unmountContainerVolumes :: "'w containerd_ops \<Rightarrow> string \<Rightarrow> (string \<times> string) list \<Rightarrow> ('w, unit) action" where
  "unmountContainerVolumes D workload mounted w =
    (let root = path_join [volumeMountDir, workload] in
     if mounted = [] then
       (case cc_readdir D root w of
          Inl _ \<Rightarrow> (Inr (), w)
        | Inr entries \<Rightarrow>
           ignore (ho_remove D root) (snd (unmount_all D (map (\<lambda>e. path_join [root, e]) entries) w)))
     else ignore (ho_remove D root) (snd (unmount_all D (map snd mounted) w)))"

section \<open>Bridge networking\<close>

definition ensureCNI :: "'w containerd_ops \<Rightarrow> ('w dstate, unit) action" where
  "ensureCNI D st =
    (case dr_cni (fst st) of
       Some (Some e) \<Rightarrow> (Inl e, st)
     | Some None \<Rightarrow> (Inr (), st)
     | None \<Rightarrow>
        (case cc_cni_init D (snd st) of
           (Inl e, w) \<Rightarrow> (Inl e, ((fst st)\<lparr>dr_cni := Some (Some e)\<rparr>, w))
         | (Inr _, w) \<Rightarrow> (Inr (), ((fst st)\<lparr>dr_cni := Some None\<rparr>, w))))"

definition netns_path :: "32 word \<Rightarrow> string" where
  "netns_path pid = ''/proc/'' @ itoa (unat pid) @ ''/ns/net''"

definition cniSetup :: "'w containerd_ops \<Rightarrow> string \<Rightarrow> 32 word \<Rightarrow> port_mapping list \<Rightarrow> ('w dstate, unit) action" where
  "cniSetup D name pid ports =
    bind_action (ensureCNI D) (\<lambda>_. on_host (cc_cni_setup D name (netns_path pid) (portMapNSOpts (gocniPortMappings ports))))"

definition cniTeardown :: "'w containerd_ops \<Rightarrow> string \<Rightarrow> 32 word \<Rightarrow> cni_port list \<Rightarrow> ('w dstate, unit) action" where
  "cniTeardown D name pid pm =
    bind_action (ensureCNI D) (\<lambda>_. on_host (cc_cni_remove D name (netns_path pid) (portMapNSOpts pm)))"

section \<open>Lifecycle\<close>

text \<open>The teardown of the task, part of \<open>Remove\<close>.\<close>

definition remove_task :: "'w containerd_ops \<Rightarrow> string \<Rightarrow> ('w dstate, unit) action" where
  "remove_task D name st =
    (case cc_task D name (snd st) of
       Inl _ \<Rightarrow> (Inr (), st)
     | Inr pid \<Rightarrow>
        (let pm = (case cc_labels D name (snd st) of Inl _ \<Rightarrow> [] | Inr m \<Rightarrow> decodePortMappings (label m PortMapLabel));
             needsCNI = (case cc_labels D name (snd st) of Inl _ \<Rightarrow> False | Inr m \<Rightarrow> label m BridgeLabel = ''bridge'')
         in bind_action (if needsCNI then ignore (cniTeardown D name pid pm) else lift_result (Inr ())) (\<lambda>_.
            bind_action (on_host (ignore (cc_kill D name))) (\<lambda>_.
            bind_action (on_host (ignore (cc_wait D name))) (\<lambda>_.
            on_host (ignore (cc_task_delete D name))))) st))"

text \<open>The deletion of the container; an absent one is fine.\<close>

definition delete_container :: "'w containerd_ops \<Rightarrow> string \<Rightarrow> ('w, unit) action" where
  "delete_container D name w =
    (case cc_delete D name w of
       (Inl e, w1) \<Rightarrow> if IsNotFound e then (Inr (), w1) else (Inl (Wrap ''delete container'' e), w1)
     | (Inr _, w1) \<Rightarrow> (Inr (), w1))"

definition container_Remove :: "'w containerd_ops \<Rightarrow> string \<Rightarrow> ('w dstate, unit) action" where
  "container_Remove D name st =
    (case cc_load D name (snd st) of
       Some e \<Rightarrow> if IsNotFound e then (Inr (), st) else (Inl (Wrap ''load container'' e), st)
     | None \<Rightarrow>
        bind_action (remove_task D name) (\<lambda>_.
        bind_action (on_host (delete_container D name)) (\<lambda>_.
        on_host (unmountContainerVolumes D name []))) st)"

text \<open>The first step of \<open>EnsureRunning\<close>: \<open>True\<close> when the container runs on the desired specification,
  \<open>False\<close> when it is out of the way.\<close>

definition drop_stale :: "'w containerd_ops \<Rightarrow> string \<Rightarrow> string \<Rightarrow> ('w dstate, bool) action" where
  "drop_stale D name desiredHash st =
    (let w = snd st in
     case cc_load D name w of
       Some e \<Rightarrow> if IsNotFound e then (Inr False, st) else (Inl (Wrap ''load container'' e), st)
     | None \<Rightarrow>
        (let runningHash = (case cc_labels D name w of Inl _ \<Rightarrow> [] | Inr m \<Rightarrow> label m SpecHashLabel);
             specChanged = (runningHash \<noteq> [] \<and> runningHash \<noteq> desiredHash);
             delete_stale = wrap_action ''delete stale container'' (on_host (cc_delete D name))
         in case cc_task D name w of
              Inl _ \<Rightarrow> bind_action delete_stale (\<lambda>_. lift_result (Inr False)) st
            | Inr pid \<Rightarrow>
               if (case cc_task_status D name w of Inl _ \<Rightarrow> False | Inr (s, _) \<Rightarrow> s = ProcRunning)
               then if \<not> specChanged then (Inr True, st)
                 else bind_action (wrap_action ''remove stale container'' (container_Remove D name)) (\<lambda>_. lift_result (Inr False)) st
               else bind_action (on_host (ignore (cc_task_delete D name))) (\<lambda>_.
                    bind_action delete_stale (\<lambda>_. lift_result (Inr False))) st))"

definition resolve_image :: "'w containerd_ops \<Rightarrow> string \<Rightarrow> ('w, string) action" where
  "resolve_image D ref w =
    (case cc_get_image D ref w of
       Inr img \<Rightarrow> (Inr img, w)
     | Inl e \<Rightarrow>
        if \<not> IsNotFound e then (Inl (Wrap ''get image'' e), w)
        else wrap_action ''pull image'' (cc_pull D ref) w)"

text \<open>The volumes of the container; a failure unmounts what was mounted.\<close>

definition mount_or_undo :: "'w containerd_ops \<Rightarrow> string \<Rightarrow> volume_mount list \<Rightarrow> ('w, (string \<times> string) list) action" where
  "mount_or_undo D name declared w =
    (case mountContainerVolumes D name declared w of
       ((None, mounted), w1) \<Rightarrow> (Inr mounted, w1)
     | ((Some e, mounted), w1) \<Rightarrow> (Inl (Wrap ''mount volumes'' e), snd (unmountContainerVolumes D name mounted w1)))"

definition LogDir :: string where "LogDir = ''/run/capsule/workloads''"

definition container_LogPath :: "string \<Rightarrow> string" where
  "container_LogPath name = path_join [LogDir, name, ''combined.log'']"

definition create_task :: "'w containerd_ops \<Rightarrow> string \<Rightarrow> ('w, 32 word) action" where
  "create_task D name =
    or_else
      (bind_action (wrap_action ''mkdir logs'' (ho_mkdir D (path_dir (container_LogPath name)))) (\<lambda>_.
       wrap_action ''new task'' (cc_new_task D name (container_LogPath name))))
      (ignore (cc_delete D name))"

definition drop_task :: "'w containerd_ops \<Rightarrow> string \<Rightarrow> ('w, unit) action" where
  "drop_task D name = bind_action (ignore (cc_task_delete D name)) (\<lambda>_. ignore (cc_delete D name))"

definition setup_network :: "'w containerd_ops \<Rightarrow> string \<Rightarrow> 32 word \<Rightarrow> container_spec \<Rightarrow> ('w dstate, unit) action" where
  "setup_network D name pid spec =
    (if cs_network_mode spec = NETWORK_MODE_BRIDGE then
       bind_action (ignore (cniTeardown D name pid (gocniPortMappings (cs_ports spec)))) (\<lambda>_.
       or_else (wrap_action ''cni setup'' (cniSetup D name pid (cs_ports spec))) (on_host (drop_task D name)))
     else lift_result (Inr ()))"

definition start_task :: "'w containerd_ops \<Rightarrow> string \<Rightarrow> 32 word \<Rightarrow> container_spec \<Rightarrow> ('w dstate, unit) action" where
  "start_task D name pid spec =
    or_else (wrap_action ''start task'' (on_host (cc_start D name)))
      (bind_action (if cs_network_mode spec = NETWORK_MODE_BRIDGE
          then ignore (cniTeardown D name pid (gocniPortMappings (cs_ports spec))) else lift_result (Inr ())) (\<lambda>_.
       on_host (drop_task D name)))"

definition create_and_start :: "'w containerd_ops \<Rightarrow> string \<Rightarrow> container_spec \<Rightarrow> string \<Rightarrow> ('w dstate, unit) action" where
  "create_and_start D name spec desiredHash =
    bind_action (on_host (resolve_image D (cs_image spec))) (\<lambda>img.
    bind_action (on_host (mount_or_undo D name (cs_mounts spec))) (\<lambda>mounted.
    bind_action (wrap_action ''create container'' (on_host (cc_new_container D name (container_opts name img spec mounted desiredHash)))) (\<lambda>_.
    bind_action (on_host (create_task D name)) (\<lambda>pid.
    bind_action (setup_network D name pid spec) (\<lambda>_.
    start_task D name pid spec)))))"

definition container_EnsureRunning ::
  "'w containerd_ops \<Rightarrow> (spec_message \<Rightarrow> 8 word list result) \<Rightarrow> (8 word list \<Rightarrow> string) \<Rightarrow> workload \<Rightarrow> ('w dstate, unit) action" where
  "container_EnsureRunning D marshal sha256_hex wl st =
    (case wl_container wl of
       None \<Rightarrow> (Inl (Errorf ''workload has no container spec''), st)
     | Some spec \<Rightarrow>
        (case SpecHash marshal sha256_hex wl of
           Inl e \<Rightarrow> (Inl e, st)
         | Inr desiredHash \<Rightarrow>
            bind_action (drop_stale D (wl_name wl) desiredHash) (\<lambda>ready.
              if ready then lift_result (Inr ()) else create_and_start D (wl_name wl) spec desiredHash) st))"

definition container_Status :: "'w containerd_ops \<Rightarrow> string \<Rightarrow> ('w dstate, rt_status) action" where
  "container_Status D name st =
    (let w = snd st; status = (\<lambda>p m. \<lparr>rs_Phase = p, rs_Message = m, rs_RestartCount = 0\<rparr>) in
     (case cc_load D name w of
        Some e \<Rightarrow> if IsNotFound e then Inr (status PhaseUnknown []) else Inl e
      | None \<Rightarrow>
         (case cc_task D name w of
            Inl e \<Rightarrow> if IsNotFound e then Inr (status PhaseStopped ''no task'') else Inl e
          | Inr _ \<Rightarrow>
             (case cc_task_status D name w of
                Inl e \<Rightarrow> Inl e
              | Inr (s, code) \<Rightarrow> Inr
                 (case s of
                    ProcRunning \<Rightarrow> status PhaseRunning []
                  | ProcStopped \<Rightarrow> status (if code \<noteq> 0 then PhaseFailed else PhaseStopped) (''exited '' @ itoa (unat code))
                  | ProcUnknown \<Rightarrow> status PhaseUnknown (process_status_String s)
                  | _ \<Rightarrow> status PhasePending (process_status_String s)))), st))"

section \<open>Exec and images\<close>

text \<open>The process identifier combines the time and the counter. The streams of the request are the
  caller's and are not part of the state.\<close>

definition exec_id :: "int \<Rightarrow> 64 word \<Rightarrow> string" where
  "exec_id now n = ''capsule-exec-'' @ itoa_int now @ ''-'' @ itoa (unat n)"

definition run_process :: "'w containerd_ops \<Rightarrow> string \<Rightarrow> string \<Rightarrow> ('w, int) action" where
  "run_process D name pid =
    bind_action (wrap_action ''process wait'' (cc_exec_wait D name pid)) (\<lambda>_.
    bind_action (wrap_action ''process start'' (cc_exec_start D name pid)) (\<lambda>_ w.
      (case cc_exec_run D name pid w of
         (None, w1) \<Rightarrow> (Inl (Sentinel ''context canceled''), snd (cc_exec_kill D name pid w1))
       | (Some r, w1) \<Rightarrow> (r, w1))))"

definition container_Exec :: "'w containerd_ops \<Rightarrow> int \<Rightarrow> exec_request \<Rightarrow> ('w dstate, int) action" where
  "container_Exec D now req st =
    (let name = er_Name req; w = snd st in
     if er_Command req = [] then (Inl (Errorf ''exec: command is required''), st)
     else (case cc_load D name w of
        Some e \<Rightarrow> (Inl (Wrap ''load container'' e), st)
      | None \<Rightarrow>
         (case cc_task D name w of
            Inl e \<Rightarrow> (Inl (Wrap ''get task'' e), st)
          | Inr _ \<Rightarrow>
             (case cc_labels D name w of
                Inl e \<Rightarrow> (Inl (Wrap ''container info'' e), st)
              | Inr _ \<Rightarrow>
                 (case cc_process_env D name w of
                    Inl e \<Rightarrow> (Inl (Wrap ''container spec'' e), st)
                  | Inr env \<Rightarrow>
                     (let n = dr_execSeq (fst st) + 1; pid = exec_id now n;
                          pspec = \<lparr>ep_Args = er_Command req,
                            ep_Env = (if er_Env req \<noteq> [] then mergeEnv env (er_Env req) else env), ep_Terminal = er_TTY req\<rparr>
                      in bind_action (wrap_action ''task exec'' (on_host (cc_exec D name pid pspec))) (\<lambda>_.
                         on_host (and_finally (run_process D name pid) (\<lambda>v. snd (cc_exec_delete D name pid v))))
                           ((fst st)\<lparr>dr_execSeq := n\<rparr>, w)))))))"

record rt_image =
  ri_Name :: string
  ri_Digest :: string
  ri_Size :: int
  ri_CreatedAt :: int

definition images_List :: "'w containerd_ops \<Rightarrow> ('w dstate, rt_image list) action" where
  "images_List D st =
    (case cc_images D (snd st) of
       Inl e \<Rightarrow> (Inl (Wrap ''list images'' e), st)
     | Inr imgs \<Rightarrow> (Inr (map (\<lambda>(name, digest, size, updated).
          \<lparr>ri_Name = name, ri_Digest = digest, ri_Size = (case size of Inl _ \<Rightarrow> 0 | Inr n \<Rightarrow> n), ri_CreatedAt = updated\<rparr>) imgs), st))"

text \<open>An image that does not unpack stays stored and is reported.\<close>

primrec unpack_images :: "'w containerd_ops \<Rightarrow> string list \<Rightarrow> ('w, unit) action" where
  "unpack_images D [] w = (Inr (), w)"
| "unpack_images D (r # rs) w = unpack_images D rs (snd (cc_unpack D r w))"

definition images_Import :: "'w containerd_ops \<Rightarrow> string \<Rightarrow> ('w dstate, string list) action" where
  "images_Import D archive =
    bind_action (wrap_action ''import'' (on_host (cc_import D archive))) (\<lambda>refs.
    bind_action (on_host (unpack_images D refs)) (\<lambda>_. lift_result (Inr refs)))"

definition containerd_driver ::
  "'w containerd_ops \<Rightarrow> (spec_message \<Rightarrow> 8 word list result) \<Rightarrow> (8 word list \<Rightarrow> string) \<Rightarrow> int \<Rightarrow> 'w dstate container_driver" where
  "containerd_driver D marshal sha256_hex now =
    \<lparr>cd_EnsureRunning = container_EnsureRunning D marshal sha256_hex, cd_Remove = container_Remove D,
     cd_Status = container_Status D, cd_LogPath = container_LogPath, cd_Exec = container_Exec D now\<rparr>"

section \<open>The label of the port mappings\<close>

text \<open>No comma and no white space.\<close>

definition plain :: "string \<Rightarrow> bool" where
  "plain s \<longleftrightarrow> (\<forall>c\<in>set s. c \<noteq> CHR '','' \<and> \<not> is_space c)"

lemma sint32_range: "- (2 ^ 63) \<le> sint (x :: 32 word)" "sint (x :: 32 word) < 2 ^ 63"
  using sint_range_size [of x] by (simp_all add: word_size)

lemma atoi_sint: "atoi (itoa_int (sint (x :: 32 word))) = Some (sint x)"
  by (rule atoi_itoa_int) (rule sint32_range)+

lemma itoa_int_chars: "c \<in> set (itoa_int x) \<Longrightarrow> c = CHR ''-'' \<or> digit_val c \<noteq> None"
  using itoa_digits by (auto simp: itoa_int_def split: if_splits)

lemma itoa_int_space: "c \<in> set (itoa_int x) \<Longrightarrow> \<not> is_space c"
  using itoa_int_chars [of c x] by (auto simp: digit_val_def is_space_def Let_def)

lemma itoa_int_plain: "CHR ''/'' \<notin> set (itoa_int x)" "CHR '':'' \<notin> set (itoa_int x)" "CHR '','' \<notin> set (itoa_int x)"
  using itoa_int_chars [of "CHR ''/''" x] itoa_int_chars [of "CHR '':''" x] itoa_int_chars [of "CHR '',''" x]
  by (auto simp: digit_val_def)

lemma decode_encode_port: "decode_port (encode_port p) = Some p"
proof -
  let ?h = "itoa_int (sint (cp_HostPort p))" and ?c = "itoa_int (sint (cp_ContainerPort p))"
  have "str_cut CHR ''/'' (encode_port p) = (?h @ CHR '':'' # ?c, cp_Protocol p, True)"
    using str_cut_append [of "CHR ''/''" "?h @ CHR '':'' # ?c" "cp_Protocol p"] by (simp add: encode_port_def itoa_int_plain)
  moreover have "str_cut CHR '':'' (?h @ CHR '':'' # ?c) = (?h, ?c, True)"
    by (rule str_cut_append) (rule itoa_int_plain)
  ultimately show ?thesis by (simp add: decode_port_def atoi_sint)
qed

lemma encode_port_chars:
  assumes "plain (cp_Protocol p)"
  shows "plain (encode_port p)"
proof -
  let ?h = "itoa_int (sint (cp_HostPort p))" and ?c = "itoa_int (sint (cp_ContainerPort p))"
  have sep: "\<not> is_space CHR '':''" "\<not> is_space CHR ''/''" by (simp_all add: is_space_def)
  have num: "\<forall>c\<in>set (itoa_int x). c \<noteq> CHR '','' \<and> \<not> is_space c" for x
    using itoa_int_plain(3) [of x] itoa_int_space [of _ x] by blast
  have "set (encode_port p) = set ?h \<union> {CHR '':''} \<union> set ?c \<union> {CHR ''/''} \<union> set (cp_Protocol p)"
    by (auto simp: encode_port_def)
  then show ?thesis using assms num sep by (simp add: plain_def ball_Un)
qed

lemma set_join_with: "set (join_with c ws) \<subseteq> insert c (\<Union>w\<in>set ws. set w)"
  by (induction c ws rule: join_with.induct) auto

lemma decode_encode_all: "List.map_filter decode_port (map encode_port m) = m"
  by (induction m) (simp_all add: List.map_filter_def decode_encode_port)

lemma decode_encode_ports:
  assumes "\<forall>p\<in>set m. plain (cp_Protocol p)" "m \<noteq> []"
  shows "decodePortMappings (join_with CHR '','' (map encode_port m)) = m"
proof -
  let ?s = "join_with CHR '','' (map encode_port m)"
  have comma: "\<not> is_space CHR '',''" by (simp add: is_space_def)
  have "\<forall>c\<in>set ?s. \<not> is_space c"
  proof
    fix c assume "c \<in> set ?s"
    then have "c = CHR '','' \<or> (\<exists>p\<in>set m. c \<in> set (encode_port p))"
      using subsetD [OF set_join_with] by fastforce
    then show "\<not> is_space c" using encode_port_chars assms(1) comma unfolding plain_def by blast
  qed
  moreover have sp: "split_on CHR '','' ?s = map encode_port m"
  proof (rule split_join)
    show "map encode_port m \<noteq> []" using assms(2) by simp
    show "\<forall>w\<in>set (map encode_port m). CHR '','' \<notin> set w"
    proof
      fix w assume "w \<in> set (map encode_port m)"
      then obtain p where "p \<in> set m" "w = encode_port p" unfolding set_map by (rule imageE)
      then have "plain w" using assms(1) encode_port_chars by simp
      then show "CHR '','' \<notin> set w" unfolding plain_def by metis
    qed
  qed
  moreover have "?s \<noteq> []"
  proof
    assume "?s = []"
    with sp have "map encode_port m = [[]]" by simp
    then have "encode_port (hd m) = []" by (cases m) auto
    then show False by (simp add: encode_port_def)
  qed
  ultimately have "decodePortMappings ?s = List.map_filter decode_port (map encode_port m)"
    by (simp only: decodePortMappings_def trim_space_id Let_def if_False)
  then show ?thesis by (simp only: decode_encode_all)
qed

lemma plain_lower: "plain s \<Longrightarrow> plain (map to_lower s)"
  unfolding plain_def
proof
  fix c assume s: "\<forall>c\<in>set s. c \<noteq> CHR '','' \<and> \<not> is_space c" and "c \<in> set (map to_lower s)"
  then obtain d where d: "d \<in> set s" "c = to_lower d" by auto
  show "c \<noteq> CHR '','' \<and> \<not> is_space c"
  proof (cases "c = d")
    case False
    then have r: "65 \<le> (of_char d :: nat)" "(of_char d :: nat) \<le> 90" "c = char_of (of_char d + 32 :: nat)"
      using d(2) by (auto simp: to_lower_def Let_def split: if_splits)
    then have "(of_char c :: nat) = of_char d + 32" by simp
    then show ?thesis using r(1) by (auto simp: is_space_def)
  qed (use d s in blast)
qed

lemma plain_gocni:
  assumes "\<forall>p\<in>set ports. plain (pm_protocol p)"
  shows "\<forall>q\<in>set (gocniPortMappings ports). plain (cp_Protocol q)"
proof
  fix q assume "q \<in> set (gocniPortMappings ports)"
  then obtain p where "p \<in> set ports" "cp_Protocol q = (if map to_lower (pm_protocol p) = [] then ''tcp'' else map to_lower (pm_protocol p))"
    by (auto simp: gocniPortMappings_def Let_def)
  moreover have "plain ''tcp''" by (simp add: plain_def is_space_def)
  ultimately show "plain (cp_Protocol q)" using assms plain_lower by (simp split: if_splits)
qed

text \<open>the port label replays the setup. The mappings that \<open>Remove\<close> reads from a container's label are
  the ones its network was set up with, for every list of ports whose protocols have no comma or white space,
  also for port numbers beyond the range of \<open>int32\<close>.\<close>

theorem port_label_replays_setup:
  assumes "\<forall>p\<in>set ports. plain (pm_protocol p)"
  shows "decodePortMappings (label (nc_labels (container_opts name img (spec\<lparr>cs_ports := ports\<rparr>) mounted h)) PortMapLabel) = gocniPortMappings ports"
proof -
  have "label (nc_labels (container_opts name img (spec\<lparr>cs_ports := ports\<rparr>) mounted h)) PortMapLabel = encodePortMappings ports"
    by (simp add: container_opts_def label_def BridgeLabel_def SpecHashLabel_def PortMapLabel_def)
  moreover have "decodePortMappings (encodePortMappings ports) = gocniPortMappings ports"
    using decode_encode_ports [OF plain_gocni [OF assms]]
    by (cases "gocniPortMappings ports = []") (simp_all add: encodePortMappings_def decodePortMappings_def trim_space_def Let_def)
  ultimately show ?thesis by simp
qed

definition example_spec :: container_spec where
  "example_spec = \<lparr>cs_image = ''img'', cs_command = [], cs_args = [], cs_env = [(''A'', ''1'')],
     cs_mounts = [\<lparr>vm_volume_name = ''data'', vm_mount_path = ''/data'', vm_read_only = False\<rparr>],
     cs_network_mode = NETWORK_MODE_BRIDGE, cs_ports = [\<lparr>pm_container_port = 22, pm_host_port = 2222, pm_protocol = ''tcp''\<rparr>],
     cs_privileged = False, cs_host_pid = False, cs_host_mount = False, cs_host_ipc = False, cs_host_bind_paths = []\<rparr>"

theorem port_label_replays_setup_witness:
  "decodePortMappings (label (nc_labels (container_opts ''web'' ''img'' (example_spec\<lparr>cs_ports :=
      [\<lparr>pm_container_port = 22, pm_host_port = 2222, pm_protocol = []\<rparr>]\<rparr>) [] ''h'')) PortMapLabel) =
    [\<lparr>cp_HostPort = 2222, cp_ContainerPort = 22, cp_Protocol = ''tcp''\<rparr>]"
  using port_label_replays_setup [of "[\<lparr>pm_container_port = 22, pm_host_port = 2222, pm_protocol = []\<rparr>]"]
  by (simp add: plain_def gocniPortMappings_def)

section \<open>The driver keeps the contract of the reconciler\<close>

text \<open>A container runs when its record and task are there and the task's status is running.\<close>

definition container_running :: "'w containerd_ops \<Rightarrow> 'w \<Rightarrow> string \<Rightarrow> bool" where
  "container_running D w k \<longleftrightarrow> cc_load D k w = None \<and> is_ok (cc_task D k w) \<and>
     (case cc_task_status D k w of Inl _ \<Rightarrow> False | Inr (s, _) \<Rightarrow> s = ProcRunning)"

definition runs :: "'w containerd_ops \<Rightarrow> string \<Rightarrow> bool \<Rightarrow> 'w \<Rightarrow> bool" where
  "runs D k b w \<longleftrightarrow> container_running D w k = b"

text \<open>What containerd documents: a call for one container leaves the others as they are, a started task runs, and a
  container that was deleted, or is reported as absent, does not run. Pulling an image, CNI calls and the
  system tools leave every container as it is.\<close>

definition containerd_ok :: "'w containerd_ops \<Rightarrow> bool" where
  "containerd_ok D \<longleftrightarrow>
    (\<forall>n k b c p. k \<noteq> n \<longrightarrow> keeps (runs D k b) (cc_task_delete D n) \<and> keeps (runs D k b) (cc_delete D n) \<and>
       keeps (runs D k b) (cc_new_container D n c) \<and> keeps (runs D k b) (cc_new_task D n p) \<and>
       keeps (runs D k b) (cc_start D n) \<and> keeps (runs D k b) (cc_kill D n) \<and> keeps (runs D k b) (cc_wait D n)) \<and>
    (\<forall>n w. is_ok (fst (cc_start D n w)) \<longrightarrow> runs D n True (snd (cc_start D n w))) \<and>
    (\<forall>n w. (case fst (cc_delete D n w) of Inl e \<Rightarrow> IsNotFound e | Inr _ \<Rightarrow> True) \<longrightarrow> runs D n False (snd (cc_delete D n w))) \<and>
    (\<forall>k b r n p m a. keeps (runs D k b) (cc_pull D r) \<and> keeps (runs D k b) (cc_cni_init D) \<and>
       keeps (runs D k b) (cc_cni_setup D n p m) \<and> keeps (runs D k b) (cc_cni_remove D n p m) \<and>
       keeps (runs D k b) (ho_mkdir D n) \<and> keeps (runs D k b) (ho_remove D n) \<and>
       keeps (runs D k b) (mo_exec_action (host_ops.truncate D) ''/bin/mount'' a) \<and>
       keeps (runs D k b) (mo_exec_action (host_ops.truncate D) ''/bin/umount'' a))"

lemma containerd_other:
  assumes "containerd_ok D" "k \<noteq> n"
  shows "keeps (runs D k b) (cc_task_delete D n)" "keeps (runs D k b) (cc_delete D n)" "keeps (runs D k b) (cc_new_container D n c)"
    "keeps (runs D k b) (cc_new_task D n p)" "keeps (runs D k b) (cc_start D n)" "keeps (runs D k b) (cc_kill D n)"
    "keeps (runs D k b) (cc_wait D n)"
  using assms unfolding containerd_ok_def by blast+

lemma containerd_neutral:
  assumes "containerd_ok D"
  shows "keeps (runs D k b) (cc_pull D r)" "keeps (runs D k b) (cc_cni_init D)" "keeps (runs D k b) (cc_cni_setup D n p m)"
    "keeps (runs D k b) (cc_cni_remove D n p m)" "keeps (runs D k b) (ho_mkdir D n)" "keeps (runs D k b) (ho_remove D n)"
    "keeps (runs D k b) (mo_exec_action (host_ops.truncate D) ''/bin/mount'' a)"
    "keeps (runs D k b) (mo_exec_action (host_ops.truncate D) ''/bin/umount'' a)"
  using assms unfolding containerd_ok_def by blast+

lemma containerd_start: "containerd_ok D \<Longrightarrow> cc_start D n w = (Inr x, w1) \<Longrightarrow> runs D n True w1"
  unfolding containerd_ok_def by (metis fst_conv snd_conv is_ok_simps(2))

lemma containerd_delete:
  "containerd_ok D \<Longrightarrow> cc_delete D n w = (r, w1) \<Longrightarrow> (case r of Inl e \<Rightarrow> IsNotFound e | Inr _ \<Rightarrow> True) \<Longrightarrow> runs D n False w1"
  unfolding containerd_ok_def by (metis fst_conv snd_conv)

lemma keeps_ensureCNI:
  assumes "containerd_ok D"
  shows "keeps (\<lambda>st. runs D k b (snd st)) (ensureCNI D)"
  using containerd_neutral(2) [OF assms, of k b] unfolding keeps_def ensureCNI_def
  by (auto split: option.split prod.split sum.split)

lemma keeps_cni:
  assumes "containerd_ok D"
  shows "keeps (\<lambda>st. runs D k b (snd st)) (cniSetup D name pid ports)"
    "keeps (\<lambda>st. runs D k b (snd st)) (cniTeardown D name pid pm)"
  unfolding cniSetup_def cniTeardown_def
  by (intro keeps_rules keeps_ensureCNI assms containerd_neutral)+

lemma keeps_unmount_all: "containerd_ok D \<Longrightarrow> keeps (runs D k b) (unmount_all D mps)"
proof (induction mps)
  case (Cons mp mps)
  then have "keeps (runs D k b) (ho_remove D mp)" "keeps (runs D k b) (runUmount D mp)" "keeps (runs D k b) (unmount_all D mps)"
    unfolding runUmount_def by (blast intro: containerd_neutral keeps_rules)+
  then show ?case by (simp add: keeps_def)
qed (simp add: keeps_def)

lemma keeps_unmount:
  assumes "containerd_ok D"
  shows "keeps (runs D k b) (unmountContainerVolumes D name mounted)"
proof -
  have "keeps (runs D k b) (unmount_all D mps)" "keeps (runs D k b) (ho_remove D root)" for mps root
    using assms by (simp_all add: keeps_unmount_all containerd_neutral)
  then show ?thesis unfolding keeps_def unmountContainerVolumes_def Let_def ignore_def by (auto split: sum.split)
qed

lemma keeps_remove_task:
  assumes "containerd_ok D" "k \<noteq> name"
  shows "keeps (\<lambda>st. runs D k b (snd st)) (remove_task D name)"
proof -
  have "keeps (\<lambda>st. runs D k b (snd st)) (bind_action (if c then ignore (cniTeardown D name pid pm) else lift_result (Inr ())) (\<lambda>_.
      bind_action (on_host (ignore (cc_kill D name))) (\<lambda>_. bind_action (on_host (ignore (cc_wait D name))) (\<lambda>_.
      on_host (ignore (cc_task_delete D name))))))" for c pid pm
    by (cases c) (simp_all only: if_True if_False, (intro keeps_rules keeps_cni containerd_other assms)+)
  then show ?thesis unfolding keeps_def remove_task_def Let_def by (simp split: sum.split)
qed

lemma keeps_delete_container:
  assumes "containerd_ok D" "k \<noteq> name"
  shows "keeps (runs D k b) (delete_container D name)"
  using containerd_other(2) [OF assms] unfolding keeps_def delete_container_def by (fastforce split: prod.split sum.split)

lemma keeps_Remove:
  assumes "containerd_ok D" "k \<noteq> name"
  shows "keeps (\<lambda>st. runs D k b (snd st)) (container_Remove D name)"
proof -
  have "keeps (\<lambda>st. runs D k b (snd st)) (bind_action (remove_task D name) (\<lambda>_.
        bind_action (on_host (delete_container D name)) (\<lambda>_. on_host (unmountContainerVolumes D name []))))"
    by (intro keeps_rules keeps_remove_task keeps_delete_container keeps_unmount assms)
  then show ?thesis unfolding keeps_def container_Remove_def by (simp split: option.split)
qed

lemma Remove_stops:
  assumes ok: "containerd_ok D" and r: "container_Remove D name st = (Inr x, st')"
  shows "runs D name False (snd st')"
proof (cases "cc_load D name (snd st)")
  case None
  then obtain y st1 where "bind_action (on_host (delete_container D name)) (\<lambda>_. on_host (unmountContainerVolumes D name [])) st1 = (Inr x, st')"
    using r by (auto simp: container_Remove_def elim: bind_ok)
  then obtain z st2 where d: "on_host (delete_container D name) st1 = (Inr z, st2)"
    and u: "on_host (unmountContainerVolumes D name []) st2 = (Inr x, st')" by (rule bind_ok)
  obtain s w where st1: "st1 = (s, w)" by (cases st1)
  obtain w2 where w2: "delete_container D name w = (Inr z, w2)" "st2 = (s, w2)" using d unfolding st1 on_host_ok by blast
  obtain q w3 where "cc_delete D name w = (q, w3)" by fastforce
  moreover from this w2 have "w3 = w2" "case q of Inl e \<Rightarrow> IsNotFound e | Inr _ \<Rightarrow> True"
    by (auto simp: delete_container_def split: sum.splits if_splits)
  ultimately have "runs D name False w2" using containerd_delete [OF ok] by blast
  then show ?thesis
    using keepsD [OF keeps_on_host [OF keeps_unmount [OF ok, of name False name "[]"]], of st2] u w2(2) by simp
next
  case (Some e)
  then have "st' = st" using r by (auto simp: container_Remove_def split: if_splits)
  then show ?thesis using Some by (simp add: runs_def container_running_def)
qed

lemma keeps_drop_stale:
  assumes "containerd_ok D" "k \<noteq> name"
  shows "keeps (\<lambda>st. runs D k b (snd st)) (drop_stale D name h)"
proof -
  let ?P = "\<lambda>st. runs D k b (snd st)"
  have "keeps ?P (bind_action (wrap_action ''delete stale container'' (on_host (cc_delete D name))) (\<lambda>_. lift_result (Inr False)))"
    "keeps ?P (bind_action (wrap_action ''remove stale container'' (container_Remove D name)) (\<lambda>_. lift_result (Inr False)))"
    "keeps ?P (bind_action (on_host (ignore (cc_task_delete D name))) (\<lambda>_.
       bind_action (wrap_action ''delete stale container'' (on_host (cc_delete D name))) (\<lambda>_. lift_result (Inr False))))"
    by (intro keeps_rules keeps_Remove containerd_other assms)+
  then show ?thesis unfolding keeps_def drop_stale_def Let_def by (auto split: option.split sum.split)
qed

lemma keeps_mount_volume: "containerd_ok D \<Longrightarrow> keeps (runs D k b) (mount_volume D name m)"
proof -
  assume ok: "containerd_ok D"
  have "keeps (runs D k b) (bind_action (wrap_action ''mkdir'' (ho_mkdir D mp)) (\<lambda>_.
        bind_action (wrap_action ''mount'' (runMount D args)) (\<lambda>_. lift_result (Inr mp))))" for mp args
    unfolding runMount_def by (intro keeps_rules containerd_neutral ok)
  then show ?thesis unfolding keeps_def mount_volume_def Let_def by (simp split: option.split)
qed

lemma keeps_mount_volumes:
  assumes "containerd_ok D"
  shows "runs D k b w \<Longrightarrow> runs D k b (snd (mount_volumes D name ms mounted w))"
proof (induction ms arbitrary: mounted w)
  case (Cons m ms)
  have "runs D k b (snd (mount_volume D name m w))" using keepsD [OF keeps_mount_volume [OF assms]] Cons.prems .
  then show ?case using Cons by (auto split: prod.split sum.split)
qed simp

lemma keeps_mount_or_undo:
  assumes "containerd_ok D"
  shows "keeps (runs D k b) (mount_or_undo D name declared)"
proof -
  have "runs D k b (snd (mountContainerVolumes D name declared w))" if "runs D k b w" for w
    using that keeps_mount_volumes [OF assms] by (simp add: mountContainerVolumes_def)
  then show ?thesis using keepsD [OF keeps_unmount [OF assms]]
    unfolding keeps_def mount_or_undo_def by (fastforce split: prod.split option.split)
qed

lemma keeps_resolve_image: "containerd_ok D \<Longrightarrow> keeps (runs D k b) (resolve_image D ref)"
  using keeps_wrap [OF containerd_neutral(1), of D k b "''pull image''" ref]
  unfolding keeps_def resolve_image_def by (simp split: sum.split)

lemma keeps_create_and_start:
  assumes "containerd_ok D" "k \<noteq> name"
  shows "keeps (\<lambda>st. runs D k b (snd st)) (create_and_start D name spec h)"
proof -
  let ?P = "\<lambda>st. runs D k b (snd st)"
  have drop: "keeps (runs D k b) (drop_task D name)" "keeps (runs D k b) (create_task D name)"
    unfolding drop_task_def create_task_def by (intro keeps_rules containerd_other containerd_neutral assms)+
  have "keeps ?P (setup_network D name pid spec)" for pid
    unfolding setup_network_def by (cases "cs_network_mode spec = NETWORK_MODE_BRIDGE")
      (simp_all only: if_True if_False simp_thms, (intro keeps_rules keeps_cni drop assms)+)
  moreover have "keeps ?P (start_task D name pid spec)" for pid
    unfolding start_task_def by (cases "cs_network_mode spec = NETWORK_MODE_BRIDGE")
      (simp_all only: if_True if_False simp_thms, (intro keeps_rules keeps_cni drop containerd_other assms)+)
  ultimately show ?thesis
    unfolding create_and_start_def
    by (intro keeps_rules keeps_resolve_image keeps_mount_or_undo containerd_other drop assms)
qed

lemma keeps_EnsureRunning:
  assumes "containerd_ok D" "k \<noteq> wl_name wl"
  shows "keeps (\<lambda>st. runs D k b (snd st)) (container_EnsureRunning D marshal sha wl)"
proof -
  let ?P = "\<lambda>st. runs D k b (snd st)"
  have "keeps ?P (bind_action (drop_stale D (wl_name wl) h) (\<lambda>ready.
      if ready then lift_result (Inr ()) else create_and_start D (wl_name wl) spec h))" for h spec
  proof (rule keeps_bind)
    show "keeps ?P (if ready then lift_result (Inr ()) else create_and_start D (wl_name wl) spec h)" for ready
      by (cases ready) (simp_all add: keeps_lift keeps_create_and_start assms)
  qed (simp add: keeps_drop_stale assms)
  then show ?thesis unfolding keeps_def container_EnsureRunning_def by (simp split: option.split sum.split)
qed

lemma drop_stale_ready: "drop_stale D name h st = (Inr True, st') \<Longrightarrow> st' = st \<and> runs D name True (snd st)"
  by (auto simp: drop_stale_def Let_def runs_def container_running_def lift_ok split: option.splits sum.splits if_splits elim!: bind_ok)

lemma create_and_start_runs:
  assumes ok: "containerd_ok D" and r: "create_and_start D name spec h st = (Inr x, st')"
  shows "runs D name True (snd st')"
proof -
  obtain pid st1 where "start_task D name pid spec st1 = (Inr x, st')"
    using r unfolding create_and_start_def by (elim bind_ok) blast
  then have "on_host (cc_start D name) st1 = (Inr x, st')"
    by (auto simp: start_task_def or_else_def wrap_ok split: prod.splits sum.splits)
  then show ?thesis using containerd_start [OF ok] by (cases st1) (auto simp: on_host_ok)
qed

lemma EnsureRunning_runs:
  assumes ok: "containerd_ok D" and r: "container_EnsureRunning D marshal sha wl st = (Inr x, st')"
  shows "runs D (wl_name wl) True (snd st')"
proof -
  obtain spec h where "bind_action (drop_stale D (wl_name wl) h) (\<lambda>ready.
      if ready then lift_result (Inr ()) else create_and_start D (wl_name wl) spec h) st = (Inr x, st')"
    using r by (auto simp: container_EnsureRunning_def split: option.splits sum.splits)
  then obtain ready st1 where d: "drop_stale D (wl_name wl) h st = (Inr ready, st1)"
    and f: "(if ready then lift_result (Inr ()) else create_and_start D (wl_name wl) spec h) st1 = (Inr x, st')"
    by (rule bind_ok)
  show ?thesis
  proof (cases ready)
    case True
    then show ?thesis using d f drop_stale_ready by (fastforce simp: lift_ok)
  next
    case False
    then show ?thesis using create_and_start_runs [OF ok] f by simp
  qed
qed

lemma containerd_contract:
  assumes "containerd_ok D"
  shows "driver_contract (container_EnsureRunning D marshal sha) (container_Remove D) (container_Status D)
    (\<lambda>st. container_running D (snd st))"
proof -
  have other: "container_running D (snd (snd (m st))) k = container_running D (snd st) k"
    if "\<And>b. keeps (\<lambda>st. runs D k b (snd st)) m" for m :: "('a dstate, unit) action" and st k
    using keepsD [OF that, of "container_running D (snd st) k" st] by (simp add: runs_def)
  show ?thesis
    unfolding driver_contract_def
  proof (intro conjI allI impI, goal_cases)
    case (1 w r k) then show ?case by (intro other keeps_EnsureRunning assms) simp
  next
    case (2 w r)
    then obtain x where "container_EnsureRunning D marshal sha w r = (Inr x, snd (container_EnsureRunning D marshal sha w r))"
      by (metis is_ok_iff prod.collapse)
    from EnsureRunning_runs [OF assms this] show ?case by (simp add: runs_def)
  next
    case (3 n r k) then show ?case by (intro other keeps_Remove assms) simp
  next
    case (4 n r)
    then obtain x where "container_Remove D n r = (Inr x, snd (container_Remove D n r))"
      by (metis is_ok_iff prod.collapse)
    from Remove_stops [OF assms this] show ?case by (simp add: runs_def)
  next
    case (5 n r) then show ?case by (simp add: container_Status_def Let_def)
  qed
qed

text \<open>C14: the containerd driver keeps the contract of the reconciler. Over a containerd that works as documented,
  an \<open>EnsureRunning\<close> that returns without error leaves the workload's container running, a \<open>Remove\<close> that returns
  without error leaves it not running, \<open>Status\<close> changes nothing, and no call affects another workload's container.\<close>

theorem containerd_driver_contract:
  assumes "containerd_ok D"
  shows "driver_contract (container_EnsureRunning D marshal sha) (container_Remove D) (container_Status D)
    (\<lambda>st. container_running D (snd st))"
  using assms by (rule containerd_contract)

section \<open>An example containerd\<close>

text \<open>A containerd that holds containers with the flag of a running task, on a host where every call succeeds.\<close>

type_synonym toy_containers = "(string \<times> bool) list"

definition toy_nop :: "(toy_containers, unit) action" where "toy_nop w = (Inr (), w)"

definition toy_containerd :: "toy_containers containerd_ops" where
  "toy_containerd =
    \<lparr>mo_exec = (\<lambda>_ _ w. (ExecOk [], w)), mo_blk = (\<lambda>_ _. BlkNoDevice), ho_sys = (\<lambda>_.
       \<lparr>sy_cmdline = Inr [], sy_mounts = Inr [], sy_blocks = Inr [], sy_partition = (\<lambda>_. None), sy_target = (\<lambda>_. None),
        sy_removable = (\<lambda>_. None), sy_size = (\<lambda>_. None), sy_dev = (\<lambda>_. Inr []), sy_nets = Inr [], sy_address = (\<lambda>_. None)\<rparr>),
     ho_read = (\<lambda>_ _. Inr []), ho_write = (\<lambda>_ _. toy_nop), ho_mkdir = (\<lambda>_. toy_nop), ho_remove = (\<lambda>_. toy_nop),
     ho_rename = (\<lambda>_ _. toy_nop), ho_symlink = (\<lambda>_ _. toy_nop), ho_stat = (\<lambda>_ _. None), ho_appears = (\<lambda>_ _. True),
     ho_mount = (\<lambda>_. toy_nop), ho_sethostname = (\<lambda>_. toy_nop), ho_settle = (\<lambda>w. w),
     ho_io = (\<lambda>_ _. \<lparr>dv_open = None, dv_seek = None, dv_sync = None, dv_read = (\<lambda>_. None), dv_write = (\<lambda>_. None)\<rparr>),
     ho_set = (\<lambda>_ _ w. w), ho_rand = (\<lambda>n w. (Inr (replicate n 0), w)),
     cc_load = (\<lambda>n w. if map_of w n = None then Some errdefs_NotFound else None),
     cc_labels = (\<lambda>_ _. Inr []), cc_task = (\<lambda>_ _. Inr 7),
     cc_task_status = (\<lambda>n w. Inr (if map_of w n = Some True then ProcRunning else ProcCreated, 0)),
     cc_task_delete = (\<lambda>_. toy_nop),
     cc_delete = (\<lambda>n w. if map_of w n = None then (Inl errdefs_NotFound, w) else (Inr (), AList.delete n w)),
     cc_get_image = (\<lambda>r _. Inr r), cc_pull = (\<lambda>r w. (Inr r, w)),
     cc_new_container = (\<lambda>n _ w. (Inr (), AList.update n False w)), cc_new_task = (\<lambda>_ _ w. (Inr 7, w)),
     cc_start = (\<lambda>n w. (Inr (), AList.update n True w)), cc_kill = (\<lambda>_. toy_nop), cc_wait = (\<lambda>_. toy_nop),
     cc_cni_init = toy_nop, cc_cni_setup = (\<lambda>_ _ _. toy_nop), cc_cni_remove = (\<lambda>_ _ _. toy_nop),
     cc_readdir = (\<lambda>_ _. Inr []), cc_process_env = (\<lambda>_ _. Inr []), cc_exec = (\<lambda>_ _ _. toy_nop),
     cc_exec_wait = (\<lambda>_ _. toy_nop), cc_exec_start = (\<lambda>_ _. toy_nop), cc_exec_run = (\<lambda>_ _ w. (Some (Inr 0), w)),
     cc_exec_kill = (\<lambda>_ _. toy_nop), cc_exec_delete = (\<lambda>_ _. toy_nop), cc_images = (\<lambda>_. Inr []),
     cc_import = (\<lambda>_ w. (Inr [], w)), cc_unpack = (\<lambda>_. toy_nop)\<rparr>"

lemma toy_container_running: "container_running toy_containerd w k \<longleftrightarrow> map_of w k = Some True"
  by (auto simp: container_running_def toy_containerd_def)

lemma toy_containerd_ok: "containerd_ok toy_containerd"
  unfolding containerd_ok_def runs_def toy_container_running
  by (simp add: keeps_def toy_containerd_def toy_nop_def mo_exec_action_def host_ops.defs exec_error_def update_conv' delete_conv' IsNotFound_def
      split: if_split)

definition example_driver_state :: driver_state where
  "example_driver_state = \<lparr>dr_cni = None, dr_execSeq = 0\<rparr>"

definition example_web :: workload where
  "example_web = \<lparr>wl_name = ''web'', wl_kind = WORKLOAD_KIND_CONTAINER, wl_container = Some example_spec,
     wl_micro_vm = None, wl_status = None, wl_desired_state = DESIRED_STATE_RUNNING\<rparr>"

theorem containerd_driver_contract_witness:
  "container_running toy_containerd
    (snd (snd (container_EnsureRunning toy_containerd (\<lambda>_. Inr []) (\<lambda>_. ''h'') example_web (example_driver_state, [(''db'', True)])))) ''web''"
proof -
  let ?r = "container_EnsureRunning toy_containerd (\<lambda>_. Inr []) (\<lambda>_. ''h'') example_web (example_driver_state, [(''db'', True)])"
  have "is_ok (fst ?r)" by code_simp
  moreover have "wl_name example_web = ''web''" by (simp add: example_web_def)
  ultimately show ?thesis
    using containerd_driver_contract [OF toy_containerd_ok, of "\<lambda>_. Inr []" "\<lambda>_. ''h''"] unfolding driver_contract_def by metis
qed

section \<open>The image service\<close>

record 'w image_store =
  is_List :: "('w, rt_image list) action"
  is_Import :: "string \<Rightarrow> ('w, string list) action"

definition containerd_images :: "'w containerd_ops \<Rightarrow> 'w dstate image_store" where
  "containerd_images D = \<lparr>is_List = images_List D, is_Import = images_Import D\<rparr>"

definition image_ErrNoRuntime :: go_error where "image_ErrNoRuntime = Sentinel ''image runtime not available''"

record proto_image =
  pi_name :: string
  pi_digest :: string
  pi_size_bytes :: int
  pi_created_unix :: int

definition image_List :: "'w image_store option \<Rightarrow> ('w, proto_image list) action" where
  "image_List store w =
    (case store of
       None \<Rightarrow> (Inl image_ErrNoRuntime, w)
     | Some s \<Rightarrow>
        bind_action (is_List s) (\<lambda>imgs. lift_result (Inr (map (\<lambda>i.
          \<lparr>pi_name = ri_Name i, pi_digest = ri_Digest i, pi_size_bytes = ri_Size i, pi_created_unix = ri_CreatedAt i\<rparr>) imgs))) w)"

definition image_Import :: "'w image_store option \<Rightarrow> string \<Rightarrow> ('w, string list) action" where
  "image_Import store archive w = (case store of None \<Rightarrow> (Inl image_ErrNoRuntime, w) | Some s \<Rightarrow> is_Import s archive w)"

definition ImageController_List :: "'w image_store option \<Rightarrow> ('w, proto_image list) action" where
  "ImageController_List store w =
    (case image_List store w of
       (Inl e, w1) \<Rightarrow> (Inl (Status (if errors_is e image_ErrNoRuntime then FailedPrecondition else Internal) (error_text e)), w1)
     | (Inr imgs, w1) \<Rightarrow> (Inr imgs, w1))"

text \<open>An image whose size cannot be read is listed with size zero, so a listing names every cached image.\<close>

lemma images_listed:
  "cc_images D (snd st) = Inr imgs \<Longrightarrow>
   \<exists>out. ImageController_List (Some (containerd_images D)) st = (Inr out, st) \<and> map pi_name out = map fst imgs"
  by (auto simp: ImageController_List_def image_List_def containerd_images_def images_List_def bind_action_def lift_result_def
      split: prod.splits)

end
