(* ===== verification/Capsule_Portmap.thy ===== *)
theory Capsule_Portmap
  imports Capsule_Machine Capsule_Proto
begin

text \<open>
  Port mappings of microVMs, \<^verbatim>\<open>src/runtime/microvm/firecracker/portmap.go\<close>: rules are added
  and removed by running \<^verbatim>\<open>iptables\<close>, and found again by a comment in its printed listing.
  The tool is external; what the code relies on is the predicate \<open>iptables_ok\<close>.
\<close>

section \<open>Adding rules\<close>

definition iptables :: string where "iptables = ''/usr/sbin/iptables''"

definition portmapComment :: "string \<Rightarrow> string" where
  "portmapComment workload = ''capsule-vm:'' @ workload"

definition addIptablesRule :: "'w machine_ops \<Rightarrow> string \<Rightarrow> string \<Rightarrow> string list \<Rightarrow> ('w, unit) action" where
  "addIptablesRule M table chain body w =
    (case mo_exec M iptables ([''-t'', table, ''-C'', chain] @ body) w of (oc, w1) \<Rightarrow>
       if exec_error oc = None then (Inr (), w1)
       else (case mo_exec M iptables ([''-t'', table, ''-A'', chain] @ body) w1 of (oc2, w2) \<Rightarrow>
         (case exec_error oc2 of
            None \<Rightarrow> (Inr (), w2)
          | Some e \<Rightarrow> (Inl (Wrap ''iptables -A'' e), w2))))"

definition comment_args :: "string \<Rightarrow> string list" where
  "comment_args comment = [''-m'', ''comment'', ''--comment'', comment]"

definition apply_port :: "'w machine_ops \<Rightarrow> string \<Rightarrow> string \<Rightarrow> port_mapping \<Rightarrow> ('w, unit) action" where
  "apply_port M comment guestIP p =
    (let proto0 = map to_lower (pm_protocol p); proto = (if proto0 = [] then ''tcp'' else proto0);
         host = pm_host_port p; ctr = pm_container_port p;
         to = guestIP @ '':'' @ itoa (unat ctr)
     in if host = 0 \<or> ctr = 0 then lift_result (Inl (Errorf ''host_port and container_port are both required''))
        else
          bind_action (wrap_action ''dnat prerouting'' (addIptablesRule M ''nat'' ''PREROUTING''
            ([''-p'', proto, ''--dport'', itoa (unat host), ''-j'', ''DNAT'', ''--to-destination'', to] @ comment_args comment))) (\<lambda>_.
          bind_action (wrap_action ''dnat output'' (addIptablesRule M ''nat'' ''OUTPUT''
            ([''-p'', proto, ''-d'', ''127.0.0.1'', ''--dport'', itoa (unat host), ''-j'', ''DNAT'', ''--to-destination'', to] @ comment_args comment))) (\<lambda>_.
          wrap_action ''forward accept'' (addIptablesRule M ''filter'' ''FORWARD''
            ([''-p'', proto, ''-d'', guestIP, ''--dport'', itoa (unat ctr), ''-j'', ''ACCEPT''] @ comment_args comment)))))"

fun apply_ports :: "'w machine_ops \<Rightarrow> string \<Rightarrow> string \<Rightarrow> port_mapping list \<Rightarrow> ('w, unit) action" where
  "apply_ports M comment guestIP [] = lift_result (Inr ())"
| "apply_ports M comment guestIP (p # ps) = bind_action (apply_port M comment guestIP p) (\<lambda>_. apply_ports M comment guestIP ps)"

definition applyPortMappings :: "'w machine_ops \<Rightarrow> string \<Rightarrow> string \<Rightarrow> port_mapping list \<Rightarrow> ('w, unit) action" where
  "applyPortMappings M workload guestIP ports = apply_ports M (portmapComment workload) guestIP ports"

section \<open>Finding and removing rules\<close>

text \<open>The loop of \<open>shellFields\<close>: \<open>cur\<close> is the field being built.\<close>

fun shell_loop :: "string \<Rightarrow> bool \<Rightarrow> string \<Rightarrow> string list" where
  "shell_loop [] inQuotes cur = (if cur \<noteq> [] then [cur] else [])"
| "shell_loop (c # s) inQuotes cur =
    (if c = CHR 0x22 then shell_loop s (\<not> inQuotes) cur
     else if c = CHR '' '' \<and> \<not> inQuotes then (if cur \<noteq> [] then [cur] else []) @ shell_loop s inQuotes []
     else shell_loop s inQuotes (cur @ [c]))"

definition shellFields :: "string \<Rightarrow> string list" where
  "shellFields s = shell_loop s False []"

text \<open>The lines of a \<open>bufio.Scanner\<close>: without the line end, a carriage return before it included, and without an empty last line.\<close>

definition strip_cr :: "string \<Rightarrow> string" where
  "strip_cr l = (if l \<noteq> [] \<and> last l = CHR 0x0D then butlast l else l)"

definition scan_lines :: "string \<Rightarrow> string list" where
  "scan_lines s = (let ls = split_on CHR 0x0A s in map strip_cr (if last ls = [] then butlast ls else ls))"

definition rule_of_line :: "string \<Rightarrow> string \<Rightarrow> string \<Rightarrow> string list option" where
  "rule_of_line chain comment line =
    (if \<not> str_contains line (CHR 0x22 # comment @ [CHR 0x22]) then None
     else (let fields = shellFields line in
       if length fields < 2 \<or> fields ! 0 \<noteq> ''-A'' \<or> fields ! 1 \<noteq> chain then None else Some (drop 2 fields)))"

definition findRulesWithComment :: "'w machine_ops \<Rightarrow> string \<Rightarrow> string \<Rightarrow> string \<Rightarrow> 'w \<Rightarrow> string list list \<times> 'w" where
  "findRulesWithComment M table chain comment w =
    (case mo_exec M iptables [''-t'', table, ''-S'', chain] w of (oc, w1) \<Rightarrow>
       (if exec_error oc \<noteq> None then [] else List.map_filter (rule_of_line chain comment) (scan_lines (exec_output oc)), w1))"

primrec delete_rules :: "'w machine_ops \<Rightarrow> string \<Rightarrow> string \<Rightarrow> string list list \<Rightarrow> 'w \<Rightarrow> 'w" where
  "delete_rules M table chain [] w = w"
| "delete_rules M table chain (r # rs) w =
    delete_rules M table chain rs (snd (mo_exec M iptables ([''-t'', table, ''-D'', chain] @ r) w))"

definition teardown_chain :: "'w machine_ops \<Rightarrow> string \<Rightarrow> string \<times> string \<Rightarrow> 'w \<Rightarrow> 'w" where
  "teardown_chain M comment tc w =
    (case findRulesWithComment M (fst tc) (snd tc) comment w of (rules, w1) \<Rightarrow> delete_rules M (fst tc) (snd tc) rules w1)"

definition portmap_chains :: "(string \<times> string) list" where
  "portmap_chains = [(''nat'', ''PREROUTING''), (''nat'', ''OUTPUT''), (''filter'', ''FORWARD'')]"

definition teardownPortMappings :: "'w machine_ops \<Rightarrow> string \<Rightarrow> 'w \<Rightarrow> 'w" where
  "teardownPortMappings M workload w = fold (teardown_chain M (portmapComment workload)) portmap_chains w"

section \<open>What the code relies on\<close>

text \<open>The printed form of a rule: the fields separated by spaces, those in quotes for which \<open>q\<close> holds.\<close>

definition print_field :: "(string \<Rightarrow> bool) \<Rightarrow> string \<Rightarrow> string" where
  "print_field q s = (if q s then CHR 0x22 # s @ [CHR 0x22] else s)"

definition print_rule :: "(string \<Rightarrow> bool) \<Rightarrow> string \<Rightarrow> string list \<Rightarrow> string" where
  "print_rule q chain r = ''-A '' @ chain @ concat (map (\<lambda>s. CHR '' '' # print_field q s) r)"

text \<open>A field that a listing shows unambiguously: not empty, without quotes and control characters.\<close>

definition field_ok :: "string \<Rightarrow> bool" where
  "field_ok s \<longleftrightarrow> s \<noteq> [] \<and> (\<forall>c\<in>set s. c \<noteq> CHR 0x22 \<and> c \<noteq> CHR 0x0A \<and> c \<noteq> CHR 0x0D)"

type_synonym 'w chains = "'w \<Rightarrow> string \<times> string \<Rightarrow> string list list"

text \<open>
  The rules of a chain are kept in a canonical form, in which the fields are printed. Checking
  changes nothing and tells whether the rule is there; appending adds the rule at the end or fails;
  deleting removes its first occurrence; listing prints the chain's policy and its rules. Fields with a space and
  comments with a colon are printed in quotes.
\<close>

definition ipt_check :: "'w machine_ops \<Rightarrow> 'w chains \<Rightarrow> (string list \<Rightarrow> string list) \<Rightarrow> bool" where
  "ipt_check M rules canon \<longleftrightarrow> (\<forall>t c b w oc w1. mo_exec M iptables ([''-t'', t, ''-C'', c] @ b) w = (oc, w1) \<longrightarrow>
     rules w1 = rules w \<and> (exec_error oc = None \<longleftrightarrow> canon b \<in> set (rules w (t, c))))"

definition ipt_append :: "'w machine_ops \<Rightarrow> 'w chains \<Rightarrow> (string list \<Rightarrow> string list) \<Rightarrow> bool" where
  "ipt_append M rules canon \<longleftrightarrow> (\<forall>t c b w oc w1. mo_exec M iptables ([''-t'', t, ''-A'', c] @ b) w = (oc, w1) \<longrightarrow>
     rules w1 = (if exec_error oc = None then (rules w)((t, c) := rules w (t, c) @ [canon b]) else rules w))"

definition ipt_delete :: "'w machine_ops \<Rightarrow> 'w chains \<Rightarrow> (string list \<Rightarrow> string list) \<Rightarrow> bool" where
  "ipt_delete M rules canon \<longleftrightarrow> (\<forall>t c b w. rules (snd (mo_exec M iptables ([''-t'', t, ''-D'', c] @ b) w)) =
     (rules w)((t, c) := remove1 (canon b) (rules w (t, c))))"

definition ipt_list :: "'w machine_ops \<Rightarrow> 'w chains \<Rightarrow> (string \<Rightarrow> bool) \<Rightarrow> bool" where
  "ipt_list M rules q \<longleftrightarrow> (\<forall>t c w oc w1. mo_exec M iptables [''-t'', t, ''-S'', c] w = (oc, w1) \<longrightarrow>
     rules w1 = rules w \<and> exec_error oc = None \<and>
     exec_output oc = concat (map (\<lambda>l. l @ [CHR 0x0A]) ((''-P '' @ c @ '' ACCEPT'') # map (print_rule q c) (rules w (t, c)))))"

definition ipt_form :: "'w chains \<Rightarrow> (string list \<Rightarrow> string list) \<Rightarrow> (string \<Rightarrow> bool) \<Rightarrow> bool" where
  "ipt_form rules canon q \<longleftrightarrow> (\<forall>w tc. \<forall>r\<in>set (rules w tc). canon r = r \<and> list_all field_ok r) \<and>
    (\<forall>b s. s \<in> set b \<longrightarrow> has_prefix s ''capsule-vm:'' \<longrightarrow> field_ok s \<longrightarrow> s \<in> set (canon b)) \<and>
    (\<forall>s. \<not> q s \<longrightarrow> CHR '' '' \<notin> set s) \<and> (\<forall>s. has_prefix s ''capsule-vm:'' \<longrightarrow> q s)"

definition iptables_ok :: "'w machine_ops \<Rightarrow> 'w chains \<Rightarrow> (string list \<Rightarrow> string list) \<Rightarrow> (string \<Rightarrow> bool) \<Rightarrow> bool" where
  "iptables_ok M rules canon q \<longleftrightarrow>
    ipt_check M rules canon \<and> ipt_append M rules canon \<and> ipt_delete M rules canon \<and> ipt_list M rules q \<and> ipt_form rules canon q"

text \<open>A rule tagged for a workload: its printed form shows the quoted comment.\<close>

definition tagged :: "(string \<Rightarrow> bool) \<Rightarrow> string \<Rightarrow> string \<Rightarrow> string list \<Rightarrow> bool" where
  "tagged q workload chain r \<longleftrightarrow> str_contains (print_rule q chain r) (CHR 0x22 # portmapComment workload @ [CHR 0x22])"

section \<open>A listing reads back\<close>

lemma shell_plain:
  "CHR 0x22 \<notin> set t \<Longrightarrow> CHR '' '' \<notin> set t \<Longrightarrow> shell_loop (t @ s) False cur = shell_loop s False (cur @ t)"
  by (induction t arbitrary: cur) auto

lemma shell_inside: "CHR 0x22 \<notin> set t \<Longrightarrow> shell_loop (t @ CHR 0x22 # s) True cur = shell_loop s False (cur @ t)"
  by (induction t arbitrary: cur) auto

lemma shell_print_field:
  "field_ok t \<Longrightarrow> (\<not> q t \<longrightarrow> CHR '' '' \<notin> set t) \<Longrightarrow> shell_loop (print_field q t @ s) False cur = shell_loop s False (cur @ t)"
  using shell_plain [of t s cur] shell_inside [of t s cur] by (auto simp: field_ok_def print_field_def)

lemma shell_fields:
  assumes "list_all field_ok r" "\<forall>t. \<not> q t \<longrightarrow> CHR '' '' \<notin> set t" "cur \<noteq> []"
  shows "shell_loop (concat (map (\<lambda>s. CHR '' '' # print_field q s) r)) False cur = cur # r"
  using assms
proof (induction r arbitrary: cur)
  case (Cons t r)
  then have "t \<noteq> []" by (simp add: field_ok_def)
  have "shell_loop (concat (map (\<lambda>s. CHR '' '' # print_field q s) (t # r))) False cur =
      cur # shell_loop (print_field q t @ concat (map (\<lambda>s. CHR '' '' # print_field q s) r)) False []"
    using Cons.prems(3) by simp
  also have "\<dots> = cur # shell_loop (concat (map (\<lambda>s. CHR '' '' # print_field q s) r)) False t"
    using Cons.prems shell_print_field [of t q _ "[]"] by simp
  also have "\<dots> = cur # t # r" using Cons \<open>t \<noteq> []\<close> by simp
  finally show ?case .
qed simp

lemma shellFields_print:
  assumes "list_all field_ok r" "\<forall>t. \<not> q t \<longrightarrow> CHR '' '' \<notin> set t" "(t, chain) \<in> set portmap_chains"
  shows "shellFields (print_rule q chain r) = ''-A'' # chain # r"
proof -
  have c: "CHR 0x22 \<notin> set chain" "CHR '' '' \<notin> set chain" "chain \<noteq> []"
    using assms(3) by (auto simp: portmap_chains_def)
  have "shellFields (print_rule q chain r) = ''-A'' # shell_loop (chain @ concat (map (\<lambda>s. CHR '' '' # print_field q s) r)) False []"
    by (simp add: shellFields_def print_rule_def)
  then show ?thesis using shell_plain [OF c(1,2), of _ "[]"] shell_fields [OF assms(1,2) c(3)] by simp
qed

lemma split_lines: "(\<And>l. l \<in> set ls \<Longrightarrow> c \<notin> set l) \<Longrightarrow> split_on c (concat (map (\<lambda>l. l @ [c]) ls)) = ls @ [[]]"
  by (induction ls) (simp_all add: split_on_append)

lemma scan_lines_concat:
  assumes "\<And>l. l \<in> set ls \<Longrightarrow> CHR 0x0A \<notin> set l" "\<And>l. l \<in> set ls \<Longrightarrow> strip_cr l = l"
  shows "scan_lines (concat (map (\<lambda>l. l @ [CHR 0x0A]) ls)) = ls"
proof -
  have "split_on CHR 0x0A (concat (map (\<lambda>l. l @ [CHR 0x0A]) ls)) = ls @ [[]]" by (rule split_lines) (rule assms(1))
  then show ?thesis using assms(2) by (simp add: scan_lines_def map_idI)
qed

lemma print_rule_chars:
  assumes "list_all field_ok r" "(t, chain) \<in> set portmap_chains"
  shows "CHR 0x0A \<notin> set (print_rule q chain r)" "strip_cr (print_rule q chain r) = print_rule q chain r"
proof -
  have f: "CHR 0x0A \<notin> set (print_field q s)" "CHR 0x0D \<notin> set (print_field q s)" if "s \<in> set r" for s
    using assms(1) that by (auto simp: list_all_iff field_ok_def print_field_def)
  have c: "CHR 0x0A \<notin> set chain" "CHR 0x0D \<notin> set chain" using assms(2) by (auto simp: portmap_chains_def)
  show "CHR 0x0A \<notin> set (print_rule q chain r)" using f c by (auto simp: print_rule_def)
  have cr: "CHR 0x0D \<notin> set (print_rule q chain r)" using f c by (auto simp: print_rule_def)
  have "print_rule q chain r \<noteq> []" by (simp add: print_rule_def)
  then show "strip_cr (print_rule q chain r) = print_rule q chain r" using cr last_in_set by (fastforce simp: strip_cr_def)
qed

section \<open>Teardown removes what was added\<close>

lemma fold_remove1_filter: "fold remove1 (filter P xs) xs = filter (\<lambda>x. \<not> P x) xs"
proof -
  have "fold remove1 (filter P xs) (ys @ xs) = ys @ filter (\<lambda>x. \<not> P x) xs" if "\<forall>y\<in>set ys. \<not> P y" for ys
    using that
  proof (induction xs arbitrary: ys)
    case (Cons x xs)
    show ?case
    proof (cases "P x")
      case True
      then have "remove1 x (ys @ x # xs) = ys @ xs" using Cons.prems by (simp add: remove1_append) (metis remove1_idem)
      then show ?thesis using True Cons by simp
    next
      case False
      then show ?thesis using Cons.IH [of "ys @ [x]"] Cons.prems by simp
    qed
  qed simp
  from this [of "[]"] show ?thesis by simp
qed

lemma delete_rules_rules:
  assumes "ipt_delete M rules canon" "\<And>r. r \<in> set rs \<Longrightarrow> canon r = r"
  shows "rules (delete_rules M t c rs w) = (rules w)((t, c) := fold remove1 rs (rules w (t, c)))"
  using assms(2)
proof (induction rs arbitrary: w)
  case (Cons r rs)
  have "rules (snd (mo_exec M iptables ([''-t'', t, ''-D'', c] @ r) w)) = (rules w)((t, c) := remove1 r (rules w (t, c)))"
    using assms(1) Cons.prems [of r] unfolding ipt_delete_def by (metis list.set_intros(1))
  then show ?case using Cons by (simp only: delete_rules.simps fold_simps list.set_intros fun_upd_same fun_upd_upd comp_apply)
qed simp

lemma map_filter_select:
  "\<forall>x\<in>set xs. f (g x) = (if P x then Some x else None) \<Longrightarrow> List.map_filter f (map g xs) = filter P xs"
  by (induction xs) (auto simp: List.map_filter_def)

lemma find_rules:
  assumes l: "ipt_list M rules q" and f: "ipt_form rules canon q" and tc: "(t, c) \<in> set portmap_chains"
    and r: "findRulesWithComment M t c (portmapComment workload) w = (rs, w1)"
  shows "rules w1 = rules w" "rs = filter (tagged q workload c) (rules w (t, c))"
proof -
  let ?n = "CHR 0x22 # portmapComment workload @ [CHR 0x22]"
  obtain oc w2 where e: "mo_exec M iptables [''-t'', t, ''-S'', c] w = (oc, w2)" by fastforce
  have o: "rules w2 = rules w" "exec_error oc = None"
    "exec_output oc = concat (map (\<lambda>l. l @ [CHR 0x0A]) ((''-P '' @ c @ '' ACCEPT'') # map (print_rule q c) (rules w (t, c))))"
    using l e unfolding ipt_list_def by blast+
  have ok: "list_all field_ok x" if "x \<in> set (rules w (t, c))" for x using f that unfolding ipt_form_def by blast
  have sc: "scan_lines (exec_output oc) = (''-P '' @ c @ '' ACCEPT'') # map (print_rule q c) (rules w (t, c))"
    unfolding o(3)
  proof (rule scan_lines_concat)
    fix x assume "x \<in> set ((''-P '' @ c @ '' ACCEPT'') # map (print_rule q c) (rules w (t, c)))"
    then consider "x = ''-P '' @ c @ '' ACCEPT''" | y where "y \<in> set (rules w (t, c))" "x = print_rule q c y" by auto
    then show "CHR 0x0A \<notin> set x" "strip_cr x = x"
      using tc print_rule_chars [OF ok tc] by (cases; auto simp: portmap_chains_def strip_cr_def)+
  qed
  have p: "rule_of_line c (portmapComment workload) (''-P '' @ c @ '' ACCEPT'') = None"
    using tc by (auto simp: portmap_chains_def rule_of_line_def shellFields_def Let_def)
  have "rule_of_line c (portmapComment workload) (print_rule q c x) = (if tagged q workload c x then Some x else None)"
    if "x \<in> set (rules w (t, c))" for x
    using shellFields_print [OF ok [OF that] _ tc] f unfolding ipt_form_def by (simp add: rule_of_line_def tagged_def Let_def)
  then have "List.map_filter (rule_of_line c (portmapComment workload)) (map (print_rule q c) (rules w (t, c))) =
      filter (tagged q workload c) (rules w (t, c))"
    by (intro map_filter_select) blast
  then show "rules w1 = rules w" "rs = filter (tagged q workload c) (rules w (t, c))"
    using r o(1,2) p by (auto simp: findRulesWithComment_def e sc List.map_filter_def)
qed

lemma teardown_chain_rules:
  assumes "iptables_ok M rules canon q" "(t, c) \<in> set portmap_chains"
  shows "rules (teardown_chain M (portmapComment workload) (t, c) w) =
    (rules w)((t, c) := filter (\<lambda>r. \<not> tagged q workload c r) (rules w (t, c)))"
proof -
  have ok: "ipt_list M rules q" "ipt_form rules canon q" "ipt_delete M rules canon" using assms(1) by (simp_all add: iptables_ok_def)
  obtain rs w1 where f: "findRulesWithComment M t c (portmapComment workload) w = (rs, w1)" by fastforce
  note r = find_rules [OF ok(1,2) assms(2) f]
  have "canon x = x" if "x \<in> set rs" for x
  proof -
    have "x \<in> set (rules w (t, c))" using that r(2) by simp
    then show ?thesis using ok(2) unfolding ipt_form_def by blast
  qed
  from delete_rules_rules [where M = M and rules = rules and rs = rs, OF ok(3) this] show ?thesis
    using r by (simp add: teardown_chain_def f fold_remove1_filter)
qed

text \<open>The rules without those of one workload.\<close>

definition without :: "(string \<Rightarrow> bool) \<Rightarrow> string \<Rightarrow> (string \<times> string \<Rightarrow> string list list) \<Rightarrow> string \<times> string \<Rightarrow> string list list" where
  "without q workload rs tc = (if tc \<in> set portmap_chains then filter (\<lambda>r. \<not> tagged q workload (snd tc) r) (rs tc) else rs tc)"

lemma teardown_rules:
  assumes "iptables_ok M rules canon q"
  shows "rules (teardownPortMappings M workload w) = without q workload (rules w)"
proof -
  have "rules (fold (teardown_chain M (portmapComment workload)) cs w) =
      (\<lambda>tc. if tc \<in> set cs then filter (\<lambda>r. \<not> tagged q workload (snd tc) r) (rules w tc) else rules w tc)"
    if "set cs \<subseteq> set portmap_chains" "distinct cs" for cs
    using that
  proof (induction cs arbitrary: w)
    case (Cons tc cs)
    obtain t c where tc: "tc = (t, c)" by (cases tc)
    have "(t, c) \<in> set portmap_chains" using Cons.prems(1) tc by simp
    from teardown_chain_rules [OF assms this] show ?case using Cons tc by (auto simp: fun_eq_iff)
  qed simp
  moreover have "distinct portmap_chains" by (simp add: portmap_chains_def)
  ultimately show ?thesis by (simp add: teardownPortMappings_def without_def fun_eq_iff)
qed

lemma str_contains_append: "str_contains t n \<Longrightarrow> str_contains (s @ t) n"
  by (induction s) simp_all

lemma str_contains_prefix: "str_contains (n @ t) n"
proof (cases "n @ t")
  case (Cons c s)
  then have "has_prefix (c # s) n" by (metis has_prefix_append)
  then show ?thesis unfolding Cons by simp
qed simp

lemma str_contains_iff: "str_contains s n \<longleftrightarrow> (\<exists>a b. s = a @ n @ b)"
proof
  assume "str_contains s n"
  then show "\<exists>a b. s = a @ n @ b"
  proof (induction s)
    case (Cons c s)
    then show ?case unfolding str_contains.simps has_prefix_iff by (metis append_Cons append_Nil)
  qed simp
qed (use str_contains_append str_contains_prefix in blast)

lemma commented_tagged:
  assumes "ipt_form rules canon q" "portmapComment workload \<in> set b" "field_ok (portmapComment workload)"
  shows "tagged q workload c (canon b)"
proof -
  have p: "has_prefix (portmapComment workload) ''capsule-vm:''" unfolding portmapComment_def by (rule has_prefix_append)
  then have "portmapComment workload \<in> set (canon b)" "q (portmapComment workload)" using assms unfolding ipt_form_def by blast+
  then obtain xs ys where "canon b = xs @ portmapComment workload # ys" by (meson split_list)
  then show ?thesis using \<open>q (portmapComment workload)\<close>
    unfolding tagged_def str_contains_iff print_rule_def print_field_def
    by (intro exI [of _ "''-A '' @ c @ concat (map (\<lambda>s. CHR '' '' # print_field q s) xs) @ '' ''"]
        exI [of _ "concat (map (\<lambda>s. CHR '' '' # print_field q s) ys)"]) (simp add: print_field_def)
qed

lemma without_add:
  "tagged q workload c r \<Longrightarrow> without q workload (rs((t, c) := rs (t, c) @ [r])) = without q workload rs" if "(t, c) \<in> set portmap_chains"
  using that by (auto simp: without_def fun_eq_iff)

lemma add_rule_without:
  assumes ok: "iptables_ok M rules canon q" and tc: "(t, c) \<in> set portmap_chains" and b: "portmapComment workload \<in> set b" "field_ok (portmapComment workload)"
  shows "keeps (\<lambda>w. without q workload (rules w) = R) (addIptablesRule M t c b)"
  unfolding keeps_def
proof (intro allI impI)
  fix w assume R: "without q workload (rules w) = R"
  obtain oc w1 where e: "mo_exec M iptables ([''-t'', t, ''-C'', c] @ b) w = (oc, w1)" by fastforce
  obtain oc2 w2 where e2: "mo_exec M iptables ([''-t'', t, ''-A'', c] @ b) w1 = (oc2, w2)" by fastforce
  have 1: "rules w1 = rules w" using ok e unfolding iptables_ok_def ipt_check_def by blast
  have 2: "rules w2 = (if exec_error oc2 = None then (rules w1)((t, c) := rules w1 (t, c) @ [canon b]) else rules w1)"
    using ok e2 unfolding iptables_ok_def ipt_append_def by blast
  have "tagged q workload c (canon b)" using ok b commented_tagged unfolding iptables_ok_def by blast
  then have "without q workload (rules w2) = R" using R 1 2 without_add [OF tc] by simp
  then show "without q workload (rules (snd (addIptablesRule M t c b w))) = R"
    using R 1 unfolding addIptablesRule_def e e2 prod.case by (simp split: option.split)
qed

lemma apply_ports_without:
  assumes "iptables_ok M rules canon q" "field_ok (portmapComment workload)"
  shows "keeps (\<lambda>w. without q workload (rules w) = R) (applyPortMappings M workload guestIP ports)"
proof -
  have c: "portmapComment workload \<in> set (xs @ comment_args (portmapComment workload))" for xs by (simp add: comment_args_def)
  have tc: "(''nat'', ''PREROUTING'') \<in> set portmap_chains" "(''nat'', ''OUTPUT'') \<in> set portmap_chains"
    "(''filter'', ''FORWARD'') \<in> set portmap_chains" by (simp_all add: portmap_chains_def)
  have "keeps (\<lambda>w. without q workload (rules w) = R) (apply_port M (portmapComment workload) guestIP p)" for p
  proof (cases "pm_host_port p = 0 \<or> pm_container_port p = 0")
    case True
    then show ?thesis by (simp add: apply_port_def Let_def keeps_lift)
  next
    case False
    then show ?thesis unfolding apply_port_def Let_def if_not_P [OF False]
      by (intro keeps_rules add_rule_without [OF assms(1)] tc c assms(2))
  qed
  then have "keeps (\<lambda>w. without q workload (rules w) = R) (apply_ports M (portmapComment workload) guestIP ports)"
    by (induction ports) (simp_all add: keeps_rules)
  then show ?thesis by (simp add: applyPortMappings_def)
qed


section \<open>An example firewall\<close>

type_synonym toy_tables = "((string \<times> string) \<times> string list list) list"

definition toy_get :: "toy_tables \<Rightarrow> string \<times> string \<Rightarrow> string list list" where
  "toy_get w tc = (case map_of w tc of None \<Rightarrow> [] | Some rs \<Rightarrow> rs)"

definition toy_rules :: "toy_tables chains" where
  "toy_rules w tc = filter (list_all field_ok) (toy_get w tc)"

definition toy_canon :: "string list \<Rightarrow> string list" where
  "toy_canon b = filter field_ok b"

definition toy_quoted :: "string \<Rightarrow> bool" where
  "toy_quoted s \<longleftrightarrow> CHR '' '' \<in> set s \<or> has_prefix s ''capsule-vm:''"

definition toy_iptables_run :: "string list \<Rightarrow> toy_tables \<Rightarrow> exec_outcome \<times> toy_tables" where
  "toy_iptables_run args w =
    (case args of
       _ # t # opt # c # b \<Rightarrow>
        if opt = ''-C'' then (if toy_canon b \<in> set (toy_rules w (t, c)) then ExecOk [] else ExecExit 1 [], w)
        else if opt = ''-A'' then (ExecOk [], AList.update (t, c) (toy_get w (t, c) @ [toy_canon b]) w)
        else if opt = ''-D'' then (ExecOk [], AList.update (t, c) (remove1 (toy_canon b) (toy_get w (t, c))) w)
        else (ExecOk (concat (map (\<lambda>l. l @ [CHR 0x0A]) ((''-P '' @ c @ '' ACCEPT'') # map (print_rule toy_quoted c) (toy_rules w (t, c))))), w)
     | _ \<Rightarrow> (ExecExit 2 [], w))"

definition toy_iptables :: "toy_tables machine_ops" where
  "toy_iptables = \<lparr>mo_exec = (\<lambda>_. toy_iptables_run), mo_blk = (\<lambda>_ _. BlkNoDevice)\<rparr>"

lemma toy_rules_update:
  "toy_rules (AList.update tc rs w) = (toy_rules w)(tc := filter (list_all field_ok) rs)"
  by (auto simp: toy_rules_def toy_get_def update_conv' fun_eq_iff)

lemma toy_canon_ok: "list_all field_ok (toy_canon b)"
  by (simp add: toy_canon_def list_all_iff)

lemma toy_rules_add: "filter (list_all field_ok) (toy_get w tc) = toy_rules w tc"
  by (simp add: toy_rules_def)

lemma toy_iptables_ok: "iptables_ok toy_iptables toy_rules toy_canon toy_quoted"
proof -
  have "ipt_delete toy_iptables toy_rules toy_canon"
    unfolding ipt_delete_def
    by (simp add: toy_iptables_def toy_iptables_run_def toy_rules_update filter_remove1 toy_canon_ok)
      (simp add: toy_rules_def)
  moreover have "ipt_form toy_rules toy_canon toy_quoted"
    by (auto simp: ipt_form_def toy_rules_def toy_canon_def toy_quoted_def list_all_iff intro!: filter_True)
  ultimately show ?thesis
    by (auto simp: iptables_ok_def ipt_check_def ipt_append_def ipt_list_def toy_iptables_def toy_iptables_run_def
        toy_rules_update toy_rules_add toy_canon_ok exec_error_def exec_output_def split: if_splits)
qed


end
