(* ===== verification/Capsule_Volume.thy ===== *)
theory Capsule_Volume
  imports Capsule_Workload Capsule_Machine
begin

text \<open>
  Volumes: \<^verbatim>\<open>src/core/volume/service.go\<close> and the request handlers of
  \<^verbatim>\<open>src/controllers/volume.go\<close>. A volume is a row of the store and a logical volume
  of the machine, and the service keeps the two in step.

  Commands are run through a parameter that takes the program and its arguments and
  acts on the machine's state; the block size ioctl is another. What the service relies on
  of LVM is the predicate \<open>lvm_contract\<close>.
\<close>

section \<open>Constants and errors\<close>

definition VGName :: string where "VGName = ''capsule''"

definition ThinPoolName :: string where "ThinPoolName = ''thinpool''"

definition VolPrefix :: string where "VolPrefix = ''vol-''"

definition DefaultSizeMiB :: "64 word" where "DefaultSizeMiB = 512"

definition MinSizeMiB :: "64 word" where "MinSizeMiB = 32"

definition MaxSizeMiB :: "64 word" where "MaxSizeMiB = 1024 * 1024"

definition ErrInUse :: go_error where
  "ErrInUse = Sentinel ''volume in use by one or more workloads''"

definition ErrShrink :: go_error where
  "ErrShrink = Sentinel ''cannot shrink volume (grow-only)''"

section \<open>The machine\<close>

definition HostPath :: "string \<Rightarrow> string" where
  "HostPath name = ''/dev/'' @ VGName @ ''/'' @ VolPrefix @ name"

definition LVName :: "string \<Rightarrow> string" where
  "LVName name = VolPrefix @ name"

definition word_text :: "64 word \<Rightarrow> string" where
  "word_text n = itoa (unat n)"

definition createVolumeLV :: "'l machine_ops \<Rightarrow> string \<Rightarrow> 64 word \<Rightarrow> ('l, unit) action" where
  "createVolumeLV M name sizeMiB l0 =
    (let lv = LVName name; dev = HostPath name in
     case mo_exec M ''/sbin/lvcreate''
            [''-V'', word_text sizeMiB @ ''M'', ''-T'', VGName @ ''/'' @ ThinPoolName, ''-n'', lv] l0 of
       (oc1, l1) \<Rightarrow>
        (case exec_error oc1 of
           Some e \<Rightarrow> (Inl (Wrap ''lvcreate'' e), l1)
         | None \<Rightarrow>
            (case mo_exec M ''/usr/sbin/mkfs.ext4'' [''-q'', ''-F'', dev] l1 of
               (oc2, l2) \<Rightarrow>
                (case exec_error oc2 of
                   None \<Rightarrow> (Inr (), l2)
                 | Some e2 \<Rightarrow>
                    (case mo_exec M ''/sbin/mkfs.ext4'' [''-q'', ''-F'', dev] l2 of
                       (oc3, l3) \<Rightarrow>
                        (case exec_error oc3 of
                           None \<Rightarrow> (Inr (), l3)
                         | Some e3 \<Rightarrow>
                            (case mo_exec M ''/sbin/lvremove'' [''-y'', VGName @ ''/'' @ lv] l3 of
                               (_, l4) \<Rightarrow> (Inl (Wrap ''mkfs.ext4'' e2), l4))))))))"

definition removeVolumeLV :: "'l machine_ops \<Rightarrow> string \<Rightarrow> ('l, unit) action" where
  "removeVolumeLV M name l0 =
    (let lv = VGName @ ''/'' @ LVName name in
     case mo_exec M ''/sbin/lvremove'' [''-y'', lv] l0 of
       (oc, l1) \<Rightarrow>
        (case exec_error oc of
           None \<Rightarrow> (Inr (), l1)
         | Some e \<Rightarrow>
            let msg = trim_space (exec_output oc) in
            if str_contains msg ''not found'' \<or> str_contains msg ''Failed to find'' then (Inr (), l1)
            else (Inl (Wrap ''lvremove'' e), l1)))"

text \<open>A failed tool of e2fsprogs: its error, and its exit code when it was started.\<close>

type_synonym ext4_error = "go_error \<times> int option"

fun run_ext4_from :: "'l machine_ops \<Rightarrow> string list \<Rightarrow> string \<Rightarrow> string list \<Rightarrow> 'l \<Rightarrow> (ext4_error + unit) \<times> 'l" where
  "run_ext4_from M [] bin args l = (Inl (Errorf ''not found in /usr/sbin or /sbin'', None), l)"
| "run_ext4_from M (prefix # rest) bin args l =
    (case mo_exec M (prefix @ bin) args l of
       (ExecOk _, l1) \<Rightarrow> (Inr (), l1)
     | (ExecExit n out, l1) \<Rightarrow> (Inl (Wrap bin (Errorf ''exit status''), Some n), l1)
     | (ExecFail t, l1) \<Rightarrow>
         if \<not> str_contains t ''no such file'' then (Inl (Wrap bin (Errorf t), None), l1)
         else run_ext4_from M rest bin args l1)"

definition runExt4Bin :: "'l machine_ops \<Rightarrow> string \<Rightarrow> string list \<Rightarrow> 'l \<Rightarrow> (ext4_error + unit) \<times> 'l" where
  "runExt4Bin M bin args = run_ext4_from M [''/usr/sbin/'', ''/sbin/''] bin args"

definition resizeVolumeLV :: "'l machine_ops \<Rightarrow> string \<Rightarrow> 64 word \<Rightarrow> ('l, unit) action" where
  "resizeVolumeLV M name newSizeMiB l0 =
    (let lv = VGName @ ''/'' @ LVName name; dev = HostPath name in
     case mo_exec M ''/sbin/lvresize'' [''-L'', word_text newSizeMiB @ ''M'', lv] l0 of
       (oc, l1) \<Rightarrow>
        (case exec_error oc of
           Some e \<Rightarrow> (Inl (Wrap ''lvresize'' e), l1)
         | None \<Rightarrow>
            let grow = (\<lambda>l2. case runExt4Bin M ''resize2fs'' [dev] l2 of
                         (Inl (e, _), l3) \<Rightarrow> (Inl (Wrap ''resize2fs'' e), l3)
                       | (Inr _, l3) \<Rightarrow> (Inr (), l3))
            in (case runExt4Bin M ''e2fsck'' [''-f'', ''-y'', dev] l1 of
                  (Inl (e, code), l2) \<Rightarrow>
                    if code = Some 1 then grow l2 else (Inl (Wrap ''e2fsck'' e), l2)
                | (Inr _, l2) \<Rightarrow> grow l2)))"

definition lvmReportedSize :: "'l machine_ops \<Rightarrow> string \<Rightarrow> 'l \<Rightarrow> 64 word option \<times> 'l" where
  "lvmReportedSize M path l0 =
    (case split_on CHR ''/'' path of
       [p0, p1, vg, lv] \<Rightarrow>
         if p0 \<noteq> [] \<or> p1 \<noteq> ''dev'' then (None, l0)
         else (case mo_exec M ''/sbin/lvs'' [''--units'', ''b'', ''--nosuffix'', ''--noheadings'',
                       ''-o'', ''lv_size'', vg @ ''/'' @ lv] l0 of
                 (ExecOk out, l1) \<Rightarrow> (map_option word_of_nat (parse_uint 64 (trim_space out)), l1)
               | (_, l1) \<Rightarrow> (None, l1))
     | _ \<Rightarrow> (None, l0))"

definition blockDeviceSize :: "'l machine_ops \<Rightarrow> string \<Rightarrow> 'l \<Rightarrow> 64 word \<times> 'l" where
  "blockDeviceSize M path l0 =
    (if path = [] then (0, l0)
     else case mo_blk M path l0 of
       BlkNoDevice \<Rightarrow> (0, l0)
     | BlkSize n \<Rightarrow> (n, l0)
     | BlkIoctlError \<Rightarrow>
        (case lvmReportedSize M path l0 of
           (Some n, l1) \<Rightarrow> (n, l1)
         | (None, l1) \<Rightarrow> (0, l1)))"

section \<open>Validation\<close>

definition validateName :: "string \<Rightarrow> unit result" where
  "validateName name =
    (if name = [] then Inl (Errorf ''volume name is required'')
     else if length name > 63 \<or> \<not> nameRE name
     then Inl (Errorf ''volume name is invalid (DNS-1123 label, <=63 chars)'')
     else Inr ())"

definition validateSize :: "64 word \<Rightarrow> unit result" where
  "validateSize sizeMiB =
    (if sizeMiB < MinSizeMiB then Inl (Errorf ''size MiB below minimum'')
     else if sizeMiB > MaxSizeMiB then Inl (Errorf ''size MiB above maximum'')
     else Inr ())"

section \<open>The service\<close>

record ('s, 'l) volume_service =
  vsv_volumes :: "'s volume_store"
  vsv_workloads :: "'s workload_store"
  vsv_machine :: "'l machine_ops"

record ('s, 'l) vstate =
  v_store :: 's
  v_machine :: 'l

definition in_vstore :: "('s, 'a) action \<Rightarrow> (('s, 'l) vstate, 'a) action" where
  "in_vstore f st = (case f (v_store st) of (x, s) \<Rightarrow> (x, st\<lparr>v_store := s\<rparr>))"

definition on_machine :: "('l \<Rightarrow> 'a \<times> 'l) \<Rightarrow> ('s, 'l) vstate \<Rightarrow> 'a \<times> ('s, 'l) vstate" where
  "on_machine f st = (case f (v_machine st) of (x, l) \<Rightarrow> (x, st\<lparr>v_machine := l\<rparr>))"

definition workload_mounts :: "workload \<Rightarrow> volume_mount list" where
  "workload_mounts w =
    (case wl_container w of None \<Rightarrow> [] | Some c \<Rightarrow> cs_mounts c) @
    (case wl_micro_vm w of None \<Rightarrow> [] | Some m \<Rightarrow> ms_mounts m)"

fun usersFromWorkloads :: "workload list \<Rightarrow> string \<Rightarrow> string list" where
  "usersFromWorkloads [] volume = []"
| "usersFromWorkloads (w # ws) volume =
    (if list_ex (\<lambda>m. vm_volume_name m = volume) (workload_mounts w)
     then wl_name w # usersFromWorkloads ws volume
     else usersFromWorkloads ws volume)"

definition refsTo :: "('s, 'l) volume_service \<Rightarrow> string \<Rightarrow> (('s, 'l) vstate, string list) action" where
  "refsTo svc name st =
    (case in_vstore (ws_List (vsv_workloads svc)) st of
       (Inl e, st1) \<Rightarrow> (Inl e, st1)
     | (Inr ws, st1) \<Rightarrow> (Inr (usersFromWorkloads ws name), st1))"

text \<open>A failed listing counts as no workloads.\<close>

definition list_or_empty :: "('s, 'l) volume_service \<Rightarrow> ('s, 'l) vstate \<Rightarrow> workload list \<times> ('s, 'l) vstate" where
  "list_or_empty svc st =
    (case in_vstore (ws_List (vsv_workloads svc)) st of (Inl _, st1) \<Rightarrow> ([], st1) | (Inr ws, st1) \<Rightarrow> (ws, st1))"

definition with_derived ::
  "('s, 'l) volume_service \<Rightarrow> workload list \<Rightarrow> volume \<Rightarrow> ('s, 'l) vstate \<Rightarrow> volume \<times> ('s, 'l) vstate" where
  "with_derived svc ws v st =
    (case on_machine (blockDeviceSize (vsv_machine svc) (vol_host_path v)) st of
       (n, st1) \<Rightarrow> (v\<lparr>vol_mounted_by := usersFromWorkloads ws (vol_name v), vol_size_bytes := n\<rparr>, st1))"

definition populateDerived ::
  "('s, 'l) volume_service \<Rightarrow> volume \<Rightarrow> ('s, 'l) vstate \<Rightarrow> volume \<times> ('s, 'l) vstate" where
  "populateDerived svc v st = (case list_or_empty svc st of (ws, st1) \<Rightarrow> with_derived svc ws v st1)"

definition volume_Create ::
  "('s, 'l) volume_service \<Rightarrow> int \<Rightarrow> string \<Rightarrow> 64 word \<Rightarrow> (('s, 'l) vstate, volume) action" where
  "volume_Create svc now name reqSize st0 =
    (let sizeMiB = (if reqSize = 0 then DefaultSizeMiB else reqSize) in
     case validateName name of
       Inl e \<Rightarrow> (Inl e, st0)
     | Inr _ \<Rightarrow>
     (case validateSize sizeMiB of
       Inl e \<Rightarrow> (Inl e, st0)
     | Inr _ \<Rightarrow>
     (case in_vstore (vs_Get (vsv_volumes svc) name) st0 of
       (Inr _, st1) \<Rightarrow> (Inl (Errorf ''volume already exists''), st1)
     | (Inl e, st1) \<Rightarrow>
        if \<not> errors_is e ErrNotFound then (Inl e, st1)
        else (case on_machine (createVolumeLV (vsv_machine svc) name sizeMiB) st1 of
           (Inl e, st2) \<Rightarrow> (Inl e, st2)
         | (Inr _, st2) \<Rightarrow>
            let v = \<lparr>vol_name = name, vol_size_bytes = 0, vol_host_path = HostPath name,
                     vol_mounted_by = [], vol_created_at_unix = now\<rparr>
            in (case in_vstore (vs_Put (vsv_volumes svc) v) st2 of
                  (Inl e, st3) \<Rightarrow> (Inl e, snd (on_machine (removeVolumeLV (vsv_machine svc) name) st3))
                | (Inr _, st3) \<Rightarrow> (Inr v, st3))))))"

definition volume_Get :: "('s, 'l) volume_service \<Rightarrow> string \<Rightarrow> (('s, 'l) vstate, volume) action" where
  "volume_Get svc name st0 =
    (case in_vstore (vs_Get (vsv_volumes svc) name) st0 of
       (Inl e, st1) \<Rightarrow> (Inl e, st1)
     | (Inr v, st1) \<Rightarrow> (case populateDerived svc v st1 of (v', st2) \<Rightarrow> (Inr v', st2)))"

fun derive_all ::
  "('s, 'l) volume_service \<Rightarrow> workload list \<Rightarrow> volume list \<Rightarrow> ('s, 'l) vstate \<Rightarrow> volume list \<times> ('s, 'l) vstate" where
  "derive_all svc ws [] st = ([], st)"
| "derive_all svc ws (v # vs) st =
    (case with_derived svc ws v st of (v', st1) \<Rightarrow>
       (case derive_all svc ws vs st1 of (vs', st2) \<Rightarrow> (v' # vs', st2)))"

definition volume_List :: "('s, 'l) volume_service \<Rightarrow> (('s, 'l) vstate, volume list) action" where
  "volume_List svc st0 =
    (case in_vstore (vs_List (vsv_volumes svc)) st0 of
       (Inl e, st1) \<Rightarrow> (Inl e, st1)
     | (Inr vs, st1) \<Rightarrow>
        (case list_or_empty svc st1 of (ws, st2) \<Rightarrow>
           (case derive_all svc ws vs st2 of (vs', st3) \<Rightarrow> (Inr vs', st3))))"

definition volume_Delete :: "('s, 'l) volume_service \<Rightarrow> string \<Rightarrow> bool \<Rightarrow> (('s, 'l) vstate, unit) action" where
  "volume_Delete svc name force st0 =
    (case in_vstore (vs_Get (vsv_volumes svc) name) st0 of
       (Inl e, st1) \<Rightarrow> if errors_is e ErrNotFound then (Inr (), st1) else (Inl e, st1)
     | (Inr v, st1) \<Rightarrow>
        (case refsTo svc name st1 of
           (Inl e, st2) \<Rightarrow> (Inl e, st2)
         | (Inr users, st2) \<Rightarrow>
            if users \<noteq> [] \<and> \<not> force then (Inl (Wrap [] ErrInUse), st2)
            else (case on_machine (removeVolumeLV (vsv_machine svc) name) st2 of
                    (Inl e, st3) \<Rightarrow> (Inl (Wrap ''lvremove'' e), st3)
                  | (Inr _, st3) \<Rightarrow> in_vstore (vs_Delete (vsv_volumes svc) name) st3)))"

definition volume_Resize ::
  "('s, 'l) volume_service \<Rightarrow> string \<Rightarrow> 64 word \<Rightarrow> (('s, 'l) vstate, volume) action" where
  "volume_Resize svc name newSizeMiB st0 =
    (case validateName name of
       Inl e \<Rightarrow> (Inl e, st0)
     | Inr _ \<Rightarrow>
     (case validateSize newSizeMiB of
       Inl e \<Rightarrow> (Inl e, st0)
     | Inr _ \<Rightarrow>
     (case in_vstore (vs_Get (vsv_volumes svc) name) st0 of
       (Inl e, st1) \<Rightarrow> (Inl e, st1)
     | (Inr v, st1) \<Rightarrow>
     (case refsTo svc name st1 of
       (Inl e, st2) \<Rightarrow> (Inl e, st2)
     | (Inr users, st2) \<Rightarrow>
        if users \<noteq> [] then (Inl (Wrap [] ErrInUse), st2)
        else
     (case on_machine (blockDeviceSize (vsv_machine svc) (vol_host_path v)) st2 of
       (current, st3) \<Rightarrow>
        let want = newSizeMiB * 1024 * 1024;
            finish = (\<lambda>st. case populateDerived svc v st of (v', st') \<Rightarrow> (Inr v', st')) in
        if want < current then (Inl (Wrap [] ErrShrink), st3)
        else if want = current then finish st3
        else (case on_machine (resizeVolumeLV (vsv_machine svc) name newSizeMiB) st3 of
                (Inl e, st4) \<Rightarrow> (Inl e, st4)
              | (Inr _, st4) \<Rightarrow> finish st4))))))"

definition volume_Exists :: "('s, 'l) volume_service \<Rightarrow> string \<Rightarrow> (('s, 'l) vstate, bool) action" where
  "volume_Exists svc name st0 =
    (case in_vstore (vs_Get (vsv_volumes svc) name) st0 of
       (Inl e, st1) \<Rightarrow> if errors_is e ErrNotFound then (Inr False, st1) else (Inl e, st1)
     | (Inr _, st1) \<Rightarrow> (Inr True, st1))"

section \<open>Request handlers\<close>

definition VolumeController_Create ::
  "('s, 'l) volume_service \<Rightarrow> int \<Rightarrow> string \<Rightarrow> 64 word \<Rightarrow> (('s, 'l) vstate, volume) action" where
  "VolumeController_Create svc now name size_mib st =
    (case volume_Create svc now name size_mib st of
       (Inl e, st1) \<Rightarrow> (Inl (Status InvalidArgument (error_text e)), st1)
     | (Inr v, st1) \<Rightarrow> (Inr v, st1))"

definition VolumeController_Get :: "('s, 'l) volume_service \<Rightarrow> string \<Rightarrow> (('s, 'l) vstate, volume) action" where
  "VolumeController_Get svc name st =
    (case volume_Get svc name st of
       (Inl e, st1) \<Rightarrow>
         (Inl (if errors_is e ErrNotFound then Status NotFound ''volume not found''
               else Status Internal (error_text e)), st1)
     | (Inr v, st1) \<Rightarrow> (Inr v, st1))"

definition VolumeController_List :: "('s, 'l) volume_service \<Rightarrow> (('s, 'l) vstate, volume list) action" where
  "VolumeController_List svc st =
    (case volume_List svc st of
       (Inl e, st1) \<Rightarrow> (Inl (Status Internal (error_text e)), st1)
     | (Inr vs, st1) \<Rightarrow> (Inr vs, st1))"

definition VolumeController_Delete ::
  "('s, 'l) volume_service \<Rightarrow> string \<Rightarrow> bool \<Rightarrow> (('s, 'l) vstate, unit) action" where
  "VolumeController_Delete svc name force st =
    (case volume_Delete svc name force st of
       (Inl e, st1) \<Rightarrow>
         (Inl (if errors_is e ErrInUse then Status FailedPrecondition (error_text e)
               else Status Internal (error_text e)), st1)
     | (Inr _, st1) \<Rightarrow> (Inr (), st1))"

definition VolumeController_Resize ::
  "('s, 'l) volume_service \<Rightarrow> string \<Rightarrow> 64 word \<Rightarrow> (('s, 'l) vstate, volume) action" where
  "VolumeController_Resize svc name new_size_mib st =
    (case volume_Resize svc name new_size_mib st of
       (Inl e, st1) \<Rightarrow>
         (Inl (if errors_is e ErrNotFound then Status NotFound ''volume not found''
               else if errors_is e ErrInUse then Status FailedPrecondition (error_text e)
               else if errors_is e ErrShrink then Status InvalidArgument (error_text e)
               else Status Internal (error_text e)), st1)
     | (Inr v, st1) \<Rightarrow> (Inr v, st1))"

section \<open>What the service relies on\<close>

text \<open>The logical volumes of the group by name, with their size in MiB, and what the LVM tools do to
  them: a successful \<open>lvcreate\<close> adds a volume that was absent, a successful \<open>lvremove\<close>
  removes one, a successful \<open>lvresize\<close> sets the size of one that exists; a failing command changes
  nothing and \<open>lvremove\<close> complains about a missing volume only when it is missing; no other
  program the service runs changes the volumes; and the device of a volume reports its size.\<close>

definition lv_tools :: "string list" where
  "lv_tools = [''/sbin/lvcreate'', ''/sbin/lvremove'', ''/sbin/lvresize'']"

definition lvm_contract :: "'l machine_ops \<Rightarrow> ('l \<Rightarrow> string \<Rightarrow> nat option) \<Rightarrow> bool" where
  "lvm_contract M vols \<longleftrightarrow>
    (\<forall>n lv l oc l'. mo_exec M ''/sbin/lvcreate'' [''-V'', word_text n @ ''M'', ''-T'', ''capsule/thinpool'', ''-n'', lv] l =
        (oc, l') \<longrightarrow>
      (if exec_error oc = None then vols l lv = None \<and> vols l' = (vols l)(lv \<mapsto> unat n) else vols l' = vols l)) \<and>
    (\<forall>lv l oc l'. mo_exec M ''/sbin/lvremove'' [''-y'', ''capsule/'' @ lv] l = (oc, l') \<longrightarrow>
      (if exec_error oc = None then vols l' = (vols l)(lv := None)
       else vols l' = vols l \<and>
         (str_contains (trim_space (exec_output oc)) ''not found'' \<or>
          str_contains (trim_space (exec_output oc)) ''Failed to find'' \<longrightarrow> vols l lv = None))) \<and>
    (\<forall>n lv l oc l'. mo_exec M ''/sbin/lvresize'' [''-L'', word_text n @ ''M'', ''capsule/'' @ lv] l = (oc, l') \<longrightarrow>
      (if exec_error oc = None then vols l lv \<noteq> None \<and> vols l' = (vols l)(lv \<mapsto> unat n) else vols l' = vols l)) \<and>
    (\<forall>prog args l. prog \<notin> set lv_tools \<longrightarrow> vols (snd (mo_exec M prog args l)) = vols l) \<and>
    (\<forall>lv n l. vols l lv = Some n \<longrightarrow> mo_blk M (''/dev/capsule/'' @ lv) l = BlkSize (word_of_nat (n * 1048576)))"

text \<open>Removing a volume that exists works.\<close>

definition lvremove_works :: "'l machine_ops \<Rightarrow> ('l \<Rightarrow> string \<Rightarrow> nat option) \<Rightarrow> bool" where
  "lvremove_works M vols \<longleftrightarrow>
    (\<forall>lv l. vols l lv \<noteq> None \<longrightarrow> exec_error (fst (mo_exec M ''/sbin/lvremove'' [''-y'', ''capsule/'' @ lv] l)) = None)"

lemma names_unfold: "VGName @ ''/'' @ s = ''capsule/'' @ s" "VGName @ ''/'' @ ThinPoolName = ''capsule/thinpool''"
  "HostPath name = ''/dev/capsule/'' @ LVName name"
  by (simp_all add: VGName_def ThinPoolName_def HostPath_def LVName_def VolPrefix_def)

lemma other_prog:
  assumes "lvm_contract M vols" "prog \<notin> set lv_tools" "mo_exec M prog args l = (oc, l')"
  shows "vols l' = vols l"
  using assms unfolding lvm_contract_def by (metis snd_conv)

text \<open>Creating a logical volume: all or nothing.\<close>

lemma createVolumeLV_outcome:
  assumes C: "lvm_contract M vols" "lvremove_works M vols" and run: "createVolumeLV M name n l = (r, l')"
  shows "case r of Inl e \<Rightarrow> vols l' = vols l
    | Inr _ \<Rightarrow> vols l (LVName name) = None \<and> vols l' = (vols l)(LVName name \<mapsto> unat n)"
proof -
  let ?lv = "LVName name"
  obtain oc1 l1 where 1: "mo_exec M ''/sbin/lvcreate''
      [''-V'', word_text n @ ''M'', ''-T'', ''capsule/thinpool'', ''-n'', ?lv] l = (oc1, l1)" by fastforce
  obtain oc2 l2 where 2: "mo_exec M ''/usr/sbin/mkfs.ext4'' [''-q'', ''-F'', HostPath name] l1 = (oc2, l2)" by fastforce
  obtain oc3 l3 where 3: "mo_exec M ''/sbin/mkfs.ext4'' [''-q'', ''-F'', HostPath name] l2 = (oc3, l3)" by fastforce
  obtain oc4 l4 where 4: "mo_exec M ''/sbin/lvremove'' [''-y'', ''capsule/'' @ ?lv] l3 = (oc4, l4)" by fastforce
  have run': "(r, l') = (case exec_error oc1 of Some e \<Rightarrow> (Inl (Wrap ''lvcreate'' e), l1) | None \<Rightarrow>
      (case exec_error oc2 of None \<Rightarrow> (Inr (), l2) | Some e2 \<Rightarrow>
        (case exec_error oc3 of None \<Rightarrow> (Inr (), l3) | Some e3 \<Rightarrow> (Inl (Wrap ''mkfs.ext4'' e2), l4))))"
    using run unfolding createVolumeLV_def Let_def names_unfold(2)
    unfolding names_unfold(1) 1 2 3 4 prod.case by (rule sym)
  have v1: "if exec_error oc1 = None then vols l ?lv = None \<and> vols l1 = (vols l)(?lv \<mapsto> unat n) else vols l1 = vols l"
    using C(1) 1 unfolding lvm_contract_def by blast
  have v23: "vols l2 = vols l1" "vols l3 = vols l2"
    using other_prog [OF C(1) _ 2] other_prog [OF C(1) _ 3] by (simp_all add: lv_tools_def)
  have v4: "vols l3 ?lv \<noteq> None \<Longrightarrow> vols l4 = (vols l3)(?lv := None)"
    using C 4 unfolding lvm_contract_def lvremove_works_def by (metis fst_conv)
  show ?thesis
  proof (cases "exec_error oc1")
    case None
    then have "vols l ?lv = None" "vols l1 = (vols l)(?lv \<mapsto> unat n)" using v1 by simp_all
    then have "vols l4 = vols l" using v4 v23 by (simp add: fun_upd_idem)
    then show ?thesis
      using run' None v1 v23 by (cases "exec_error oc2"; cases "exec_error oc3") auto
  qed (use run' v1 in auto)
qed

lemma removeVolumeLV_outcome:
  assumes C: "lvm_contract M vols" and run: "removeVolumeLV M name l = (r, l')"
  shows "case r of Inl e \<Rightarrow> vols l' = vols l | Inr _ \<Rightarrow> vols l' = (vols l)(LVName name := None)"
proof -
  obtain oc l1 where 1: "mo_exec M ''/sbin/lvremove'' [''-y'', ''capsule/'' @ LVName name] l = (oc, l1)" by fastforce
  have v: "if exec_error oc = None then vols l1 = (vols l)(LVName name := None)
       else vols l1 = vols l \<and> (str_contains (trim_space (exec_output oc)) ''not found'' \<or>
          str_contains (trim_space (exec_output oc)) ''Failed to find'' \<longrightarrow> vols l (LVName name) = None)"
    using C 1 unfolding lvm_contract_def by blast
  have idem: "vols l (LVName name) = None \<Longrightarrow> (vols l)(LVName name := None) = vols l" by (rule fun_upd_idem)
  show ?thesis
    using run v idem unfolding removeVolumeLV_def Let_def names_unfold(1) 1 prod.case
    by (cases "exec_error oc") (auto split: if_splits)
qed

lemma runExt4Bin_outcome:
  assumes "lvm_contract M vols" "bin = ''e2fsck'' \<or> bin = ''resize2fs''" "runExt4Bin M bin args l = (r, l')"
  shows "vols l' = vols l"
proof -
  have np: "''/usr/sbin/'' @ bin \<notin> set lv_tools" "''/sbin/'' @ bin \<notin> set lv_tools"
    using assms(2) by (auto simp: lv_tools_def)
  obtain oc1 l1 where 1: "mo_exec M (''/usr/sbin/'' @ bin) args l = (oc1, l1)" by fastforce
  obtain oc2 l2 where 2: "mo_exec M (''/sbin/'' @ bin) args l1 = (oc2, l2)" by fastforce
  have "l' = l1 \<or> l' = l2"
    using assms(3) unfolding runExt4Bin_def run_ext4_from.simps 1 2 prod.case
    by (auto split: exec_outcome.splits if_splits)
  then show ?thesis using other_prog [OF assms(1) np(1) 1] other_prog [OF assms(1) np(2) 2] by auto
qed

lemma resizeVolumeLV_outcome:
  assumes C: "lvm_contract M vols" and run: "resizeVolumeLV M name n l = (r, l')"
  shows "case r of
      Inl e \<Rightarrow> vols l' = vols l \<or> vols l (LVName name) \<noteq> None \<and> vols l' = (vols l)(LVName name \<mapsto> unat n)
    | Inr _ \<Rightarrow> vols l (LVName name) \<noteq> None \<and> vols l' = (vols l)(LVName name \<mapsto> unat n)"
proof -
  obtain oc l1 where 1: "mo_exec M ''/sbin/lvresize'' [''-L'', word_text n @ ''M'', ''capsule/'' @ LVName name] l = (oc, l1)"
    by fastforce
  obtain r2 l2 where 2: "runExt4Bin M ''e2fsck'' [''-f'', ''-y'', HostPath name] l1 = (r2, l2)" by fastforce
  obtain r3 l3 where 3: "runExt4Bin M ''resize2fs'' [HostPath name] l2 = (r3, l3)" by fastforce
  have v: "if exec_error oc = None then vols l (LVName name) \<noteq> None \<and> vols l1 = (vols l)(LVName name \<mapsto> unat n)
      else vols l1 = vols l"
    using C 1 unfolding lvm_contract_def by blast
  have v23: "vols l2 = vols l1" "vols l3 = vols l1"
    using runExt4Bin_outcome [OF C _ 2] runExt4Bin_outcome [OF C _ 3] by simp_all
  show ?thesis
    using run v v23 unfolding resizeVolumeLV_def Let_def names_unfold(1) 1 2 3 prod.case
    by (cases "exec_error oc"; cases r2; cases r3) (auto split: if_splits prod.splits)
qed

lemma blockDeviceSize_LV:
  assumes "lvm_contract M vols" "vols l (LVName name) = Some n"
  shows "blockDeviceSize M (HostPath name) l = (word_of_nat (n * 1048576), l)"
proof -
  have "mo_blk M (''/dev/capsule/'' @ LVName name) l = BlkSize (word_of_nat (n * 1048576))"
    using assms unfolding lvm_contract_def by blast
  then show ?thesis unfolding blockDeviceSize_def names_unfold(3) by simp
qed

lemma blockDeviceSize_vols:
  assumes "lvm_contract M vols" "blockDeviceSize M path l = (n, l')"
  shows "vols l' = vols l"
proof -
  have lvs: "vols l1 = vols l" if "lvmReportedSize M path l = (x, l1)" for x l1
  proof -
    have "''/sbin/lvs'' \<notin> set lv_tools" by (simp add: lv_tools_def)
    then have "vols (snd (mo_exec M ''/sbin/lvs'' args l)) = vols l" for args
      using assms(1) unfolding lvm_contract_def by blast
    then show ?thesis
      using that unfolding lvmReportedSize_def
      by (auto split: list.splits if_splits prod.splits exec_outcome.splits) (metis snd_conv)+
  qed
  show ?thesis
    using assms(2) lvs unfolding blockDeviceSize_def
    by (auto split: if_splits blk_outcome.splits prod.splits option.splits)
qed

section \<open>The store contract\<close>

definition mounts_volume :: "workload \<Rightarrow> string \<Rightarrow> bool" where
  "mounts_volume w name = list_ex (\<lambda>m. vm_volume_name m = name) (workload_mounts w)"

text \<open>A store of volumes beside a store of workloads. A write does what it should or fails and
  changes nothing.\<close>

locale volume_backend =
  fixes V :: "'s volume_store" and W :: "'s workload_store" and inv :: "'s \<Rightarrow> bool"
    and vrows :: "'s \<Rightarrow> string \<Rightarrow> volume option" and wrows :: "'s \<Rightarrow> string \<Rightarrow> workload option"
    and norm :: "'s \<Rightarrow> volume \<Rightarrow> volume"
  assumes v_get: "inv s \<Longrightarrow> vs_Get V k s = ((case vrows s k of None \<Rightarrow> Inl ErrNotFound | Some v \<Rightarrow> Inr v), s)"
    and v_put: "inv s \<Longrightarrow> vol_name v \<noteq> [] \<Longrightarrow>
      (\<exists>s'. vs_Put V v s = (Inr (), s') \<and> inv s' \<and> vrows s' = (vrows s)(vol_name v \<mapsto> norm s v) \<and>
         wrows s' = wrows s) \<or> (\<exists>e. vs_Put V v s = (Inl e, s))"
    and v_del: "inv s \<Longrightarrow>
      \<exists>s'. vs_Delete V k s = (Inr (), s') \<and> inv s' \<and> vrows s' = (vrows s)(k := None) \<and> wrows s' = wrows s"
    and w_list: "inv s \<Longrightarrow> \<exists>ws. ws_List W s = (Inr ws, s) \<and> set ws = ran (wrows s)"
    and norm_fields: "vol_host_path (norm s v) = vol_host_path v" "vol_name (norm s v) = vol_name v"
begin

definition in_use :: "'s \<Rightarrow> string \<Rightarrow> bool" where
  "in_use s name \<longleftrightarrow> (\<exists>k w. wrows s k = Some w \<and> mounts_volume w name)"

lemma get_row:
  "inv (v_store st) \<Longrightarrow> in_vstore (vs_Get V k) st =
     ((case vrows (v_store st) k of None \<Rightarrow> Inl ErrNotFound | Some v \<Rightarrow> Inr v), st)"
  by (simp add: in_vstore_def v_get)

lemma users_ne: "usersFromWorkloads ws name \<noteq> [] \<longleftrightarrow> (\<exists>w\<in>set ws. mounts_volume w name)"
  by (induction ws) (auto simp: mounts_volume_def)

lemma refs_eq:
  assumes "inv (v_store st)" "vsv_workloads svc = W"
  obtains users where "refsTo svc name st = (Inr users, st)" "users \<noteq> [] \<longleftrightarrow> in_use (v_store st) name"
proof -
  obtain ws where "ws_List W (v_store st) = (Inr ws, v_store st)" "set ws = ran (wrows (v_store st))"
    using w_list [OF assms(1)] by blast
  then show ?thesis
    using that [of "usersFromWorkloads ws name"] assms(2) users_ne [of ws name]
    by (auto simp: refsTo_def in_vstore_def in_use_def ran_def)
qed

text \<open>Create: on success both the row and the logical volume are new and everything else is as
  before; on failure, whatever the cause, nothing changed.\<close>

lemma Create_outcome:
  assumes svc: "vsv_volumes svc = V" "vsv_machine svc = M" and C: "lvm_contract M vols" "lvremove_works M vols"
    and inv: "inv (v_store st)" and run: "volume_Create svc now name sz st = (r, st')"
    and n: "n = (if sz = 0 then DefaultSizeMiB else sz)"
  shows "case r of
      Inl e \<Rightarrow> v_store st' = v_store st \<and> vols (v_machine st') = vols (v_machine st)
    | Inr v \<Rightarrow> validateName name = Inr () \<and> validateSize n = Inr () \<and>
        vrows (v_store st) name = None \<and> vols (v_machine st) (LVName name) = None \<and> inv (v_store st') \<and>
        vol_name v = name \<and> vol_host_path v = HostPath name \<and>
        vrows (v_store st') = (vrows (v_store st))(name \<mapsto> norm (v_store st) v) \<and>
        wrows (v_store st') = wrows (v_store st) \<and>
        vols (v_machine st') = (vols (v_machine st))(LVName name \<mapsto> unat n)"
proof (cases "validateName name = Inr () \<and> validateSize n = Inr () \<and> vrows (v_store st) name = None")
  case False
  then have "\<exists>e. r = Inl e \<and> st' = st"
    using run inv unfolding volume_Create_def Let_def svc n [symmetric]
    by (cases "validateName name"; cases "validateSize n"; cases "vrows (v_store st) name") (auto simp: get_row)
  then show ?thesis by auto
next
  case True
  define v where "v = \<lparr>vol_name = name, vol_size_bytes = 0, vol_host_path = HostPath name,
                     vol_mounted_by = [], vol_created_at_unix = now\<rparr>"
  have vn: "vol_name v = name" "vol_host_path v = HostPath name" "vol_name v \<noteq> []"
    using True by (auto simp: v_def validateName_def split: if_splits)
  obtain r1 l1 where mk: "createVolumeLV M name n (v_machine st) = (r1, l1)" by fastforce
  note c = createVolumeLV_outcome [OF C mk]
  have run': "(r, st') = (case r1 of Inl e \<Rightarrow> (Inl e, st\<lparr>v_machine := l1\<rparr>) | Inr _ \<Rightarrow>
      (case in_vstore (vs_Put V v) (st\<lparr>v_machine := l1\<rparr>) of
         (Inl e, st3) \<Rightarrow> (Inl e, snd (on_machine (removeVolumeLV M name) st3))
       | (Inr _, st3) \<Rightarrow> (Inr v, st3)))"
    using run True inv unfolding volume_Create_def Let_def svc n [symmetric] v_def
    by (simp add: get_row on_machine_def mk)
  show ?thesis
  proof (cases r1)
    case (Inl e)
    then show ?thesis using run' c by simp
  next
    case (Inr u)
    consider s' where "vs_Put V v (v_store st) = (Inr (), s')" "inv s'"
        "vrows s' = (vrows (v_store st))(name \<mapsto> norm (v_store st) v)" "wrows s' = wrows (v_store st)"
      | e where "vs_Put V v (v_store st) = (Inl e, v_store st)"
      using v_put [OF inv vn(3)] vn(1) by blast
    then show ?thesis
    proof cases
      case 1
      then show ?thesis using run' Inr c True vn by (simp add: in_vstore_def)
    next
      case (2 e)
      obtain r2 l2 where rm: "removeVolumeLV M name l1 = (r2, l2)" by fastforce
      have l1: "vols l1 = (vols (v_machine st))(LVName name \<mapsto> unat n)" "vols (v_machine st) (LVName name) = None"
        using c Inr by simp_all
      have "is_ok r2"
        using rm l1 C unfolding removeVolumeLV_def Let_def names_unfold(1) lvremove_works_def
        by (auto split: prod.splits option.splits if_splits) (metis fst_conv option.distinct(1) fun_upd_same)+
      then have "vols l2 = vols (v_machine st)"
        using removeVolumeLV_outcome [OF C(1) rm] l1 by (cases r2) (auto simp: fun_upd_idem)
      moreover have "(r, st') = (Inl e, st\<lparr>v_machine := l2\<rparr>)"
        using run' Inr 2 rm by (simp add: in_vstore_def on_machine_def)
      ultimately show ?thesis by simp
    qed
  qed
qed

text \<open>Delete: refused while a workload mounts the volume unless forced; otherwise volume and row go
  together, and a failing \<open>lvremove\<close> keeps both.\<close>

lemma Delete_outcome:
  assumes svc: "vsv_volumes svc = V" "vsv_workloads svc = W" "vsv_machine svc = M" and C: "lvm_contract M vols"
    and inv: "inv (v_store st)" and run: "volume_Delete svc name force st = (r, st')"
    and row: "vrows (v_store st) name = Some v"
  shows "if in_use (v_store st) name \<and> \<not> force then r = Inl (Wrap [] ErrInUse) \<and> st' = st
    else (case r of
        Inr _ \<Rightarrow> inv (v_store st') \<and> vrows (v_store st') = (vrows (v_store st))(name := None) \<and>
          wrows (v_store st') = wrows (v_store st) \<and>
          vols (v_machine st') = (vols (v_machine st))(LVName name := None)
      | Inl e \<Rightarrow> v_store st' = v_store st \<and> vols (v_machine st') = vols (v_machine st))"
proof -
  obtain users where u: "refsTo svc name st = (Inr users, st)" "users \<noteq> [] \<longleftrightarrow> in_use (v_store st) name"
    by (rule refs_eq [OF inv svc(2)])
  obtain r1 l1 where rm: "removeVolumeLV M name (v_machine st) = (r1, l1)" by fastforce
  note o = removeVolumeLV_outcome [OF C rm]
  have om: "on_machine (removeVolumeLV M name) st = (r1, st\<lparr>v_machine := l1\<rparr>)" by (simp add: on_machine_def rm)
  have run': "(r, st') = (if users \<noteq> [] \<and> \<not> force then (Inl (Wrap [] ErrInUse), st)
      else case r1 of Inl e \<Rightarrow> (Inl (Wrap ''lvremove'' e), st\<lparr>v_machine := l1\<rparr>)
        | Inr _ \<Rightarrow> in_vstore (vs_Delete V name) (st\<lparr>v_machine := l1\<rparr>))"
    using run unfolding volume_Delete_def svc get_row [OF inv] row option.simps prod.case sum.case u(1) om
    by (rule sym)
  obtain s' where "vs_Delete V name (v_store st) = (Inr (), s')" "inv s'"
      "vrows s' = (vrows (v_store st))(name := None)" "wrows s' = wrows (v_store st)"
    using v_del [OF inv, of name] by blast
  then show ?thesis
    using run' o u(2) by (cases r1) (auto simp: in_vstore_def split: if_splits)
qed

lemma Delete_absent:
  assumes "vsv_volumes svc = V" "inv (v_store st)" "vrows (v_store st) name = None"
  shows "volume_Delete svc name force st = (Inr (), st)"
  using assms by (simp add: volume_Delete_def get_row)

lemma populateDerived_outcome:
  assumes svc: "vsv_workloads svc = W" "vsv_machine svc = M" and C: "lvm_contract M vols"
    and inv: "inv (v_store st)" and run: "populateDerived svc v st = (v', st')"
  shows "v_store st' = v_store st \<and> vols (v_machine st') = vols (v_machine st) \<and> vol_name v' = vol_name v"
proof -
  obtain ws where ws: "ws_List W (v_store st) = (Inr ws, v_store st)"
    using w_list [OF inv] by blast
  obtain n l where b: "blockDeviceSize M (vol_host_path v) (v_machine st) = (n, l)" by fastforce
  show ?thesis
    using run blockDeviceSize_vols [OF C b]
    by (auto simp: populateDerived_def list_or_empty_def with_derived_def in_vstore_def on_machine_def svc ws b)
qed

lemma Resize_frame:
  assumes svc: "vsv_volumes svc = V" "vsv_workloads svc = W" "vsv_machine svc = M" and C: "lvm_contract M vols"
    and inv: "inv (v_store st)" and run: "volume_Resize svc name n st = (r, st')"
  shows "v_store st' = v_store st \<and> dom (vols (v_machine st')) = dom (vols (v_machine st))"
proof -
  obtain users where u: "refsTo svc name st = (Inr users, st)" by (rule refs_eq [OF inv svc(2)])
  have fin: "v_store st2 = v_store s1 \<and> dom (vols (v_machine st2)) = dom (vols (v_machine s1))"
    if "inv (v_store s1)" "(case populateDerived svc v s1 of (v', s2) \<Rightarrow> (Inr v', s2)) = (r, st2)" for v s1 st2
    using that populateDerived_outcome [OF svc(2,3) C that(1)]
    by (auto split: prod.splits)
  have grow: "v_store s2 = v_store s1 \<and> dom (vols (v_machine s2)) = dom (vols (v_machine s1))"
    if "on_machine (resizeVolumeLV M name n) s1 = (x, s2)" for x s1 s2
    using that resizeVolumeLV_outcome [OF C, of name n "v_machine s1" x]
    by (cases x) (auto simp: on_machine_def split: prod.splits if_splits)
  show ?thesis
  proof (cases "vrows (v_store st) name")
    case None
    then show ?thesis
      using run unfolding volume_Resize_def svc get_row [OF inv] by (auto split: sum.splits)
  next
    case (Some v)
    obtain cur s1 where b: "on_machine (blockDeviceSize M (vol_host_path v)) st = (cur, s1)" by fastforce
    then have s1: "v_store s1 = v_store st" "dom (vols (v_machine s1)) = dom (vols (v_machine st))"
      using blockDeviceSize_vols [OF C] by (auto simp: on_machine_def split: prod.splits)
    obtain x s2 where g: "on_machine (resizeVolumeLV M name n) s1 = (x, s2)" by fastforce
    have inv': "inv (v_store s1)" "inv (v_store s2)" using grow [OF g] s1 inv by simp_all
    have "st' = st \<or> st' = s1 \<or> st' = s2 \<or>
        (\<exists>v. (case populateDerived svc v s1 of (v', s2) \<Rightarrow> (Inr v', s2)) = (r, st')) \<or>
        (\<exists>v. (case populateDerived svc v s2 of (v', s2) \<Rightarrow> (Inr v', s2)) = (r, st'))"
      using run unfolding volume_Resize_def svc get_row [OF inv] Some option.simps Let_def u b g prod.case sum.case
      by (auto split: sum.splits if_splits)
    then show ?thesis using s1 grow [OF g] fin [OF inv'(1)] fin [OF inv'(2)] by metis
  qed
qed

text \<open>Resize: the record is never touched, and the logical volume keeps its size or grows to the
  requested one.\<close>

lemma Resize_outcome:
  assumes svc: "vsv_volumes svc = V" "vsv_workloads svc = W" "vsv_machine svc = M" and C: "lvm_contract M vols"
    and inv: "inv (v_store st)" and run: "volume_Resize svc name n st = (r, st')"
    and row: "vrows (v_store st) name = Some v" "vol_host_path v = HostPath name"
    and lv: "vols (v_machine st) (LVName name) = Some m" "m < 2 ^ 44"
  shows "v_store st' = v_store st \<and>
    (vols (v_machine st') = vols (v_machine st) \<or>
     vols (v_machine st') = (vols (v_machine st))(LVName name \<mapsto> unat n) \<and> m < unat n \<and>
       \<not> in_use (v_store st) name) \<and>
    (is_ok r \<longrightarrow> vols (v_machine st') (LVName name) = Some (unat n))"
proof (cases "validateName name = Inr () \<and> validateSize n = Inr () \<and> \<not> in_use (v_store st) name")
  case False
  obtain users where u: "refsTo svc name st = (Inr users, st)" "users \<noteq> [] \<longleftrightarrow> in_use (v_store st) name"
    by (rule refs_eq [OF inv svc(2)])
  have "\<exists>e. r = Inl e \<and> st' = st"
    using run False unfolding volume_Resize_def svc get_row [OF inv] row(1)
    by (cases "validateName name"; cases "validateSize n") (auto simp: u)
  then show ?thesis by auto
next
  case True
  obtain users where u: "refsTo svc name st = (Inr users, st)" "users \<noteq> [] \<longleftrightarrow> in_use (v_store st) name"
    by (rule refs_eq [OF inv svc(2)])
  have nn: "unat n \<le> 1048576"
    using True by (auto simp: validateSize_def MaxSizeMiB_def word_less_nat_alt split: if_splits)
  have want: "unat (n * 1024 * 1024) = unat n * 1048576"
    using nn by (simp add: unat_word_ariths)
  have cur: "unat (word_of_nat (m * 1048576) :: 64 word) = m * 1048576"
    unfolding unat_of_nat using lv(2) by simp
  obtain r1 l1 where rs: "resizeVolumeLV M name n (v_machine st) = (r1, l1)" by fastforce
  note o = resizeVolumeLV_outcome [OF C rs]
  have nu: "users \<noteq> [] \<longleftrightarrow> False" using u(2) True by simp
  have bd: "on_machine (blockDeviceSize M (HostPath name)) st = (word_of_nat (m * 1048576), st)"
    by (simp add: on_machine_def blockDeviceSize_LV [OF C lv(1)])
  have om: "on_machine (resizeVolumeLV M name n) st = (r1, st\<lparr>v_machine := l1\<rparr>)" by (simp add: on_machine_def rs)
  obtain v1 st1 where p1: "populateDerived svc v st = (v1, st1)" by fastforce
  obtain v2 st2 where p2: "populateDerived svc v (st\<lparr>v_machine := l1\<rparr>) = (v2, st2)" by fastforce
  have e1: "v_store st1 = v_store st \<and> vols (v_machine st1) = vols (v_machine st)"
    using populateDerived_outcome [OF svc(2,3) C inv p1] by simp
  have e2: "v_store st2 = v_store st \<and> vols (v_machine st2) = vols l1"
    using populateDerived_outcome [OF svc(2,3) C _ p2] inv by simp
  have cmp: "n * 1024 * 1024 < (word_of_nat (m * 1048576) :: 64 word) \<longleftrightarrow> unat n < m"
    "n * 1024 * 1024 = (word_of_nat (m * 1048576) :: 64 word) \<longleftrightarrow> unat n = m"
    unfolding word_less_nat_alt word_unat_eq_iff want cur by simp_all
  have run': "(r, st') = (if unat n < m then (Inl (Wrap [] ErrShrink), st)
      else if unat n = m then (Inr v1, st1)
      else case r1 of Inl e \<Rightarrow> (Inl e, st\<lparr>v_machine := l1\<rparr>) | Inr _ \<Rightarrow> (Inr v2, st2))"
    using run unfolding volume_Resize_def svc get_row [OF inv] row Let_def u(1) bd cmp om p1 p2
      option.simps prod.case sum.case conjunct1 [OF True] conjunct1 [OF conjunct2 [OF True]] nu if_False cmp
    by (simp add: p2 split: sum.splits prod.splits)
  then show ?thesis
    using True e1 e2 o lv(1) by (cases r1) (auto split: if_splits)
qed

end

section \<open>Rows and logical volumes stay in step\<close>

text \<open>Requests to the volume service, and anything that changes only workloads.\<close>

inductive vol_step ::
  "('s, 'l) volume_service \<Rightarrow> ('s \<Rightarrow> bool) \<Rightarrow> ('s \<Rightarrow> string \<Rightarrow> volume option) \<Rightarrow>
   ('s, 'l) vstate \<Rightarrow> ('s, 'l) vstate \<Rightarrow> bool" for svc inv vrows where
  step_create: "volume_Create svc now name sz st = (r, st') \<Longrightarrow> vol_step svc inv vrows st st'"
| step_delete: "volume_Delete svc name force st = (r, st') \<Longrightarrow> vol_step svc inv vrows st st'"
| step_resize: "volume_Resize svc name sz st = (r, st') \<Longrightarrow> vol_step svc inv vrows st st'"
| step_workloads: "inv s' \<Longrightarrow> vrows s' = vrows (v_store st) \<Longrightarrow> vol_step svc inv vrows st (st\<lparr>v_store := s'\<rparr>)"

inductive vol_reach ::
  "('s, 'l) volume_service \<Rightarrow> ('s \<Rightarrow> bool) \<Rightarrow> ('s \<Rightarrow> string \<Rightarrow> volume option) \<Rightarrow>
   ('s, 'l) vstate \<Rightarrow> ('s, 'l) vstate \<Rightarrow> bool" for svc inv vrows where
  vol_refl: "vol_reach svc inv vrows st st"
| vol_more: "vol_reach svc inv vrows st st' \<Longrightarrow> vol_step svc inv vrows st' st'' \<Longrightarrow> vol_reach svc inv vrows st st''"

definition in_sync :: "(string \<Rightarrow> volume option) \<Rightarrow> (string \<Rightarrow> nat option) \<Rightarrow> bool" where
  "in_sync rows vols \<longleftrightarrow> (\<forall>name. (rows name = None \<longleftrightarrow> vols (LVName name) = None) \<and>
     (\<forall>v. rows name = Some v \<longrightarrow> vol_host_path v = HostPath name))"

lemma LVName_inj [simp]: "LVName a = LVName b \<longleftrightarrow> a = b"
  by (simp add: LVName_def)

context volume_backend
begin

lemma sync_step:
  assumes step: "vol_step svc inv vrows st st'"
    and svc: "vsv_volumes svc = V" "vsv_workloads svc = W" "vsv_machine svc = M"
    and C: "lvm_contract M vols" "lvremove_works M vols"
    and inv: "inv (v_store st)" and sync: "in_sync (vrows (v_store st)) (vols (v_machine st))"
  shows "inv (v_store st') \<and> in_sync (vrows (v_store st')) (vols (v_machine st'))"
  using step
proof cases
  case (step_create now name sz r)
  note o = Create_outcome [OF svc(1,3) C inv step_create refl]
  show ?thesis
  proof (cases r)
    case (Inl e)
    then show ?thesis using o inv sync by simp
  next
    case (Inr v)
    then show ?thesis using o sync norm_fields(1) by (auto simp: in_sync_def)
  qed
next
  case (step_delete name force r)
  show ?thesis
  proof (cases "vrows (v_store st) name")
    case None
    then show ?thesis using step_delete Delete_absent [OF svc(1) inv None] inv sync by simp
  next
    case (Some v)
    note o = Delete_outcome [OF svc C(1) inv step_delete Some]
    show ?thesis
      using o inv sync by (cases r) (auto simp: in_sync_def split: if_splits)
  qed
next
  case (step_resize name sz r)
  have o: "v_store st' = v_store st" "dom (vols (v_machine st')) = dom (vols (v_machine st))"
    using Resize_frame [OF svc C(1) inv step_resize] by simp_all
  then have "vols (v_machine st') k = None \<longleftrightarrow> vols (v_machine st) k = None" for k by (metis domIff)
  then show ?thesis using o(1) inv sync by (simp add: in_sync_def)
next
  case (step_workloads s')
  then show ?thesis using sync by simp
qed

lemma sync_reach:
  assumes "vol_reach svc inv vrows st st'" "vsv_volumes svc = V" "vsv_workloads svc = W" "vsv_machine svc = M"
    "lvm_contract M vols" "lvremove_works M vols" "inv (v_store st)"
    "in_sync (vrows (v_store st)) (vols (v_machine st))"
  shows "inv (v_store st') \<and> in_sync (vrows (v_store st')) (vols (v_machine st'))"
  using assms
proof (induction rule: vol_reach.induct)
  case (vol_more st st' st'')
  then show ?case using sync_step [OF vol_more(2)] by blast
qed simp

end

section \<open>The contract holds of both stores\<close>

interpretation mem_volumes: volume_backend mem_volume_if mem_workload_if mem_inv
  "\<lambda>s. map_of (mem_volumes s)" "\<lambda>s. map_of (mem_workloads s)" "\<lambda>_ v. v"
proof (unfold_locales, goal_cases)
  case (1 s k)
  then show ?case using mem_vol.get_eq by (simp add: mem_volume_if_def)
next
  case (2 s v)
  then show ?case
    using mem_vol.put_ok [of s v] by (intro disjI1 exI [of _ "snd (mem_volume_Put v s)"])
      (auto simp: mem_volume_if_def mem_volume_Put_def split: if_splits)
next
  case (3 s k)
  then show ?case
    using mem_vol.del_ok [of s k] by (intro exI [of _ "snd (mem_volume_Delete k s)"])
      (auto simp: mem_volume_if_def mem_volume_Delete_def)
next
  case (4 s)
  then show ?case using mem_wl.list_eq [of s] by (auto simp: mem_workload_if_def)
qed simp_all

definition volume_rows :: "'b sqlite_db \<Rightarrow> string \<Rightarrow> volume option" where
  "volume_rows db = rows_lookup volume_of_row (sq_volumes db)"

definition workload_rows :: "('b \<Rightarrow> workload result) \<Rightarrow> 'b sqlite_db \<Rightarrow> string \<Rightarrow> workload option" where
  "workload_rows unmarshal db = rows_lookup (decoded unmarshal) (sq_workloads db)"

text \<open>The service over sqlite; \<open>fault\<close> is what the driver answers to a write of a volume row.\<close>

definition sqlite_volume_service ::
  "go_error option \<Rightarrow> (workload \<Rightarrow> 'b result) \<Rightarrow> ('b \<Rightarrow> workload result) \<Rightarrow> int \<Rightarrow> 'l machine_ops \<Rightarrow>
   ('b sqlite_db, 'l) volume_service" where
  "sqlite_volume_service fault marshal unmarshal now M =
    \<lparr>vsv_volumes = (sqlite_volumes now)\<lparr>vs_Put := sqlite_volume_Put fault now\<rparr>,
     vsv_workloads = sqlite_workloads marshal unmarshal now, vsv_machine = M\<rparr>"

lemma sqlite_volume_backend:
  assumes "codec_ok marshal unmarshal"
  shows "volume_backend ((sqlite_volumes now)\<lparr>vs_Put := sqlite_volume_Put fault now\<rparr>)
    (sqlite_workloads marshal unmarshal now) (sqlite_wl_inv unmarshal) volume_rows (workload_rows unmarshal)
    (sqlite_volume_norm now)"
proof (unfold_locales, goal_cases)
  case (1 s k)
  then show ?case
    using sq_vol.get_eq [of s k] by (simp add: sqlite_volumes_def volume_rows_def sqlite_wl_inv_def)
next
  case (2 s v)
  show ?case
  proof (cases fault)
    case None
    define s' where "s' = snd (sqlite_volume_Put None now v s)"
    have "sqlite_inv s" using 2 by (simp add: sqlite_wl_inv_def)
    then have p: "sqlite_volume_Put None now v s = (Inr (), s')" "sqlite_inv s'"
        "volume_rows s' = (volume_rows s)(vol_name v \<mapsto> sqlite_volume_norm now s v)"
      using sq_vol.put_ok [where s = s and v = v and now = now] by (auto simp: s'_def volume_rows_def prod_eq_iff)
    have w: "sq_workloads s' = sq_workloads s" by (simp add: s'_def sqlite_volume_Put_def Let_def)
    then have "sqlite_wl_inv unmarshal s'" "workload_rows unmarshal s' = workload_rows unmarshal s"
      using 2 p(2) by (simp_all add: sqlite_wl_inv_def workload_rows_def)
    then show ?thesis using p None by (intro disjI1 exI [of _ s']) simp
  next
    case (Some e)
    then show ?thesis by (simp add: sqlite_volume_Put_def)
  qed
next
  case (3 s k)
  define s' where "s' = snd (sqlite_volume_Delete None k s)"
  have "sqlite_inv s" using 3 by (simp add: sqlite_wl_inv_def)
  then have p: "sqlite_volume_Delete None k s = (Inr (), s')" "sqlite_inv s'"
      "volume_rows s' = (volume_rows s)(k := None)"
    using sq_vol.del_ok [of s k] by (auto simp: s'_def volume_rows_def prod_eq_iff)
  have w: "sq_workloads s' = sq_workloads s" by (simp add: s'_def sqlite_volume_Delete_def)
  then have "sqlite_wl_inv unmarshal s'" "workload_rows unmarshal s' = workload_rows unmarshal s"
    using 3 p(2) by (simp_all add: sqlite_wl_inv_def workload_rows_def)
  then show ?case using p by (intro exI [of _ s']) (simp add: sqlite_volumes_def)
next
  case (4 s)
  then show ?case
    using keyed_store.list_eq [OF sqlite_workload_keyed [OF assms, of now] 4]
    by (auto simp: sqlite_workloads_def workload_rows_def)
qed (simp_all add: sqlite_volume_norm_def)

lemma sqlite_volume_service_simps [simp]:
  "vsv_volumes (sqlite_volume_service fault marshal unmarshal now M) =
     (sqlite_volumes now)\<lparr>vs_Put := sqlite_volume_Put fault now\<rparr>"
  "vsv_workloads (sqlite_volume_service fault marshal unmarshal now M) = sqlite_workloads marshal unmarshal now"
  "vsv_machine (sqlite_volume_service fault marshal unmarshal now M) = M"
  by (simp_all add: sqlite_volume_service_def)

section \<open>An example machine\<close>

text \<open>Logical volumes as an association list, and the tools acting on it.\<close>

definition toy_exec :: "string \<Rightarrow> string list \<Rightarrow> (string \<times> nat) list \<Rightarrow> exec_outcome \<times> (string \<times> nat) list" where
  "toy_exec prog args l =
    (if prog = ''/sbin/lvcreate'' then
       (case args of
          [_, sz, _, _, _, lv] \<Rightarrow>
            (case (map_of l lv, parse_digits 0 (butlast sz)) of
               (None, Some n) \<Rightarrow> (ExecOk [], AList.update lv n l)
             | _ \<Rightarrow> (ExecExit 5 ''already exists'', l))
        | _ \<Rightarrow> (ExecExit 3 [], l))
     else if prog = ''/sbin/lvremove'' then
       (case args of
          [_, path] \<Rightarrow>
            (if map_of l (drop 8 path) = None then (ExecExit 5 ''Failed to find logical volume'', l)
             else (ExecOk [], AList.delete (drop 8 path) l))
        | _ \<Rightarrow> (ExecExit 3 [], l))
     else if prog = ''/sbin/lvresize'' then
       (case args of
          [_, sz, path] \<Rightarrow>
            (case (map_of l (drop 8 path), parse_digits 0 (butlast sz)) of
               (Some _, Some n) \<Rightarrow> (ExecOk [], AList.update (drop 8 path) n l)
             | _ \<Rightarrow> (ExecExit 5 [], l))
        | _ \<Rightarrow> (ExecExit 3 [], l))
     else (ExecOk [], l))"

definition toy_machine :: "(string \<times> nat) list machine_ops" where
  "toy_machine = \<lparr>mo_exec = toy_exec, mo_blk = (\<lambda>path l. case map_of l (drop 13 path) of
     None \<Rightarrow> BlkNoDevice | Some n \<Rightarrow> BlkSize (word_of_nat (n * 1048576)))\<rparr>"

lemma toy_parse: "parse_digits 0 (word_text n) = Some (unat n)"
  by (simp add: word_text_def)

lemma toy_contract: "lvm_contract toy_machine map_of"
  unfolding lvm_contract_def
proof (intro conjI allI impI, goal_cases)
  case (1 n lv l oc l')
  then show ?case
    by (auto simp: toy_machine_def toy_exec_def toy_parse exec_error_def update_conv' split: option.splits)
next
  case (2 lv l oc l')
  then show ?case
    by (auto simp: toy_machine_def toy_exec_def exec_error_def delete_conv' split: if_splits)
next
  case (3 n lv l oc l')
  then show ?case
    by (auto simp: toy_machine_def toy_exec_def toy_parse exec_error_def update_conv' split: option.splits)
next
  case (4 prog args l)
  then show ?case by (simp add: toy_machine_def toy_exec_def lv_tools_def)
next
  case (5 lv n l)
  then show ?case by (simp add: toy_machine_def)
qed

lemma toy_removes: "lvremove_works toy_machine map_of"
  by (auto simp: lvremove_works_def toy_machine_def toy_exec_def exec_error_def)

section \<open>Properties of the volume service\<close>


definition example_vstate :: "(workload sqlite_db, (string \<times> nat) list) vstate" where
  "example_vstate = \<lparr>v_store = sqlite_empty, v_machine = [(''meta'', 256)]\<rparr>"

lemma example_vstate_inv: "sqlite_wl_inv Inr (v_store example_vstate)"
  by (simp add: example_vstate_def sqlite_wl_inv_def sqlite_inv_def sqlite_empty_def)




text \<open>the delete request refuses a volume that a stored workload mounts, with a failed precondition
  and without changing anything, unless it is forced. Otherwise the row and the logical volume go
  together or, when \<open>lvremove\<close> fails, both stay.\<close>

theorem Delete_respects_mounts:
  assumes codec: "codec_ok marshal unmarshal" and C: "lvm_contract M vols"
    and inv: "sqlite_wl_inv unmarshal (v_store st)" and row: "volume_rows (v_store st) name = Some v"
    and run: "VolumeController_Delete (sqlite_volume_service fault marshal unmarshal now M) name force st = (r, st')"
  shows "if (\<exists>k w. workload_rows unmarshal (v_store st) k = Some w \<and> mounts_volume w name) \<and> \<not> force
    then (\<exists>m. r = Inl (Status FailedPrecondition m)) \<and> st' = st
    else (case r of
        Inr _ \<Rightarrow> volume_rows (v_store st') = (volume_rows (v_store st))(name := None) \<and>
          vols (v_machine st') = (vols (v_machine st))(LVName name := None)
      | Inl e \<Rightarrow> v_store st' = v_store st \<and> vols (v_machine st') = vols (v_machine st))"
proof -
  let ?svc = "sqlite_volume_service fault marshal unmarshal now M"
  let ?used = "\<exists>k w. workload_rows unmarshal (v_store st) k = Some w \<and> mounts_volume w name"
  note B = sqlite_volume_backend [OF codec, where now = now and fault = fault]
  obtain r1 st1 where d: "volume_Delete ?svc name force st = (r1, st1)" by fastforce
  have "if volume_backend.in_use (workload_rows unmarshal) (v_store st) name \<and> \<not> force
    then r1 = Inl (Wrap [] ErrInUse) \<and> st1 = st
    else (case r1 of
        Inr _ \<Rightarrow> sqlite_wl_inv unmarshal (v_store st1) \<and>
          volume_rows (v_store st1) = (volume_rows (v_store st))(name := None) \<and>
          workload_rows unmarshal (v_store st1) = workload_rows unmarshal (v_store st) \<and>
          vols (v_machine st1) = (vols (v_machine st))(LVName name := None)
      | Inl e \<Rightarrow> v_store st1 = v_store st \<and> vols (v_machine st1) = vols (v_machine st))"
    by (rule volume_backend.Delete_outcome [OF B _ _ _ C inv d row]) simp_all
  then have o: "if ?used \<and> \<not> force then r1 = Inl (Wrap [] ErrInUse) \<and> st1 = st
    else (case r1 of
        Inr _ \<Rightarrow> volume_rows (v_store st1) = (volume_rows (v_store st))(name := None) \<and>
          vols (v_machine st1) = (vols (v_machine st))(LVName name := None)
      | Inl e \<Rightarrow> v_store st1 = v_store st \<and> vols (v_machine st1) = vols (v_machine st))"
    unfolding volume_backend.in_use_def [OF B] by (cases r1) (auto split: if_splits)
  have h: "(r, st') = (case r1 of
      Inl e \<Rightarrow> (Inl (if errors_is e ErrInUse then Status FailedPrecondition (error_text e)
               else Status Internal (error_text e)), st1)
    | Inr _ \<Rightarrow> (Inr (), st1))"
    using run unfolding VolumeController_Delete_def d by (auto split: sum.splits)
  show ?thesis
  proof (cases "?used \<and> \<not> force")
    case True
    then show ?thesis using o h by (simp add: ErrInUse_def)
  next
    case False
    then show ?thesis using o h by (cases r1) (simp_all split: if_splits)
  qed
qed

text \<open>An example with a mounted volume.\<close>

definition example_mounting :: workload where
  "example_mounting = example_workload\<lparr>wl_container := Some (example_container\<lparr>cs_mounts :=
     [\<lparr>vm_volume_name = ''data'', vm_mount_path = ''/data'', vm_read_only = False\<rparr>]\<rparr>)\<rparr>"

definition example_mounted :: "(workload sqlite_db, (string \<times> nat) list) vstate" where
  "example_mounted = \<lparr>v_store = sqlite_empty\<lparr>
       sq_workloads := [(''web-1'', \<lparr>wr_spec = example_mounting, wr_updated_at = 7\<rparr>)],
       sq_volumes := [(''data'', \<lparr>vr_host_path = HostPath ''data'', vr_created_at = 5\<rparr>)]\<rparr>,
     v_machine = [(''vol-data'', 512)]\<rparr>"

lemma example_mounted_facts:
  "sqlite_wl_inv Inr (v_store example_mounted)"
  "volume_rows (v_store example_mounted) ''data'' =
     Some (volume_of_row (''data'', \<lparr>vr_host_path = HostPath ''data'', vr_created_at = 5\<rparr>))"
  "workload_rows Inr (v_store example_mounted) ''web-1'' = Some example_mounting"
  "mounts_volume example_mounting ''data''"
  by (simp_all add: example_mounted_def sqlite_wl_inv_def sqlite_inv_def sqlite_empty_def volume_rows_def
      workload_rows_def rows_lookup_def decodes_def decoded_def example_mounting_def example_workload_def
      mounts_volume_def workload_mounts_def)

theorem Delete_respects_mounts_witness:
  "snd (VolumeController_Delete (sqlite_volume_service None Inr Inr 9 toy_machine) ''data'' False example_mounted) =
     example_mounted"
  using Delete_respects_mounts [OF codec_ok_id toy_contract example_mounted_facts(1,2) prod.collapse [symmetric],
      where fault = None and now = 9 and force = False] example_mounted_facts(3,4)
  by (auto split: if_splits)

text \<open>a resize never shrinks a volume and never touches the store. The logical volume keeps its size,
  or takes the requested one, which is then larger, between 32 MiB and 1 TiB, and the
  volume is mounted by no workload; after a successful resize it has the requested size. The
  product that converts MiB to bytes does not overflow.\<close>

theorem Resize_only_grows:
  assumes codec: "codec_ok marshal unmarshal" and C: "lvm_contract M vols"
    and inv: "sqlite_wl_inv unmarshal (v_store st)"
    and sync: "in_sync (volume_rows (v_store st)) (vols (v_machine st))"
    and row: "volume_rows (v_store st) name = Some v"
    and lv: "vols (v_machine st) (LVName name) = Some m" "m < 2 ^ 44"
    and run: "volume_Resize (sqlite_volume_service fault marshal unmarshal now M) name n st = (r, st')"
  shows "v_store st' = v_store st \<and>
    (vols (v_machine st') = vols (v_machine st) \<or>
     vols (v_machine st') = (vols (v_machine st))(LVName name \<mapsto> unat n) \<and> m < unat n \<and>
       \<not> (\<exists>k w. workload_rows unmarshal (v_store st) k = Some w \<and> mounts_volume w name)) \<and>
    (is_ok r \<longrightarrow> vols (v_machine st') (LVName name) = Some (unat n))"
proof -
  note B = sqlite_volume_backend [OF codec, where now = now and fault = fault]
  have "vol_host_path v = HostPath name" using sync row by (simp add: in_sync_def)
  then have "v_store st' = v_store st \<and>
    (vols (v_machine st') = vols (v_machine st) \<or>
     vols (v_machine st') = (vols (v_machine st))(LVName name \<mapsto> unat n) \<and> m < unat n \<and>
       \<not> volume_backend.in_use (workload_rows unmarshal) (v_store st) name) \<and>
    (is_ok r \<longrightarrow> vols (v_machine st') (LVName name) = Some (unat n))"
    by (intro volume_backend.Resize_outcome [OF B _ _ _ C inv run row _ lv]) simp_all
  then show ?thesis unfolding volume_backend.in_use_def [OF B] .
qed

definition example_unmounted :: "(workload sqlite_db, (string \<times> nat) list) vstate" where
  "example_unmounted = \<lparr>v_store = (v_store example_mounted)\<lparr>sq_workloads := []\<rparr>,
     v_machine = [(''vol-data'', 512)]\<rparr>"

theorem Resize_only_grows_witness:
  "map_of (v_machine (snd (volume_Resize (sqlite_volume_service None Inr Inr 9 toy_machine) ''data'' 1024 example_unmounted)))
     ''vol-data'' = Some 1024"
proof -
  let ?r = "volume_Resize (sqlite_volume_service None Inr Inr 9 toy_machine) ''data'' 1024 example_unmounted"
  have "validateName ''data'' = Inr ()" by code_simp
  moreover have "validateSize 1024 = Inr ()" by (simp add: validateSize_def MinSizeMiB_def MaxSizeMiB_def)
  moreover have "blockDeviceSize toy_machine (HostPath ''data'') [(''vol-data'', 512)] = (536870912, [(''vol-data'', 512)])"
    using blockDeviceSize_LV [OF toy_contract, of "[(''vol-data'', 512)]" "''data''" 512]
    by (simp add: LVName_def VolPrefix_def)
  moreover have "resizeVolumeLV toy_machine ''data'' 1024 [(''vol-data'', 512)] = (Inr (), [(''vol-data'', 1024)])"
    by code_simp
  ultimately have ok: "is_ok (fst ?r)"
    by (simp add: volume_Resize_def in_vstore_def on_machine_def sqlite_volumes_def sqlite_volume_Get_def refsTo_def
        sqlite_workloads_def sqlite_workload_List_def example_unmounted_def example_mounted_def volume_of_row_def Let_def
        split: prod.splits sum.splits)
  have facts: "sqlite_wl_inv Inr (v_store example_unmounted)"
    "in_sync (volume_rows (v_store example_unmounted)) (map_of (v_machine example_unmounted))"
    "volume_rows (v_store example_unmounted) ''data'' =
       Some (volume_of_row (''data'', \<lparr>vr_host_path = HostPath ''data'', vr_created_at = 5\<rparr>))"
    "map_of (v_machine example_unmounted) (LVName ''data'') = Some 512"
    by (auto simp: example_unmounted_def example_mounted_def sqlite_wl_inv_def sqlite_inv_def sqlite_empty_def
        volume_rows_def rows_lookup_def in_sync_def LVName_def VolPrefix_def volume_of_row_def)
  have "LVName ''data'' = ''vol-data''" by (simp add: LVName_def VolPrefix_def)
  then show ?thesis
    using Resize_only_grows [OF codec_ok_id toy_contract facts _ prod.collapse [symmetric],
        where fault = None and now = 9 and n = 1024] ok
    by simp
qed

end
