(* ===== verification/Capsule_Firecracker.thy ===== *)
theory Capsule_Firecracker
  imports Capsule_Portmap Capsule_Volume Capsule_Reconciler
begin

text \<open>
  The Firecracker driver \<^verbatim>\<open>src/runtime/microvm/firecracker\<close>. Firecracker, containerd, the guest
  agent and the system tools are a record of operations on the machine's state \<open>'w\<close>; the driver's own
  state is the table of virtual machines and whether containerd was dialled. A virtual machine
  and its connection are named by the workload.
\<close>

section \<open>Addresses\<close>

text \<open>The digest of a name is a parameter; \<open>sha_ok\<close> states its length.\<close>

definition sha_ok :: "(string \<Rightarrow> 8 word list) \<Rightarrow> bool" where
  "sha_ok sha \<longleftrightarrow> (\<forall>s. length (sha s) = 32)"

definition tapName :: "(string \<Rightarrow> 8 word list) \<Rightarrow> string \<Rightarrow> string" where
  "tapName sha workload = ''kv-'' @ concat (map hex_byte (take 4 (sha workload)))"

definition hex_digit_upper :: "nat \<Rightarrow> char" where
  "hex_digit_upper d = (if d < 10 then char_of (48 + d) else char_of (55 + d))"

definition hex_byte_upper :: "8 word \<Rightarrow> string" where
  "hex_byte_upper b = [hex_digit_upper (unat b div 16), hex_digit_upper (unat b mod 16)]"

definition mac_bytes :: "(string \<Rightarrow> 8 word list) \<Rightarrow> string \<Rightarrow> 8 word list" where
  "mac_bytes sha workload = (let b = take 6 (sha workload) in b[0 := or (and (b ! 0) 0xFE) 0x02])"

definition macForName :: "(string \<Rightarrow> 8 word list) \<Rightarrow> string \<Rightarrow> string" where
  "macForName sha workload = join_with CHR '':'' (map hex_byte_upper (mac_bytes sha workload))"

definition guest_host :: "(string \<Rightarrow> 8 word list) \<Rightarrow> string \<Rightarrow> nat" where
  "guest_host sha workload = (let sum = sha workload in (256 * unat (sum ! 0) + unat (sum ! 1)) mod 252 + 2)"

definition guestIPFor :: "(string \<Rightarrow> 8 word list) \<Rightarrow> string \<Rightarrow> string" where
  "guestIPFor sha workload = ''172.20.254.'' @ itoa (guest_host sha workload)"

definition kernelIPArg :: "string \<Rightarrow> string" where
  "kernelIPArg guestIP = ''ip='' @ guestIP @ ''::172.20.0.1:255.255.0.0::eth0:off''"

section \<open>Network devices\<close>

definition runIP :: "'w machine_ops \<Rightarrow> string list \<Rightarrow> ('w, unit) action" where
  "runIP M args w =
    (case mo_exec M ''/sbin/ip'' args w of (oc, w1) \<Rightarrow>
       (case exec_error oc of
          None \<Rightarrow> (Inr (), w1)
        | Some e \<Rightarrow> (Inl (Errorf (''ip '' @ join_with CHR '' '' args @ '': '' @ error_text e @ '': '' @ trim_space (exec_output oc))), w1)))"

definition ensureMasquerade :: "'w machine_ops \<Rightarrow> string \<Rightarrow> ('w, unit) action" where
  "ensureMasquerade M bridge w =
    (let args = [''-s'', ''172.20.0.0/16'', ''!'', ''-o'', bridge, ''-j'', ''MASQUERADE''] in
     case mo_exec M iptables ([''-t'', ''nat'', ''-C'', ''POSTROUTING''] @ args) w of (oc, w1) \<Rightarrow>
       if exec_error oc = None then (Inr (), w1)
       else (case mo_exec M iptables ([''-t'', ''nat'', ''-A'', ''POSTROUTING''] @ args) w1 of (oc2, w2) \<Rightarrow>
         (case exec_error oc2 of None \<Rightarrow> (Inr (), w2) | Some e \<Rightarrow> (Inl (Wrap ''iptables masquerade'' e), w2))))"

text \<open>An action whose error is accepted when its text contains one of the given words.\<close>

definition tolerate :: "string list \<Rightarrow> ('w, unit) action \<Rightarrow> ('w, unit) action" where
  "tolerate words m w =
    (case m w of
       (Inl e, w1) \<Rightarrow> (if list_ex (str_contains (error_text e)) words then Inr () else Inl e, w1)
     | (Inr _, w1) \<Rightarrow> (Inr (), w1))"

definition ensureBridge :: "'w host_ops \<Rightarrow> string \<Rightarrow> ('w, unit) action" where
  "ensureBridge H name w =
    (let M = machine_ops.truncate H in
     bind_action
       (if ho_stat H (''/sys/class/net/'' @ name) w \<noteq> None then
          bind_action (tolerate [''File exists''] (runIP M [''link'', ''add'', ''name'', name, ''type'', ''bridge''])) (\<lambda>_.
          bind_action (ignore (runIP M [''addr'', ''add'', ''172.20.0.1/16'', ''dev'', name])) (\<lambda>_.
          runIP M [''link'', ''set'', name, ''up'']))
        else lift_result (Inr ())) (\<lambda>_.
     ensureMasquerade M name) w)"

definition tap_add :: "'w machine_ops \<Rightarrow> string \<Rightarrow> ('w, unit) action" where
  "tap_add M name = runIP M [''tuntap'', ''add'', ''mode'', ''tap'', ''name'', name]"

definition tap_master :: "'w machine_ops \<Rightarrow> string \<Rightarrow> ('w, unit) action" where
  "tap_master M name = runIP M [''link'', ''set'', name, ''master'', ''br0'']"

definition setupTAP :: "'w host_ops \<Rightarrow> string \<Rightarrow> ('w, unit) action" where
  "setupTAP H name =
    (let M = machine_ops.truncate H in
     bind_action (wrap_action ''ensure bridge br0'' (ensureBridge H ''br0'')) (\<lambda>_.
     bind_action (tolerate [''File exists'', ''Resource busy'', ''exists''] (tap_add M name)) (\<lambda>_.
     bind_action (\<lambda>w. case tap_master M name w of
         (Inr _, w1) \<Rightarrow> (Inr (), w1)
       | (Inl e, w1) \<Rightarrow>
          if str_contains (error_text e) ''Resource busy'' \<or> str_contains (error_text e) ''does not exist'' then
            bind_action (ignore (runIP M [''link'', ''del'', name])) (\<lambda>_.
            bind_action (wrap_action ''tap recreate'' (tap_add M name)) (\<lambda>_.
            tap_master M name)) w1
          else (Inl e, w1)) (\<lambda>_.
     runIP M [''link'', ''set'', name, ''up'']))))"

definition teardownTAP :: "'w host_ops \<Rightarrow> string \<Rightarrow> ('w, unit) action" where
  "teardownTAP H name = ignore (runIP (machine_ops.truncate H) [''link'', ''del'', name])"

section \<open>The serial console\<close>

text \<open>
  \<open>prefixedWriter\<close>: the bytes written so far and the unfinished line. The loop takes one complete line
  per iteration.
\<close>

record prefixed_writer =
  pw_prefix :: string
  pw_out :: string
  pw_tail :: string

function write_lines :: "string \<Rightarrow> string \<Rightarrow> string \<Rightarrow> string \<times> string" where
  "write_lines prefix buf out =
    (if CHR 0x0A \<in> set buf
     then (let idx = length (takeWhile (\<lambda>c. c \<noteq> CHR 0x0A) buf)
           in write_lines prefix (drop (idx + 1) buf) (out @ prefix @ take (idx + 1) buf))
     else (out, buf))"
  by pat_completeness auto
termination
  by (relation "measure (\<lambda>(_, buf, _). length buf)") (auto intro!: diff_less intro: length_pos_if_in_set)

declare write_lines.simps [simp del]

definition prefixed_Write :: "string \<Rightarrow> prefixed_writer \<Rightarrow> nat \<times> prefixed_writer" where
  "prefixed_Write b p =
    (case write_lines (pw_prefix p) (pw_tail p @ b) (pw_out p) of (out, buf) \<Rightarrow>
       (length b, p\<lparr>pw_out := out, pw_tail := buf\<rparr>))"

section \<open>Drives\<close>

record fc_drive =
  fd_DriveID :: string
  fd_PathOnHost :: string
  fd_IsRootDevice :: bool
  fd_IsReadOnly :: bool

record guest_mount =
  gm_Device :: string
  gm_MountPath :: string
  gm_Fstype :: string
  gm_ReadOnly :: bool

definition id_char :: "char \<Rightarrow> bool" where
  "id_char c \<longleftrightarrow> (let n = of_char c :: nat in (97 \<le> n \<and> n \<le> 122) \<or> (65 \<le> n \<and> n \<le> 90) \<or> (48 \<le> n \<and> n \<le> 57) \<or> c = CHR ''_'')"

definition sanitizeID :: "string \<Rightarrow> string" where
  "sanitizeID s = map (\<lambda>c. if id_char c then c else CHR ''_'') s"

text \<open>The drive letter is a byte that is counted up, so it wraps around.\<close>

fun volume_drives :: "(string \<Rightarrow> go_error option) \<Rightarrow> 8 word \<Rightarrow> volume_mount list \<Rightarrow> fc_drive list \<Rightarrow> guest_mount list \<Rightarrow>
    (guest_mount list \<times> fc_drive list) result" where
  "volume_drives stat letter [] drives out = Inr (out, drives)"
| "volume_drives stat letter (m # ms) drives out =
    (if vm_volume_name m = [] \<or> vm_mount_path m = [] then Inl (Errorf ''volume_name and mount_path are required'')
     else (case stat (HostPath (vm_volume_name m)) of
        Some e \<Rightarrow> Inl (Wrap ''volume'' e)
      | None \<Rightarrow> volume_drives stat (letter + 1) ms
          (drives @ [\<lparr>fd_DriveID = ''vol_'' @ sanitizeID (vm_volume_name m), fd_PathOnHost = HostPath (vm_volume_name m),
             fd_IsRootDevice = False, fd_IsReadOnly = vm_read_only m\<rparr>])
          (out @ [\<lparr>gm_Device = ''/dev/vd'' @ [char_of (unat letter)], gm_MountPath = vm_mount_path m, gm_Fstype = ''ext4'',
             gm_ReadOnly = vm_read_only m\<rparr>])))"

definition prepareVolumeDrives :: "(string \<Rightarrow> go_error option) \<Rightarrow> volume_mount list \<Rightarrow> fc_drive list \<Rightarrow>
    (guest_mount list \<times> fc_drive list) result" where
  "prepareVolumeDrives stat mounts drives =
    (if mounts = [] then Inr ([], drives) else volume_drives stat 99 mounts drives [])"

section \<open>Payload images\<close>

record oci_payload =
  op_Command :: "string list"
  op_Env :: "string list"
  op_Cwd :: string

record image_config =
  ic_Cmd :: "string list"
  ic_Entrypoint :: "string list"
  ic_Env :: "string list"
  ic_WorkingDir :: string

text \<open>The chain identifier; the digest of a string is a parameter.\<close>

definition identChainID :: "(string \<Rightarrow> string) \<Rightarrow> string list \<Rightarrow> string" where
  "identChainID digest diffIDs =
    (case diffIDs of [] \<Rightarrow> [] | d # ds \<Rightarrow> foldl (\<lambda>chain d. digest (chain @ '' '' @ d)) d ds)"

definition payload_of_config :: "image_config \<Rightarrow> micro_vm_spec \<Rightarrow> oci_payload result" where
  "payload_of_config cfg spec =
    (let entrypoint = (if ms_command spec \<noteq> [] then ms_command spec else ic_Entrypoint cfg);
         cmd = (if ms_args spec \<noteq> [] then ms_args spec else ic_Cmd cfg);
         argv = entrypoint @ cmd
     in if argv = [] then Inl (Errorf ''image has no entrypoint or cmd'')
        else Inr \<lparr>op_Command = argv, op_Env = ic_Env cfg @ map (\<lambda>(k, v). k @ ''='' @ v) (ms_env spec), op_Cwd = ic_WorkingDir cfg\<rparr>)"

text \<open>The size of the payload file in bytes, an \<open>int64\<close> with division towards zero on non-negative numbers.\<close>

definition ext4_size :: "int \<Rightarrow> int" where
  "ext4_size used =
    (let MiB = 1024 * 1024; hdr = 50 * MiB; hdr1 = (if used div 5 > hdr then used div 5 else hdr);
         tot = int64 (used + hdr1)
     in int64 (int64 (tot + (MiB - 1)) div MiB * MiB))"

record fc_config =
  fc_SocketPath :: string
  fc_LogPath :: string
  fc_KernelImagePath :: string
  fc_KernelArgs :: string
  fc_Drives :: "fc_drive list"
  fc_HostDevName :: string
  fc_MacAddress :: string
  fc_VsockPath :: string
  fc_VcpuCount :: int
  fc_MemSizeMib :: int

text \<open>
  The operations of containerd, Firecracker and the guest agent. \<open>fc_file_sizes\<close> are the sizes of the
  regular files below a directory, \<open>fc_copy_tree\<close> copies one. \<open>fc_guest_dial\<close> is one attempt to reach the agent and ping it,
  \<open>fc_expired\<close> says that the deadline passed and \<open>fc_cancelled\<close> that the caller gave up;
  \<open>fc_cancel\<close> ends the context of the machine.
\<close>

record 'w fc_ops = "'w host_ops" +
  fc_dial :: "('w, unit) action"
  fc_get_image :: "string \<Rightarrow> 'w \<Rightarrow> string result"
  fc_pull :: "string \<Rightarrow> ('w, string) action"
  fc_remove_all :: "string \<Rightarrow> ('w, unit) action"
  fc_rootfs :: "string \<Rightarrow> 'w \<Rightarrow> string list result"
  fc_snap_remove :: "string \<Rightarrow> ('w, unit) action"
  fc_snap_view :: "string \<Rightarrow> string \<Rightarrow> ('w, mount_spec list) action"
  fc_mkdtemp :: "('w, string) action"
  fc_copy_tree :: "string \<Rightarrow> string \<Rightarrow> ('w, unit) action"
  fc_config_desc :: "string \<Rightarrow> 'w \<Rightarrow> string result"
  fc_read_content :: "string \<Rightarrow> 'w \<Rightarrow> string result"
  fc_parse_config :: "string \<Rightarrow> image_config option"
  fc_file_sizes :: "string \<Rightarrow> 'w \<Rightarrow> int list"
  fc_truncate :: "string \<Rightarrow> int \<Rightarrow> ('w, unit) action"
  fc_open_serial :: "string \<Rightarrow> ('w, unit) action"
  fc_new_machine :: "string \<Rightarrow> fc_config \<Rightarrow> ('w, unit) action"
  fc_start_machine :: "string \<Rightarrow> ('w, unit) action"
  fc_shutdown :: "string \<Rightarrow> ('w, unit) action"
  fc_stop_vmm :: "string \<Rightarrow> ('w, unit) action"
  fc_wait :: "string \<Rightarrow> ('w, unit) action"
  fc_cancel :: "string \<Rightarrow> ('w, unit) action"
  fc_guest_dial :: "string \<Rightarrow> ('w, unit) action"
  fc_guest_ping :: "string \<Rightarrow> ('w, unit) action"
  fc_expired :: "'w \<Rightarrow> bool"
  fc_cancelled :: "'w \<Rightarrow> go_error option"
  fc_guest_close :: "string \<Rightarrow> ('w, unit) action"
  fc_start_payload :: "string \<Rightarrow> oci_payload \<Rightarrow> guest_mount list \<Rightarrow> ('w, unit) action"
  fc_guest_stop :: "string \<Rightarrow> ('w, unit) action"

record vm_state =
  vs_tap :: string
  vs_ip :: string
  vs_guest :: bool

record fc_driver =
  fv_vms :: "(string, vm_state) gomap"
  fv_ctrd :: bool

type_synonym 'w fstate = "fc_driver \<times> 'w"

definition ensure_containerd :: "'w fc_ops \<Rightarrow> ('w fstate, unit) action" where
  "ensure_containerd F st =
    (if fv_ctrd (fst st) then (Inr (), st)
     else (case fc_dial F (snd st) of
        (Inl e, w) \<Rightarrow> (Inl (Wrap ''containerd dial'' e), (fst st, w))
      | (Inr _, w) \<Rightarrow> (Inr (), ((fst st)\<lparr>fv_ctrd := True\<rparr>, w))))"

definition mount_all :: "'w fc_ops \<Rightarrow> string \<Rightarrow> mount_spec list \<Rightarrow> ('w, unit) action" where
  "mount_all F dir ms = foldr (\<lambda>m k. bind_action (wrap_action ''mount snapshot'' (ho_mount F (m\<lparr>ms_target := dir\<rparr>))) (\<lambda>_. k)) ms (lift_result (Inr ()))"

definition unpackImageRootfs :: "'w fc_ops \<Rightarrow> (string \<Rightarrow> string) \<Rightarrow> string \<Rightarrow> string \<Rightarrow> ('w, unit) action" where
  "unpackImageRootfs F digest img dst w =
    (case fc_rootfs F img w of
       Inl e \<Rightarrow> (Inl (Wrap ''image rootfs diff ids'' e), w)
     | Inr diffIDs \<Rightarrow>
        (let chainID = identChainID digest diffIDs; key = ''capsule-vm-unpack-'' @ img in
         bind_action (ignore (fc_snap_remove F key)) (\<lambda>_.
         bind_action (wrap_action ''snapshot view'' (fc_snap_view F key chainID)) (\<lambda>ms.
         and_finally
           (bind_action (fc_mkdtemp F) (\<lambda>dir.
            and_finally
              (bind_action (mount_all F dir ms) (\<lambda>_.
               and_finally (wrap_action ''copy snapshot'' (fc_copy_tree F dir dst)) (\<lambda>v. snd (mo_exec F ''/bin/umount'' [dir] v))))
              (\<lambda>v. snd (fc_remove_all F dir v))))
           (\<lambda>v. snd (fc_snap_remove F key v)))) w))"

definition buildOCIPayload :: "'w fc_ops \<Rightarrow> string \<Rightarrow> micro_vm_spec \<Rightarrow> 'w \<Rightarrow> oci_payload result" where
  "buildOCIPayload F img spec w =
    (case fc_config_desc F img w of
       Inl e \<Rightarrow> Inl (Wrap ''image config descriptor'' e)
     | Inr desc \<Rightarrow>
        (case fc_read_content F desc w of
           Inl e \<Rightarrow> Inl e
         | Inr raw \<Rightarrow>
            (case fc_parse_config F raw of
               None \<Rightarrow> Inl (Errorf ''parse image config'')
             | Some cfg \<Rightarrow> payload_of_config cfg spec)))"

definition dirSizeBytes :: "'w fc_ops \<Rightarrow> string \<Rightarrow> 'w \<Rightarrow> int" where
  "dirSizeBytes F root w = foldl (\<lambda>tot n. int64 (tot + n)) 0 (fc_file_sizes F root w)"

definition makeExt4FromDir :: "'w fc_ops \<Rightarrow> string \<Rightarrow> string \<Rightarrow> ('w, unit) action" where
  "makeExt4FromDir F dir out w =
    (let tot = ext4_size (dirSizeBytes F dir w); args = [''-q'', ''-F'', ''-d'', dir, out] in
     bind_action (ho_write F out []) (\<lambda>_.
     bind_action (fc_truncate F out tot) (\<lambda>_ w1.
       (case mo_exec F ''/usr/sbin/mkfs.ext4'' args w1 of (oc, w2) \<Rightarrow>
          (case exec_error oc of
             None \<Rightarrow> (Inr (), w2)
           | Some e \<Rightarrow>
              (case mo_exec F ''/sbin/mkfs.ext4'' args w2 of (oc2, w3) \<Rightarrow>
                 (if exec_error oc2 = None then Inr () else Inl (Wrap ''mkfs.ext4'' e), w3)))))) w)"

definition preparePayloadDisk :: "'w fc_ops \<Rightarrow> (string \<Rightarrow> string) \<Rightarrow> micro_vm_spec \<Rightarrow> string \<Rightarrow> ('w fstate, string \<times> oci_payload) action" where
  "preparePayloadDisk F digest spec vmDir =
    (let ref = ms_image spec; payloadDir = path_join [vmDir, ''payload'']; ext4Path = path_join [vmDir, ''payload.ext4''] in
     if ref = [] then lift_result (Inl (Errorf ''image is required for image-mode microVM''))
     else
       bind_action (ensure_containerd F) (\<lambda>_.
       bind_action (on_host (\<lambda>w. case fc_get_image F ref w of
           Inr img \<Rightarrow> (Inr img, w) | Inl _ \<Rightarrow> wrap_action ''pull'' (fc_pull F ref) w)) (\<lambda>img.
       bind_action (wrap_action ''clean'' (on_host (fc_remove_all F payloadDir))) (\<lambda>_.
       bind_action (wrap_action ''mkdir'' (on_host (ho_mkdir F payloadDir))) (\<lambda>_.
       bind_action (wrap_action ''unpack image'' (on_host (unpackImageRootfs F digest img payloadDir))) (\<lambda>_.
       bind_action (wrap_action ''resolve image config'' (on_host (\<lambda>w. (buildOCIPayload F img spec w, w)))) (\<lambda>payload.
       bind_action (wrap_action ''build ext4'' (on_host (makeExt4FromDir F payloadDir ext4Path))) (\<lambda>_.
       bind_action (on_host (ignore (fc_remove_all F payloadDir))) (\<lambda>_.
       lift_result (Inr (ext4Path, payload)))))))))))"

section \<open>Reaching the guest agent\<close>

text \<open>
  \<open>waitForGuestReady\<close> polls until the agent answers, the deadline passes or the caller gives up. Time is part of the
  machine's state, so the loop takes the number of attempts that fit before the deadline as fuel; \<open>None\<close>
  means that the fuel did not suffice.
\<close>

definition guest_attempt :: "'w fc_ops \<Rightarrow> string \<Rightarrow> ('w, unit) action" where
  "guest_attempt F uds w =
    (case fc_guest_dial F uds w of
       (Inl e, w1) \<Rightarrow> (Inl e, w1)
     | (Inr _, w1) \<Rightarrow>
        (case fc_guest_ping F uds w1 of
           (Inr _, w2) \<Rightarrow> (Inr (), w2)
         | (Inl e, w2) \<Rightarrow> (Inl e, snd (fc_guest_close F uds w2))))"

fun guest_loop :: "'w fc_ops \<Rightarrow> nat \<Rightarrow> string \<Rightarrow> go_error \<Rightarrow> 'w \<Rightarrow> (unit result \<times> 'w) option" where
  "guest_loop F 0 uds lastErr w = None"
| "guest_loop F (Suc n) uds lastErr w =
    (if fc_expired F w then Some (Inl (Wrap ''guest agent not ready'' lastErr), w)
     else (case guest_attempt F uds w of
        (Inr _, w1) \<Rightarrow> Some (Inr (), w1)
      | (Inl e, w1) \<Rightarrow>
         (case fc_cancelled F w1 of
            Some ce \<Rightarrow> Some (Inl ce, w1)
          | None \<Rightarrow> guest_loop F n uds e (ho_settle F w1))))"

text \<open>\<open>guestReadyTimeout\<close> over the pause between two attempts, 60 s over 50 ms, and one more for the expired check.\<close>

definition guest_fuel :: nat where "guest_fuel = 1202"

definition waitForGuestReady :: "'w fc_ops \<Rightarrow> string \<Rightarrow> ('w, unit) action" where
  "waitForGuestReady F uds w =
    (case guest_loop F guest_fuel uds (Errorf ''nil'') w of
       Some r \<Rightarrow> r
     | None \<Rightarrow> (Inl (Errorf ''guest agent not ready''), w))"

section \<open>Lifecycle\<close>

definition fc_stateDir :: string where "fc_stateDir = ''/run/capsule/vms''"

definition validateSpec :: "'w host_ops \<Rightarrow> micro_vm_spec \<Rightarrow> 'w \<Rightarrow> go_error option" where
  "validateSpec H s w =
    (if ms_image s \<noteq> [] then
       (if ms_kernel_path s \<noteq> [] \<and> \<not> has_prefix (ms_kernel_path s) ''/'' then Some (Errorf ''kernel_path must be absolute'') else None)
     else if ms_kernel_path s = [] then Some (Errorf ''either image or kernel_path is required'')
     else if \<not> has_prefix (ms_kernel_path s) ''/'' then Some (Errorf ''kernel_path must be absolute'')
     else if ms_rootfs_path s = [] then Some (Errorf ''rootfs_path is required when image is not set'')
     else if \<not> has_prefix (ms_rootfs_path s) ''/'' then Some (Errorf ''rootfs_path must be absolute'')
     else (case ho_stat H (ms_kernel_path s) w of
        Some e \<Rightarrow> Some (Wrap ''kernel_path'' e)
      | None \<Rightarrow> (case ho_stat H (ms_rootfs_path s) w of Some e \<Rightarrow> Some (Wrap ''rootfs_path'' e) | None \<Rightarrow> None)))"

definition readSpecHash :: "'w host_ops \<Rightarrow> string \<Rightarrow> 'w \<Rightarrow> string" where
  "readSpecHash H vmDir w = (case ho_read H (path_join [vmDir, ''spec.hash'']) w of Inl _ \<Rightarrow> [] | Inr b \<Rightarrow> trim_space b)"

definition writeSpecHash :: "'w host_ops \<Rightarrow> string \<Rightarrow> string \<Rightarrow> ('w, unit) action" where
  "writeSpecHash H vmDir hash = ho_write H (path_join [vmDir, ''spec.hash'']) hash"

text \<open>Stopping the machine of a tracked workload; every error is dropped.\<close>

definition stop_machine :: "'w fc_ops \<Rightarrow> string \<Rightarrow> vm_state \<Rightarrow> ('w, unit) action" where
  "stop_machine F name s =
    bind_action (if vs_guest s
      then bind_action (ignore (fc_guest_stop F name)) (\<lambda>_. ignore (fc_guest_close F name))
      else lift_result (Inr ())) (\<lambda>_.
    bind_action (ignore (fc_shutdown F name)) (\<lambda>_.
    bind_action (ignore (fc_stop_vmm F name)) (\<lambda>_.
    bind_action (ignore (fc_wait F name)) (\<lambda>_.
    ignore (fc_cancel F name)))))"

definition fc_Remove :: "'w fc_ops \<Rightarrow> (string \<Rightarrow> 8 word list) \<Rightarrow> string \<Rightarrow> ('w fstate, unit) action" where
  "fc_Remove F sha name st =
    (let H = host_ops.truncate F; d = fst st; d1 = d\<lparr>fv_vms := AList.delete name (fv_vms d)\<rparr>;
         w1 = teardownPortMappings (machine_ops.truncate F) name (snd st);
         w2 = (case map_of (fv_vms d) name of None \<Rightarrow> w1 | Some s \<Rightarrow> snd (stop_machine F name s w1));
         w3 = snd (teardownTAP H (tapName sha name) w2);
         w4 = snd (fc_remove_all F (path_join [fc_stateDir, name]) w3)
     in (Inr (), (d1, w4)))"

definition fc_Status :: "string \<Rightarrow> ('w fstate, rt_status) action" where
  "fc_Status name st =
    (Inr \<lparr>rs_Phase = (if map_of (fv_vms (fst st)) name = None then PhaseUnknown else PhaseRunning), rs_Message = [],
       rs_RestartCount = 0\<rparr>, st)"

definition kernel_cmdline :: "string \<Rightarrow> micro_vm_spec \<Rightarrow> string" where
  "kernel_cmdline guestIP spec =
    (let extra = trim_space (ms_kernel_cmdline_extra spec) in
     ''ro root=/dev/vda console=ttyS0 reboot=k panic=1 pci=off nomodule '' @ kernelIPArg guestIP @
     (if extra \<noteq> [] then '' '' @ extra else []))"

definition rootfs_drive :: "string \<Rightarrow> bool \<Rightarrow> fc_drive" where
  "rootfs_drive path ro = \<lparr>fd_DriveID = ''rootfs'', fd_PathOnHost = path, fd_IsRootDevice = True, fd_IsReadOnly = ro\<rparr>"

definition payload_drive :: "string \<Rightarrow> fc_drive" where
  "payload_drive path = \<lparr>fd_DriveID = ''payload'', fd_PathOnHost = path, fd_IsRootDevice = False, fd_IsReadOnly = False\<rparr>"

definition vm_config :: "(string \<Rightarrow> 8 word list) \<Rightarrow> string \<Rightarrow> string \<Rightarrow> micro_vm_spec \<Rightarrow> fc_drive list \<Rightarrow> fc_config" where
  "vm_config sha name vmDir spec drives =
    \<lparr>fc_SocketPath = path_join [vmDir, ''api.sock''], fc_LogPath = path_join [vmDir, ''combined.log''],
     fc_KernelImagePath = (if ms_image spec \<noteq> [] \<and> ms_kernel_path spec = [] then ''/usr/share/capsule/vmlinux'' else ms_kernel_path spec),
     fc_KernelArgs = kernel_cmdline (guestIPFor sha name) spec, fc_Drives = drives,
     fc_HostDevName = tapName sha name, fc_MacAddress = macForName sha name,
     fc_VsockPath = path_join [vmDir, ''vsock.uds''],
     fc_VcpuCount = (if ms_vcpus spec = 0 then 1 else int (unat (ms_vcpus spec))),
     fc_MemSizeMib = (if ms_memory_mib spec = 0 then 256 else int (unat (ms_memory_mib spec)))\<rparr>"

text \<open>Creating and starting the machine, and in image mode starting the payload; each failure undoes what was
  started.\<close>

definition drop_machine :: "'w fc_ops \<Rightarrow> (string \<Rightarrow> 8 word list) \<Rightarrow> string \<Rightarrow> ('w, unit) action" where
  "drop_machine F sha name =
    bind_action (ignore (fc_cancel F name)) (\<lambda>_. teardownTAP (host_ops.truncate F) (tapName sha name))"

definition drop_running :: "'w fc_ops \<Rightarrow> (string \<Rightarrow> 8 word list) \<Rightarrow> string \<Rightarrow> ('w, unit) action" where
  "drop_running F sha name =
    bind_action (ignore (fc_shutdown F name)) (\<lambda>_.
    bind_action (ignore (fc_stop_vmm F name)) (\<lambda>_. drop_machine F sha name))"

definition start_payload :: "'w fc_ops \<Rightarrow> (string \<Rightarrow> 8 word list) \<Rightarrow> string \<Rightarrow> string \<Rightarrow> oci_payload \<Rightarrow> guest_mount list \<Rightarrow> ('w, unit) action" where
  "start_payload F sha name uds payload guestMounts =
    bind_action (or_else (wrap_action ''guest agent'' (waitForGuestReady F uds)) (drop_running F sha name)) (\<lambda>_.
    or_else (wrap_action ''guest StartPayload'' (fc_start_payload F name payload guestMounts))
      (bind_action (ignore (fc_guest_close F name)) (\<lambda>_. drop_running F sha name)))"

definition launch :: "'w fc_ops \<Rightarrow> (string \<Rightarrow> 8 word list) \<Rightarrow> string \<Rightarrow> string \<Rightarrow> fc_config \<Rightarrow> oci_payload option \<Rightarrow> guest_mount list \<Rightarrow> ('w, unit) action" where
  "launch F sha name vmDir cfg payload guestMounts =
    bind_action (or_else (wrap_action ''open serial log'' (fc_open_serial F (path_join [vmDir, ''vm-serial.log''])))
      (ignore (fc_cancel F name))) (\<lambda>_.
    bind_action (or_else (wrap_action ''new machine'' (fc_new_machine F name cfg)) (drop_machine F sha name)) (\<lambda>_.
    bind_action (or_else (wrap_action ''start machine'' (fc_start_machine F name)) (drop_machine F sha name)) (\<lambda>_.
    (case payload of
       None \<Rightarrow> lift_result (Inr ())
     | Some pl \<Rightarrow> start_payload F sha name (fc_VsockPath cfg) pl guestMounts))))"

text \<open>The tail of \<open>EnsureRunning\<close>: port mappings and specification hash are best effort, then the machine is tracked.\<close>

definition finish_start :: "'w fc_ops \<Rightarrow> (string \<Rightarrow> 8 word list) \<Rightarrow> string \<Rightarrow> string \<Rightarrow> micro_vm_spec \<Rightarrow> string \<Rightarrow> ('w fstate, unit) action" where
  "finish_start F sha name vmDir spec desiredHash st =
    (let w1 = snd (applyPortMappings (machine_ops.truncate F) name (guestIPFor sha name) (ms_ports spec) (snd st));
         w2 = snd (writeSpecHash (host_ops.truncate F) vmDir desiredHash w1);
         vm = \<lparr>vs_tap = tapName sha name, vs_ip = guestIPFor sha name, vs_guest = (ms_image spec \<noteq> [])\<rparr>
     in (Inr (), ((fst st)\<lparr>fv_vms := AList.update name vm (fv_vms (fst st))\<rparr>, w2)))"

definition create_vm :: "'w fc_ops \<Rightarrow> (string \<Rightarrow> 8 word list) \<Rightarrow> (string \<Rightarrow> string) \<Rightarrow> string \<Rightarrow> micro_vm_spec \<Rightarrow> string \<Rightarrow> ('w fstate, unit) action" where
  "create_vm F sha digest name spec desiredHash =
    (let vmDir = path_join [fc_stateDir, name]; imageMode = (ms_image spec \<noteq> []); H = host_ops.truncate F in
     bind_action (wrap_action ''mkdir'' (on_host (ho_mkdir F vmDir))) (\<lambda>_.
     bind_action (if imageMode
         then bind_action (wrap_action ''prepare payload disk'' (preparePayloadDisk F digest spec vmDir)) (\<lambda>x. lift_result (Inr (Some x)))
         else lift_result (Inr None)) (\<lambda>pd.
     bind_action (wrap_action ''tap setup'' (on_host (setupTAP H (tapName sha name)))) (\<lambda>_.
     bind_action (on_host (ignore (ho_remove F (path_join [vmDir, ''vsock.uds''])))) (\<lambda>_.
     bind_action (on_host (ignore (ho_remove F (path_join [vmDir, ''api.sock''])))) (\<lambda>_.
     bind_action (wrap_action ''prepare volumes'' (on_host (\<lambda>w. (prepareVolumeDrives (\<lambda>p. ho_stat F p w) (ms_mounts spec)
         (rootfs_drive (if imageMode then ''/usr/share/capsule/vm-shared.ext4'' else ms_rootfs_path spec) imageMode #
          (case pd of Some (path, _) \<Rightarrow> if path \<noteq> [] then [payload_drive path] else [] | None \<Rightarrow> [])), w)))) (\<lambda>(guestMounts, drives).
     bind_action (on_host (launch F sha name vmDir (vm_config sha name vmDir spec drives) (map_option snd pd) guestMounts)) (\<lambda>_.
     finish_start F sha name vmDir spec desiredHash))))))))"

definition fc_EnsureRunning :: "'w fc_ops \<Rightarrow> (string \<Rightarrow> 8 word list) \<Rightarrow> (string \<Rightarrow> string) \<Rightarrow> (spec_message \<Rightarrow> 8 word list result) \<Rightarrow>
    (8 word list \<Rightarrow> string) \<Rightarrow> workload \<Rightarrow> ('w fstate, unit) action" where
  "fc_EnsureRunning F sha digest marshal sha256_hex wl st =
    (case wl_micro_vm wl of
       None \<Rightarrow> (Inl (Errorf ''workload has no micro_vm spec''), st)
     | Some spec \<Rightarrow>
        (case validateSpec (host_ops.truncate F) spec (snd st) of
           Some e \<Rightarrow> (Inl e, st)
         | None \<Rightarrow>
            (case SpecHash marshal sha256_hex wl of
               Inl e \<Rightarrow> (Inl e, st)
             | Inr desiredHash \<Rightarrow>
                (let name = wl_name wl;
                     runningHash = readSpecHash (host_ops.truncate F) (path_join [fc_stateDir, name]) (snd st)
                 in if map_of (fv_vms (fst st)) name = None then create_vm F sha digest name spec desiredHash st
                    else if runningHash = [] \<or> runningHash = desiredHash then (Inr (), st)
                    else bind_action (wrap_action ''remove stale vm'' (fc_Remove F sha name)) (\<lambda>_.
                      create_vm F sha digest name spec desiredHash) st))))"

section \<open>Logs and exec\<close>

text \<open>What the guest agent streams back for an exec session.\<close>

datatype exec_message = ExecStdout string | ExecStderr string | ExecExitCode int

text \<open>
  The streams of the agent: the chunks of a log stream, and the messages of an exec session with
  the error that ended it. The configuration of the session is command, terminal flag and environment.
\<close>

record 'w guest_streams =
  gs_logs :: "string \<Rightarrow> bool \<Rightarrow> 32 word \<Rightarrow> ('w, string list) action"
  gs_open_serial :: "string \<Rightarrow> 'w \<Rightarrow> string result"
  gs_exec :: "string \<Rightarrow> string list \<Rightarrow> bool \<Rightarrow> (string \<times> string) list \<Rightarrow> ('w, exec_message list \<times> go_error option) action"

definition has_guest :: "fc_driver \<Rightarrow> string \<Rightarrow> bool" where
  "has_guest d name = (case map_of (fv_vms d) name of None \<Rightarrow> False | Some s \<Rightarrow> vs_guest s)"

text \<open>The reader of a log stream: the chunks still to be received and the rest of the last one. A read into a buffer of \<open>n\<close> bytes
  returns at most one chunk; \<open>None\<close> is the end of the stream.\<close>

record logs_reader =
  lr_stream :: "string list"
  lr_pending :: string

definition logs_Read :: "nat \<Rightarrow> logs_reader \<Rightarrow> string option \<times> logs_reader" where
  "logs_Read n r =
    (if lr_pending r = [] then
       (case lr_stream r of
          [] \<Rightarrow> (None, r)
        | chunk # rest \<Rightarrow> (Some (take n chunk), \<lparr>lr_stream = rest, lr_pending = drop n chunk\<rparr>))
     else (Some (take n (lr_pending r)), r\<lparr>lr_pending := drop n (lr_pending r)\<rparr>))"

definition fc_Logs :: "'w guest_streams \<Rightarrow> string \<Rightarrow> bool \<Rightarrow> int \<Rightarrow> ('w fstate, logs_reader) action" where
  "fc_Logs G name follow tailLines st =
    (if \<not> has_guest (fst st) name then (Inl (Errorf ''no running vm''), st)
     else bind_action (on_host (gs_logs G name follow (word_of_int tailLines)))
       (\<lambda>chunks. lift_result (Inr \<lparr>lr_stream = chunks, lr_pending = []\<rparr>)) st)"

text \<open>Without following, the reader is the file. Following waits for more bytes at its end.\<close>

definition fc_SerialLogs :: "'w guest_streams \<Rightarrow> string \<Rightarrow> bool \<Rightarrow> ('w fstate, string) action" where
  "fc_SerialLogs G name follow st = (gs_open_serial G (path_join [fc_stateDir, name, ''vm-serial.log'']) (snd st), st)"

text \<open>Draining an exec session: output is passed on, the last exit code wins, and none is \<open>-1\<close>.\<close>

fun drain_exec :: "exec_message list \<Rightarrow> int \<times> string \<times> string \<Rightarrow> int \<times> string \<times> string" where
  "drain_exec [] acc = acc"
| "drain_exec (ExecStdout s # ms) (exit, out, err) = drain_exec ms (exit, out @ s, err)"
| "drain_exec (ExecStderr s # ms) (exit, out, err) = drain_exec ms (exit, out, err @ s)"
| "drain_exec (ExecExitCode c # ms) (exit, out, err) = drain_exec ms (c, out, err)"

definition fc_Exec :: "'w guest_streams \<Rightarrow> exec_request \<Rightarrow> ('w fstate, int \<times> string \<times> string) action" where
  "fc_Exec G req st =
    (if \<not> has_guest (fst st) (er_Name req) then (Inl (Errorf ''no running vm''), st)
     else bind_action (on_host (gs_exec G (er_Name req) (er_Command req) (er_TTY req) (er_Env req)))
       (\<lambda>(ms, e). lift_result (case e of Some err \<Rightarrow> Inl err | None \<Rightarrow> Inr (drain_exec ms (- 1, [], [])))) st)"

section \<open>Addresses are well formed\<close>

lemma length_hex_bytes: "length (concat (map hex_byte bs)) = 2 * length bs"
  by (induction bs) (simp_all add: hex_byte_def)

lemma bit_or_2: "bit (or (and (b :: 8 word) 0xFE) 0x02) 1" "\<not> bit (or (and (b :: 8 word) 0xFE) 0x02) 0"
  by (simp_all add: bit_or_iff bit_and_iff bit_numeral_rec)

text \<open>the addresses derived from a workload's name are usable. The interface name has at most the 15 characters
  the kernel allows, the hardware address has six bytes with the locally administered bit set and the multicast bit clear, and the
  last part of the guest's IP address lies between 2 and 253, outside the gateway and broadcast addresses.\<close>

theorem derived_addresses_usable:
  assumes "sha_ok sha"
  shows "length (tapName sha workload) \<le> 15 \<and>
    length (mac_bytes sha workload) = 6 \<and> bit (mac_bytes sha workload ! 0) 1 \<and> \<not> bit (mac_bytes sha workload ! 0) 0 \<and>
    2 \<le> guest_host sha workload \<and> guest_host sha workload \<le> 253"
proof -
  have l: "length (sha workload) = 32" using assms by (simp add: sha_ok_def)
  have "mac_bytes sha workload ! 0 = or (and (take 6 (sha workload) ! 0) 0xFE) 0x02" using l by (simp add: mac_bytes_def Let_def)
  moreover have "guest_host sha workload \<le> 253"
    using mod_less_divisor [of 252 "256 * unat (sha workload ! 0) + unat (sha workload ! 1)"] by (simp add: guest_host_def Let_def)
  ultimately show ?thesis
    using l bit_or_2 by (simp add: tapName_def length_hex_bytes mac_bytes_def guest_host_def Let_def)
qed

theorem derived_addresses_usable_witness:
  "length (tapName (\<lambda>_. replicate 32 0xFF) ''web'') \<le> 15 \<and> guest_host (\<lambda>_. replicate 32 0xFF) ''web'' \<le> 253"
  using derived_addresses_usable [of "\<lambda>_. replicate 32 0xFF" "''web''"] by (simp add: sha_ok_def)

section \<open>Console lines do not depend on how the output arrives\<close>

text \<open>What the console shows of an output: every complete line with the prefix before it.\<close>

definition prefixed_lines :: "string \<Rightarrow> string \<Rightarrow> string" where
  "prefixed_lines prefix s = concat (map (\<lambda>l. prefix @ l @ [CHR 0x0A]) (butlast (split_on CHR 0x0A s)))"

lemma line_end:
  assumes "c \<in> set s"
  obtains b where "s = takeWhile (\<lambda>x. x \<noteq> c) s @ c # b"
proof -
  have "dropWhile (\<lambda>x. x \<noteq> c) s \<noteq> []" using assms by (simp add: dropWhile_eq_Nil_conv)
  then have "dropWhile (\<lambda>x. x \<noteq> c) s = c # tl (dropWhile (\<lambda>x. x \<noteq> c) s)"
    using hd_dropWhile [of "\<lambda>x. x \<noteq> c" s] by (metis list.collapse)
  then show thesis using that takeWhile_dropWhile_id [of "\<lambda>x. x \<noteq> c" s] by metis
qed

lemma write_lines_spec:
  "write_lines prefix buf out = (out @ prefixed_lines prefix buf, last (split_on CHR 0x0A buf))"
proof (induction prefix buf out rule: write_lines.induct)
  case (1 prefix buf out)
  show ?case
  proof (cases "CHR 0x0A \<in> set buf")
    case True
    let ?a = "takeWhile (\<lambda>c. c \<noteq> CHR 0x0A) buf"
    obtain b where b: "buf = ?a @ CHR 0x0A # b" using line_end [OF True] .
    have a: "CHR 0x0A \<notin> set ?a" by (auto dest: set_takeWhileD)
    have t: "take (length ?a + 1) (?a @ CHR 0x0A # b) = ?a @ [CHR 0x0A]" "drop (length ?a + 1) (?a @ CHR 0x0A # b) = b" by simp_all
    have sp: "split_on CHR 0x0A (?a @ CHR 0x0A # b) = ?a # split_on CHR 0x0A b" by (rule split_on_append [OF a])
    have "write_lines prefix buf out = write_lines prefix b (out @ prefix @ ?a @ [CHR 0x0A])"
      using True t unfolding b [symmetric] by (subst write_lines.simps) (simp only: if_True Let_def)
    also have "\<dots> = (out @ prefix @ ?a @ [CHR 0x0A] @ prefixed_lines prefix b, last (split_on CHR 0x0A b))"
      using 1 [OF True refl] t unfolding b [symmetric] by simp
    finally show ?thesis using sp unfolding b [symmetric] by (simp add: prefixed_lines_def)
  next
    case False
    then show ?thesis by (simp add: write_lines.simps [of prefix buf out] split_on_plain prefixed_lines_def)
  qed
qed

lemma split_on_concat: "split_on c (s @ b) = butlast (split_on c s) @ split_on c (last (split_on c s) @ b)"
proof (induction s)
  case (Cons x s)
  show ?case
  proof (cases "x = c")
    case False
    obtain w ws where w: "split_on c s = w # ws" by (meson neq_Nil_conv split_on_ne)
    show ?thesis using Cons w False by (cases ws) (auto split: list.split)
  qed (use Cons in simp)
qed simp

lemma prefixed_lines_append:
  "prefixed_lines prefix (s @ b) = prefixed_lines prefix s @ prefixed_lines prefix (last (split_on CHR 0x0A s) @ b)"
  by (simp add: prefixed_lines_def split_on_concat [of _ s b] butlast_append)

definition console_writer :: "string \<Rightarrow> prefixed_writer" where
  "console_writer prefix = \<lparr>pw_prefix = prefix, pw_out = [], pw_tail = []\<rparr>"

text \<open>C18: the console does not depend on how the serial output arrives. However the output is cut into writes, the console shows every
  complete line of it once, in order, with the prefix, and the unfinished line is kept for the next write.\<close>

theorem console_independent_of_chunks:
  "fold (\<lambda>b p. snd (prefixed_Write b p)) chunks (console_writer prefix) =
    \<lparr>pw_prefix = prefix, pw_out = prefixed_lines prefix (concat chunks), pw_tail = last (split_on CHR 0x0A (concat chunks))\<rparr>"
proof -
  have "fold (\<lambda>b p. snd (prefixed_Write b p)) chunks
      \<lparr>pw_prefix = prefix, pw_out = prefixed_lines prefix s, pw_tail = last (split_on CHR 0x0A s)\<rparr> =
    \<lparr>pw_prefix = prefix, pw_out = prefixed_lines prefix (s @ concat chunks), pw_tail = last (split_on CHR 0x0A (s @ concat chunks))\<rparr>" for s
  proof (induction chunks arbitrary: s)
    case (Cons b chunks)
    have "snd (prefixed_Write b \<lparr>pw_prefix = prefix, pw_out = prefixed_lines prefix s, pw_tail = last (split_on CHR 0x0A s)\<rparr>) =
      \<lparr>pw_prefix = prefix, pw_out = prefixed_lines prefix (s @ b), pw_tail = last (split_on CHR 0x0A (s @ b))\<rparr>"
      unfolding prefixed_Write_def prefixed_lines_append [of prefix s b] split_on_concat [of "CHR 0x0A" s b]
      by (simp add: write_lines_spec)
    then show ?case using Cons [of "s @ b"] by simp
  qed simp
  from this [of "[]"] show ?thesis by (simp add: console_writer_def prefixed_lines_def)
qed

section \<open>Waiting for the guest agent ends\<close>

lemma guest_loop_ends:
  assumes adv: "\<And>w e w1. guest_attempt F uds w = (Inl e, w1) \<Longrightarrow> clock w + 50 \<le> clock (ho_settle F w1)"
    and exp: "\<And>w. fc_expired F w \<longleftrightarrow> deadline \<le> clock w"
  shows "deadline \<le> clock w + 50 * int n \<Longrightarrow> \<exists>r. guest_loop F (Suc n) uds lastErr w = Some r"
proof (induction n arbitrary: lastErr w)
  case (Suc n)
  obtain q w1 where a: "guest_attempt F uds w = (q, w1)" by fastforce
  show ?case
  proof (cases q)
    case (Inl e)
    have "deadline \<le> clock (ho_settle F w1) + 50 * int n" using adv [OF a [unfolded Inl]] Suc.prems by simp
    from Suc.IH [OF this] show ?thesis
      by (subst guest_loop.simps) (auto simp: a Inl simp del: guest_loop.simps split: option.split)
  qed (simp add: a)
qed (simp add: exp)

text \<open>C17: waiting for the guest agent ends. When every failed attempt with the pause after it takes at least 50 ms and the deadline is at
  most 60 s away, the loop returns within its bound on the attempts, whatever the agent answers.\<close>

theorem guest_wait_terminates:
  fixes clock :: "'w \<Rightarrow> int"
  assumes adv: "\<And>w e w1. guest_attempt F uds w = (Inl e, w1) \<Longrightarrow> clock w + 50 \<le> clock (ho_settle F w1)"
    and exp: "\<And>w. fc_expired F w \<longleftrightarrow> deadline \<le> clock w" and dl: "deadline \<le> clock w + 60000"
  shows "\<exists>r. guest_loop F guest_fuel uds (Errorf ''nil'') w = Some r \<and> waitForGuestReady F uds w = r"
proof -
  have fuel: "guest_fuel = Suc 1201" by (simp add: guest_fuel_def)
  have d: "deadline \<le> clock w + 50 * int 1201" using dl by simp
  have "\<exists>r. guest_loop F guest_fuel uds (Errorf ''nil'') w = Some r"
    unfolding fuel by (rule guest_loop_ends [where clock = clock, OF _ exp d]) (rule adv)
  then obtain r where "guest_loop F guest_fuel uds (Errorf ''nil'') w = Some r" by (rule exE)
  then show ?thesis unfolding waitForGuestReady_def by (simp only: option.case option.inject) blast
qed

section \<open>The driver keeps the contract of the reconciler\<close>

definition vm_tracked :: "'w fstate \<Rightarrow> string \<Rightarrow> bool" where
  "vm_tracked st k \<longleftrightarrow> map_of (fv_vms (fst st)) k \<noteq> None"

definition tracks :: "string \<Rightarrow> bool \<Rightarrow> 'w fstate \<Rightarrow> bool" where
  "tracks k b st \<longleftrightarrow> vm_tracked st k = b"

lemma tracks_on_host: "keeps (tracks k b) (on_host m)"
  by (auto simp: keeps_def tracks_def vm_tracked_def on_host_def split: prod.splits)

lemma tracks_containerd: "keeps (tracks k b) (ensure_containerd F)"
  by (auto simp: keeps_def tracks_def vm_tracked_def ensure_containerd_def split: prod.split sum.split)

lemma tracks_payload: "keeps (tracks k b) (preparePayloadDisk F digest spec vmDir)"
  unfolding preparePayloadDisk_def Let_def by (intro keeps_rules tracks_on_host tracks_containerd)

lemma tracks_Remove: "k \<noteq> name \<Longrightarrow> keeps (tracks k b) (fc_Remove F sha name)"
  by (auto simp: keeps_def tracks_def vm_tracked_def fc_Remove_def Let_def delete_conv')

lemma Remove_untracks: "tracks name False (snd (fc_Remove F sha name st))"
  by (simp add: tracks_def vm_tracked_def fc_Remove_def Let_def delete_conv')

lemma tracks_finish: "k \<noteq> name \<Longrightarrow> keeps (tracks k b) (finish_start F sha name vmDir spec h)"
  by (auto simp: keeps_def tracks_def vm_tracked_def finish_start_def Let_def update_conv')

lemma finish_tracks: "tracks name True (snd (finish_start F sha name vmDir spec h st))"
  by (simp add: tracks_def vm_tracked_def finish_start_def Let_def update_conv')

lemma tracks_create: "k \<noteq> name \<Longrightarrow> keeps (tracks k b) (create_vm F sha digest name spec h)"
  unfolding create_vm_def Let_def by (intro keeps_rules tracks_payload tracks_on_host tracks_finish)

lemma tracks_EnsureRunning:
  assumes "k \<noteq> wl_name wl"
  shows "keeps (tracks k b) (fc_EnsureRunning F sha digest marshal hex wl)"
proof -
  have "keeps (tracks k b) (bind_action (wrap_action msg (fc_Remove F sha (wl_name wl))) (\<lambda>_. create_vm F sha digest (wl_name wl) spec h))"
    "keeps (tracks k b) (create_vm F sha digest (wl_name wl) spec h)" for msg spec h
    by (intro keeps_rules tracks_Remove tracks_create assms)+
  then show ?thesis unfolding keeps_def fc_EnsureRunning_def Let_def by (auto split: option.split sum.split)
qed

lemma create_tracks: "ensures (tracks name True) (create_vm F sha digest name spec h)"
proof -
  have "ensures (tracks name True) (finish_start F sha name vmDir spec h)" for vmDir
    using finish_tracks unfolding ensures_def by (metis snd_conv)
  then show ?thesis unfolding create_vm_def Let_def by (intro ensures_bind ensures_case_prod)
qed

lemma EnsureRunning_tracks:
  assumes "fc_EnsureRunning F sha digest marshal hex wl st = (Inr x, st')"
  shows "tracks (wl_name wl) True st'"
proof -
  let ?n = "wl_name wl"
  let ?again = "\<lambda>spec h. bind_action (wrap_action ''remove stale vm'' (fc_Remove F sha ?n)) (\<lambda>_. create_vm F sha digest ?n spec h)"
  obtain spec where s: "wl_micro_vm wl = Some spec" using assms by (cases "wl_micro_vm wl") (simp_all add: fc_EnsureRunning_def)
  have v: "validateSpec (host_ops.truncate F) spec (snd st) = None"
    using assms s by (cases "validateSpec (host_ops.truncate F) spec (snd st)") (simp_all add: fc_EnsureRunning_def)
  obtain h where h: "SpecHash marshal hex wl = Inr h" using assms s v by (cases "SpecHash marshal hex wl") (simp_all add: fc_EnsureRunning_def)
  have again: "ensures (tracks ?n True) (?again spec h)" by (intro ensures_bind create_tracks)
  show ?thesis
  proof (cases "vm_tracked st ?n")
    case True
    then have "st' = st \<or> ?again spec h st = (Inr x, st')"
      using assms s v h by (simp add: fc_EnsureRunning_def Let_def vm_tracked_def split: if_splits)
    then show ?thesis
    proof
      assume "st' = st"
      then show ?thesis using True by (simp add: tracks_def)
    qed (rule ensuresD [OF again])
  next
    case False
    then have "create_vm F sha digest ?n spec h st = (Inr x, st')"
      using assms s v h by (simp add: fc_EnsureRunning_def Let_def vm_tracked_def)
    then show ?thesis by (rule ensuresD [OF create_tracks])
  qed
qed


section \<open>Volumes of a virtual machine\<close>

definition volume_drive :: "volume_mount \<Rightarrow> fc_drive" where
  "volume_drive m = \<lparr>fd_DriveID = ''vol_'' @ sanitizeID (vm_volume_name m), fd_PathOnHost = HostPath (vm_volume_name m),
     fd_IsRootDevice = False, fd_IsReadOnly = vm_read_only m\<rparr>"

definition volume_guest :: "8 word \<Rightarrow> volume_mount \<Rightarrow> guest_mount" where
  "volume_guest letter m = \<lparr>gm_Device = ''/dev/vd'' @ [char_of (unat letter)], gm_MountPath = vm_mount_path m, gm_Fstype = ''ext4'',
     gm_ReadOnly = vm_read_only m\<rparr>"

lemma volume_drives_ok:
  "volume_drives stat letter ms drives out = Inr (gms, ds) \<Longrightarrow>
   ds = drives @ map volume_drive ms \<and> gms = out @ map (\<lambda>(i, m). volume_guest (letter + of_nat i) m) (enumerate 0 ms)"
proof (induction stat letter ms drives out arbitrary: gms ds rule: volume_drives.induct)
  case (2 stat letter m ms drives out)
  then have "ds = (drives @ [volume_drive m]) @ map volume_drive ms \<and>
      gms = (out @ [volume_guest letter m]) @ map (\<lambda>(i, m). volume_guest (letter + 1 + of_nat i) m) (enumerate 0 ms)"
    by (auto simp: volume_drive_def volume_guest_def split: if_splits option.splits)
  moreover have "enumerate (Suc 0) ms = map (\<lambda>(i, m). (Suc i, m)) (enumerate 0 ms)"
    by (simp add: enumerate_eq_zip map_Suc_upt [symmetric] zip_map1 del: map_Suc_upt upt_Suc)
  ultimately show ?case by (simp add: case_prod_beta add.assoc)
qed simp

text \<open>a volume appears in the guest where the guest is told to mount it. The drives of a virtual machine in image mode start with the root file
  system and the payload; for up to 24 volumes, the device named for the i-th mount is the one the kernel gives to the drive of that
  volume, counting drives from \<^verbatim>\<open>/dev/vda\<close>, with the access the mount asks for.\<close>

theorem volume_devices_match_drives:
  assumes "prepareVolumeDrives stat mounts [root, payload] = Inr (gms, drives)" "length mounts \<le> 24" "i < length mounts"
  shows "drives ! (i + 2) = volume_drive (mounts ! i) \<and> gm_Device (gms ! i) = ''/dev/vd'' @ [char_of (97 + (i + 2))] \<and>
    gm_MountPath (gms ! i) = vm_mount_path (mounts ! i) \<and> gm_ReadOnly (gms ! i) = fd_IsReadOnly (drives ! (i + 2))"
proof -
  have "volume_drives stat 99 mounts [root, payload] [] = Inr (gms, drives)"
    using assms(1,3) by (auto simp: prepareVolumeDrives_def split: if_splits)
  from volume_drives_ok [OF this] have d: "drives = [root, payload] @ map volume_drive mounts"
    "gms = map (\<lambda>(i, m). volume_guest (99 + of_nat i) m) (enumerate 0 mounts)" by simp_all
  have "unat (99 + of_nat i :: 8 word) = 99 + i" using assms(2,3) by (simp add: unat_word_ariths unat_of_nat)
  then show ?thesis using assms(3) by (simp add: d volume_guest_def volume_drive_def nth_enumerate_eq)
qed

theorem volume_devices_match_drives_witness:
  "gm_Device (fst (projr (prepareVolumeDrives (\<lambda>_. None) [\<lparr>vm_volume_name = ''data'', vm_mount_path = ''/data'', vm_read_only = True\<rparr>]
     [rootfs_drive ''r'' True, payload_drive ''p''])) ! 0) = ''/dev/vdc''"
proof -
  let ?m = "\<lparr>vm_volume_name = ''data'', vm_mount_path = ''/data'', vm_read_only = True\<rparr>"
  have "prepareVolumeDrives (\<lambda>_. None) [?m] [rootfs_drive ''r'' True, payload_drive ''p''] =
    Inr (fst (projr (prepareVolumeDrives (\<lambda>_. None) [?m] [rootfs_drive ''r'' True, payload_drive ''p''])),
         snd (projr (prepareVolumeDrives (\<lambda>_. None) [?m] [rootfs_drive ''r'' True, payload_drive ''p''])))"
    by (simp add: prepareVolumeDrives_def)
  from volume_devices_match_drives [OF this, of 0]
  have "gm_Device (fst (projr (prepareVolumeDrives (\<lambda>_. None) [?m] [rootfs_drive ''r'' True, payload_drive ''p''])) ! 0) = ''/dev/vd'' @ [char_of (99 :: nat)]"
    by simp
  moreover have "char_of (99 :: nat) = CHR ''c''" by code_simp
  ultimately show ?thesis by simp
qed

text \<open>The payload file has room for the content and at least 50 MiB or a fifth of it more, in whole MiB.\<close>

lemma ext4_size_room:
  assumes "0 \<le> used" "used < 2 ^ 60"
  shows "ext4_size used \<ge> used + max (50 * 1024 * 1024) (used div 5)" "ext4_size used mod (1024 * 1024) = 0"
proof -
  let ?M = "1048576 :: int"
  define h where "h = max (50 * ?M) (used div 5)"
  have h: "50 * ?M \<le> h" "used div 5 \<le> h" "h \<le> 50 * ?M + used" using assms by (auto simp: h_def)
  have 1: "int64 (used + h) = used + h" "int64 (used + h + (?M - 1)) = used + h + (?M - 1)"
    by (rule int64_id; use assms h in simp)+
  define d where "d = (used + h + (?M - 1)) div ?M"
  have d: "used + h \<le> d * ?M" "d * ?M \<le> used + h + (?M - 1)" unfolding d_def by linarith+
  then have "int64 (d * ?M) = d * ?M" by (intro int64_id) (use assms h in simp_all)
  moreover have "(if used div 5 > 50 * ?M then used div 5 else 50 * ?M) = h" by (simp add: h_def max_def)
  ultimately have "ext4_size used = d * ?M" using 1 by (simp add: ext4_size_def Let_def d_def)
  then show "ext4_size used \<ge> used + max (50 * 1024 * 1024) (used div 5)" "ext4_size used mod (1024 * 1024) = 0"
    using d(1) by (simp_all add: h_def)
qed

section \<open>An example machine\<close>

text \<open>A machine whose state is a clock in milliseconds and whose guest agent never answers.\<close>

definition clock_nop :: "(int, unit) action" where "clock_nop w = (Inr (), w)"

definition clock_machine :: "int fc_ops" where
  "clock_machine =
    \<lparr>mo_exec = (\<lambda>_ _ w. (ExecOk [], w)), mo_blk = (\<lambda>_ _. BlkNoDevice), ho_sys = (\<lambda>_.
       \<lparr>sy_cmdline = Inr [], sy_mounts = Inr [], sy_blocks = Inr [], sy_partition = (\<lambda>_. None), sy_target = (\<lambda>_. None),
        sy_removable = (\<lambda>_. None), sy_size = (\<lambda>_. None), sy_dev = (\<lambda>_. Inr []), sy_nets = Inr [], sy_address = (\<lambda>_. None)\<rparr>),
     ho_read = (\<lambda>_ _. Inr []), ho_write = (\<lambda>_ _. clock_nop), ho_mkdir = (\<lambda>_. clock_nop), ho_remove = (\<lambda>_. clock_nop),
     ho_rename = (\<lambda>_ _. clock_nop), ho_symlink = (\<lambda>_ _. clock_nop), ho_stat = (\<lambda>_ _. None), ho_appears = (\<lambda>_ _. True),
     ho_mount = (\<lambda>_. clock_nop), ho_sethostname = (\<lambda>_. clock_nop), ho_settle = (\<lambda>w. w + 50),
     ho_io = (\<lambda>_ _. \<lparr>dv_open = None, dv_seek = None, dv_sync = None, dv_read = (\<lambda>_. None), dv_write = (\<lambda>_. None)\<rparr>),
     ho_set = (\<lambda>_ _ w. w), ho_rand = (\<lambda>n w. (Inr (replicate n 0), w)),
     fc_dial = clock_nop, fc_get_image = (\<lambda>r _. Inr r), fc_pull = (\<lambda>r w. (Inr r, w)), fc_remove_all = (\<lambda>_. clock_nop),
     fc_rootfs = (\<lambda>_ _. Inr []), fc_snap_remove = (\<lambda>_. clock_nop), fc_snap_view = (\<lambda>_ _ w. (Inr [], w)),
     fc_mkdtemp = (\<lambda>w. (Inr ''/tmp/m'', w)), fc_copy_tree = (\<lambda>_ _. clock_nop), fc_config_desc = (\<lambda>_ _. Inr []),
     fc_read_content = (\<lambda>_ _. Inr []), fc_parse_config = (\<lambda>_. None), fc_file_sizes = (\<lambda>_ _. []),
     fc_truncate = (\<lambda>_ _. clock_nop), fc_open_serial = (\<lambda>_. clock_nop), fc_new_machine = (\<lambda>_ _. clock_nop),
     fc_start_machine = (\<lambda>_. clock_nop), fc_shutdown = (\<lambda>_. clock_nop), fc_stop_vmm = (\<lambda>_. clock_nop), fc_wait = (\<lambda>_. clock_nop),
     fc_cancel = (\<lambda>_. clock_nop), fc_guest_dial = (\<lambda>_ w. (Inl (Errorf ''refused''), w)), fc_guest_ping = (\<lambda>_. clock_nop),
     fc_expired = (\<lambda>w. 60000 \<le> w), fc_cancelled = (\<lambda>_. None), fc_guest_close = (\<lambda>_. clock_nop),
     fc_start_payload = (\<lambda>_ _ _. clock_nop), fc_guest_stop = (\<lambda>_. clock_nop)\<rparr>"

theorem guest_wait_terminates_witness:
  "\<exists>r. guest_loop clock_machine guest_fuel ''vsock.uds'' (Errorf ''nil'') 0 = Some r \<and> waitForGuestReady clock_machine ''vsock.uds'' 0 = r"
  by (rule guest_wait_terminates [where clock = "\<lambda>w. w" and deadline = 60000])
    (auto simp: clock_machine_def guest_attempt_def)

end
