(* ===== verification/Capsule_Path.thy ===== *)
theory Capsule_Path
  imports Capsule_Prelude
begin

text \<open>
  Slash-separated paths as the Go packages \<^verbatim>\<open>path\<close> and (on Linux) \<^verbatim>\<open>path/filepath\<close> treat them, with lemmas on when a joined path
  stays below its directory.
\<close>

definition path_is_abs :: "string \<Rightarrow> bool" where
  "path_is_abs p \<longleftrightarrow> p \<noteq> [] \<and> hd p = CHR ''/''"

text \<open>The functions \<open>Clean\<close>, \<open>Dir\<close> and \<open>Base\<close> of the package \<open>path\<close>. The kept elements are held in reverse.\<close>

fun clean_elems :: "bool \<Rightarrow> string list \<Rightarrow> string list \<Rightarrow> string list" where
  "clean_elems rooted kept [] = rev kept"
| "clean_elems rooted kept (e # es) =
    (if e = [] \<or> e = ''.'' then clean_elems rooted kept es
     else if e = ''..'' then
       (if kept \<noteq> [] \<and> hd kept \<noteq> ''..'' then clean_elems rooted (tl kept) es
        else if rooted then clean_elems rooted kept es
        else clean_elems rooted (e # kept) es)
     else clean_elems rooted (e # kept) es)"

definition go_path_Clean :: "string \<Rightarrow> string" where
  "go_path_Clean p =
    (let rooted = path_is_abs p; s = join_with CHR ''/'' (clean_elems rooted [] (split_on CHR ''/'' p))
     in if rooted then CHR ''/'' # s else if s = [] then ''.'' else s)"

definition go_path_Dir :: "string \<Rightarrow> string" where
  "go_path_Dir p = go_path_Clean (join_with CHR ''/'' (butlast (split_on CHR ''/'' p)) @ (if CHR ''/'' \<in> set p then ''/'' else []))"

definition go_path_Base :: "string \<Rightarrow> string" where
  "go_path_Base p =
    (let q = rev (dropWhile (\<lambda>c. c = CHR ''/'') (rev p))
     in if p = [] then ''.'' else if q = [] then ''/'' else last (split_on CHR ''/'' q))"

text \<open>\<open>filepath.Join\<close> of two elements: empty elements are left out.\<close>

definition go_path_Join :: "string \<Rightarrow> string \<Rightarrow> string" where
  "go_path_Join a b =
    (if a = [] \<and> b = [] then [] else if a = [] then go_path_Clean b else if b = [] then go_path_Clean a
     else go_path_Clean (a @ ''/'' @ b))"

text \<open>\<open>filepath.Abs\<close> with the working directory \<open>cwd\<close>.\<close>

definition go_path_Abs :: "string \<Rightarrow> string \<Rightarrow> string" where
  "go_path_Abs cwd p = (if path_is_abs p then go_path_Clean p else go_path_Join cwd p)"

section \<open>Cleaning\<close>

text \<open>An element that is neither dropped nor steps up.\<close>

definition plain_elem :: "string \<Rightarrow> bool" where
  "plain_elem e \<longleftrightarrow> e \<noteq> [] \<and> e \<noteq> ''.'' \<and> e \<noteq> ''..''"

lemma clean_elems_forward:
  "''..'' \<notin> set es \<Longrightarrow> clean_elems rooted kept es = rev kept @ filter plain_elem es"
  by (induction rooted kept es rule: clean_elems.induct) (auto simp: plain_elem_def)

lemma clean_elems_append:
  "clean_elems rooted kept (es @ fs) = clean_elems rooted (rev (clean_elems rooted kept es)) fs"
  by (induction rooted kept es rule: clean_elems.induct) auto

text \<open>The elements of a cleaned absolute path.\<close>

definition abs_elems :: "string \<Rightarrow> string list" where
  "abs_elems p = clean_elems True [] (split_on CHR ''/'' p)"

lemma Clean_abs: "path_is_abs p \<Longrightarrow> go_path_Clean p = CHR ''/'' # join_with CHR ''/'' (abs_elems p)"
  by (simp add: go_path_Clean_def abs_elems_def Let_def)

lemma abs_elems_below: "''..'' \<notin> set (split_on CHR ''/'' n) \<Longrightarrow>
    abs_elems (d @ CHR ''/'' # n) = abs_elems d @ filter plain_elem (split_on CHR ''/'' n)"
  by (simp add: abs_elems_def split_on_sep clean_elems_append clean_elems_forward)

lemma join_with_append: "xs \<noteq> [] \<Longrightarrow> ys \<noteq> [] \<Longrightarrow> join_with c (xs @ ys) = join_with c xs @ c # join_with c ys"
proof (induction c xs rule: join_with.induct)
  case (2 c w)
  then show ?case by (cases ys) simp_all
qed simp_all

text \<open>A path at or below a directory, as the client tests it.\<close>

definition path_within :: "string \<Rightarrow> string \<Rightarrow> bool" where
  "path_within d p \<longleftrightarrow> has_prefix p (d @ ''/'') \<or> p = d"

lemma joined_path_within:
  assumes "path_is_abs d" "abs_elems d \<noteq> []" "''..'' \<notin> set (split_on CHR ''/'' n)"
  shows "path_within (go_path_Clean d) (go_path_Clean (d @ CHR ''/'' # n))"
proof -
  let ?r = "filter plain_elem (split_on CHR ''/'' n)"
  have a: "path_is_abs (d @ CHR ''/'' # n)" using assms(1) by (simp add: path_is_abs_def)
  have e: "abs_elems (d @ CHR ''/'' # n) = abs_elems d @ ?r" by (rule abs_elems_below [OF assms(3)])
  show ?thesis
  proof (cases "?r = []")
    case True
    then show ?thesis by (simp add: path_within_def Clean_abs [OF a] Clean_abs [OF assms(1)] e)
  next
    case False
    have "go_path_Clean (d @ CHR ''/'' # n) = (go_path_Clean d @ ''/'') @ join_with CHR ''/'' ?r"
      by (simp add: Clean_abs [OF a] Clean_abs [OF assms(1)] e join_with_append [OF assms(2) False])
    then show ?thesis unfolding path_within_def by (simp only: has_prefix_append simp_thms)
  qed
qed

lemma clean_elems_rooted_plain:
  "\<forall>e\<in>set kept. plain_elem e \<Longrightarrow> \<forall>e\<in>set (clean_elems True kept es). plain_elem e"
proof (induction es arbitrary: kept)
  case (Cons e es)
  consider (skip) "e = [] \<or> e = ''.''" | (up) "e = ''..''" | (keep) "plain_elem e" unfolding plain_elem_def by blast
  then show ?case
  proof cases
    case skip
    then have "clean_elems True kept (e # es) = clean_elems True kept es" by (simp only: clean_elems.simps if_True)
    then show ?thesis using Cons.IH [OF Cons.prems] by (simp only:)
  next
    case up
    have t: "\<forall>e\<in>set (tl kept). plain_elem e" using Cons.prems by (cases kept) simp_all
    have h: "hd kept \<noteq> ''..''" if "kept \<noteq> []" using Cons.prems that by (cases kept) (simp_all add: plain_elem_def)
    show ?thesis unfolding up using h Cons.IH [OF t] Cons.IH [OF Cons.prems] by simp
  next
    case keep
    then have "\<forall>e\<in>set (e # kept). plain_elem e" using Cons.prems by simp
    then have "\<forall>x\<in>set (clean_elems True (e # kept) es). plain_elem x" by (rule Cons.IH)
    then show ?thesis using keep unfolding clean_elems.simps plain_elem_def by (simp only: if_False simp_thms)
  qed
qed simp

lemma clean_elems_subset: "set (clean_elems True kept es) \<subseteq> set kept \<union> set es"
proof (induction es arbitrary: kept)
  case (Cons e es)
  have "set (tl kept) \<subseteq> set kept" by (cases kept) auto
  moreover have "clean_elems True kept (e # es) = clean_elems True kept es \<or> clean_elems True kept (e # es) = clean_elems True (tl kept) es \<or>
      clean_elems True kept (e # es) = clean_elems True (e # kept) es" by simp
  ultimately show ?case using Cons.IH [of kept] Cons.IH [of "tl kept"] Cons.IH [of "e # kept"] by (elim disjE) (simp_all del: clean_elems.simps, blast+)
qed simp

lemma abs_elems_plain: "e \<in> set (abs_elems p) \<Longrightarrow> plain_elem e \<and> CHR ''/'' \<notin> set e"
  using clean_elems_rooted_plain [of "[]" "split_on CHR ''/'' p"] clean_elems_subset [of "[]" "split_on CHR ''/'' p"] split_on_no_sep
  by (fastforce simp: abs_elems_def)

lemma abs_elems_Clean:
  assumes "path_is_abs p"
  shows "abs_elems (go_path_Clean p) = abs_elems p"
proof -
  let ?es = "abs_elems p"
  have f: "filter plain_elem ?es = ?es" using abs_elems_plain by (simp add: filter_id_conv)
  have sp: "split_on CHR ''/'' (go_path_Clean p) = [] # (if ?es = [] then [[]] else ?es)"
    using split_join [of ?es "CHR ''/''"] abs_elems_plain by (simp add: Clean_abs [OF assms])
  have "''..'' \<notin> set ([] # (if ?es = [] then [[]] else ?es))" using abs_elems_plain [of "''..''" p] unfolding plain_elem_def by (simp split: if_splits) blast
  from clean_elems_forward [OF this, of True "[]"] have "abs_elems (go_path_Clean p) = filter plain_elem ([] # (if ?es = [] then [[]] else ?es))"
    unfolding abs_elems_def [of "go_path_Clean p"] sp by (simp only: rev.simps append_Nil)
  also have "\<dots> = ?es" using f by (simp add: plain_elem_def)
  finally show ?thesis .
qed

lemma Clean_abs_abs: "path_is_abs p \<Longrightarrow> path_is_abs (go_path_Clean p)"
  by (simp add: Clean_abs path_is_abs_def)

lemma Clean_idem: "path_is_abs p \<Longrightarrow> go_path_Clean (go_path_Clean p) = go_path_Clean p"
  by (simp add: Clean_abs_abs Clean_abs [of "go_path_Clean p"] abs_elems_Clean) (simp add: Clean_abs)

lemma clean_elems_snoc: "plain_elem e \<Longrightarrow> clean_elems rooted kept (es @ [e]) = clean_elems rooted kept es @ [e]"
  by (simp add: clean_elems_append plain_elem_def)

lemma join_with_ne: "es \<noteq> [] \<Longrightarrow> last es \<noteq> [] \<Longrightarrow> join_with c es \<noteq> []"
  by (induction c es rule: join_with.induct) simp_all

lemma last_join_with: "es \<noteq> [] \<Longrightarrow> last es \<noteq> [] \<Longrightarrow> last (join_with c es) = last (last es)"
proof (induction c es rule: join_with.induct)
  case (3 c w v ws)
  then have "join_with c (v # ws) \<noteq> []" by (cases ws) auto
  then show ?case using 3 by simp
qed simp_all

lemma last_split_on: "last (split_on c s) \<noteq> [] \<Longrightarrow> last (last (split_on c s)) = last s"
  using last_join_with [of "split_on c s" c] by (simp add: join_split)

text \<open>The last character of a name joined to an absolute directory.\<close>

lemma last_Join:
  assumes "path_is_abs d" "plain_elem (last (split_on CHR ''/'' s))"
  shows "last (go_path_Join d s) = last s"
proof -
  let ?e = "last (split_on CHR ''/'' s)"
  have ne: "s \<noteq> []" "d \<noteq> []" "?e \<noteq> []" using assms by (auto simp: plain_elem_def path_is_abs_def)
  have j: "go_path_Join d s = go_path_Clean (d @ CHR ''/'' # s)" using ne by (simp add: go_path_Join_def)
  have sp: "split_on CHR ''/'' (d @ CHR ''/'' # s) = (split_on CHR ''/'' d @ butlast (split_on CHR ''/'' s)) @ [?e]"
    by (simp add: split_on_sep)
  have e: "abs_elems (d @ CHR ''/'' # s) = clean_elems True [] (split_on CHR ''/'' d @ butlast (split_on CHR ''/'' s)) @ [?e]"
    unfolding abs_elems_def sp by (rule clean_elems_snoc [OF assms(2)])
  have "last (join_with CHR ''/'' (abs_elems (d @ CHR ''/'' # s))) = last ?e" unfolding e using ne(3) by (subst last_join_with) simp_all
  moreover have "join_with CHR ''/'' (abs_elems (d @ CHR ''/'' # s)) \<noteq> []" unfolding e using ne(3)
    by (intro join_with_ne) simp_all
  moreover have "path_is_abs (d @ CHR ''/'' # s)" using assms(1) by (simp add: path_is_abs_def)
  ultimately show ?thesis using last_split_on [OF ne(3)] by (simp add: j Clean_abs)
qed

lemma split_on_extend: "split_on c s = us @ [e] \<Longrightarrow> c \<notin> set t \<Longrightarrow> split_on c (s @ t) = us @ [e @ t]"
proof (induction s arbitrary: us e)
  case Nil
  then show ?case by (cases us) (simp_all add: split_on_plain)
next
  case (Cons x s)
  obtain ws v where sp: "split_on c s = ws @ [v]" by (metis append_butlast_last_id split_on_ne)
  have ih: "split_on c (s @ t) = ws @ [v @ t]" by (rule Cons.IH [OF sp Cons.prems(2)])
  show ?case
  proof (cases "x = c")
    case True
    then show ?thesis using Cons.prems(1) sp ih by (cases us) simp_all
  next
    case False
    then show ?thesis using Cons.prems(1) sp ih by (cases ws; cases us) auto
  qed
qed

end
