(* ===== verification/Capsule_Files.thy ===== *)
theory Capsule_Files
  imports Capsule_Prelude
begin

text \<open>
  Replacing a file through a temporary file and a rename, as the registry of the client, its keys and the TLS material of the capsule
  are written. The calls of the operating system are a record of operations on a file system \<open>'f\<close>.
\<close>

record 'f local_ops =
  lo_read :: "string \<Rightarrow> ('f, string) action"
  lo_exists :: "string \<Rightarrow> 'f \<Rightarrow> bool"
  lo_mkdir_all :: "string \<Rightarrow> ('f, unit) action"
  lo_create_temp :: "string \<Rightarrow> ('f, string) action"
  lo_write :: "string \<Rightarrow> string \<Rightarrow> ('f, unit) action"
  lo_chmod :: "string \<Rightarrow> ('f, unit) action"
  lo_close :: "string \<Rightarrow> ('f, unit) action"
  lo_remove :: "string \<Rightarrow> 'f \<Rightarrow> 'f"
  lo_rename :: "string \<Rightarrow> string \<Rightarrow> ('f, unit) action"

definition local_ErrNotExist :: go_error where
  "local_ErrNotExist = Sentinel ''file does not exist''"

definition map_error :: "(go_error \<Rightarrow> go_error) \<Rightarrow> ('f, 'a) action \<Rightarrow> ('f, 'a) action" where
  "map_error g m f = (case m f of (Inl e, f1) \<Rightarrow> (Inl (g e), f1) | (Inr x, f1) \<Rightarrow> (Inr x, f1))"

text \<open>A step on the temporary file, which is removed when the step fails.\<close>

definition or_remove :: "'f local_ops \<Rightarrow> string \<Rightarrow> ('f, unit) action \<Rightarrow> ('f, unit) action" where
  "or_remove L tmp m f = (case m f of (Inl e, f1) \<Rightarrow> (Inl e, lo_remove L tmp f1) | (Inr _, f1) \<Rightarrow> (Inr (), f1))"

text \<open>The sequence all writers share: create, write, set the mode, close, rename. \<open>ann\<close> is what a writer makes of the error of each step, and
  \<open>rm\<close> whether it removes the temporary file also when the rename fails.\<close>

definition fill_temp :: "'f local_ops \<Rightarrow> (string \<Rightarrow> go_error \<Rightarrow> go_error) \<Rightarrow> string \<Rightarrow> string \<Rightarrow> ('f, unit) action" where
  "fill_temp L ann b tmp =
    bind_action (map_error (ann ''write'') (or_remove L tmp (lo_write L tmp b))) (\<lambda>_.
    bind_action (map_error (ann ''chmod'') (or_remove L tmp (lo_chmod L tmp))) (\<lambda>_.
    map_error (ann ''close'') (or_remove L tmp (lo_close L tmp))))"

definition replace_file ::
  "'f local_ops \<Rightarrow> (string \<Rightarrow> go_error \<Rightarrow> go_error) \<Rightarrow> bool \<Rightarrow> string \<Rightarrow> string \<Rightarrow> string \<Rightarrow> ('f, unit) action" where
  "replace_file L ann rm dir path b =
    bind_action (map_error (ann ''temp file'') (lo_create_temp L dir)) (\<lambda>tmp.
    bind_action (fill_temp L ann b tmp) (\<lambda>_.
    map_error (ann ''rename'') (if rm then or_remove L tmp (lo_rename L tmp path) else lo_rename L tmp path)))"

section \<open>What the callers rely on\<close>

text \<open>With \<open>content\<close> the contents of the files: reading returns them, directories, modes and closing leave them alone, a fresh temporary file
  is none of the \<open>targets\<close>, a write affects its own file, and a rename replaces its target in one step or changes nothing.\<close>

definition changes_at :: "('f \<Rightarrow> string \<Rightarrow> string option) \<Rightarrow> string \<Rightarrow> 'f \<Rightarrow> 'f \<Rightarrow> bool" where
  "changes_at content p f f1 \<longleftrightarrow> (\<forall>q. q \<noteq> p \<longrightarrow> content f1 q = content f q)"

definition leaves_files :: "('f \<Rightarrow> string \<Rightarrow> string option) \<Rightarrow> ('f, 'a) action \<Rightarrow> bool" where
  "leaves_files content m \<longleftrightarrow> (\<forall>f. content (snd (m f)) = content f)"

definition temp_ok :: "'f local_ops \<Rightarrow> ('f \<Rightarrow> string \<Rightarrow> string option) \<Rightarrow> string set \<Rightarrow> bool" where
  "temp_ok L content targets \<longleftrightarrow>
    (\<forall>d f t f1. lo_create_temp L d f = (Inr t, f1) \<longrightarrow> t \<notin> targets \<and> changes_at content t f f1) \<and>
    (\<forall>d f e f1. lo_create_temp L d f = (Inl e, f1) \<longrightarrow> content f1 = content f) \<and>
    (\<forall>t b f f1. lo_write L t b f = (Inr (), f1) \<longrightarrow> content f1 t = Some b) \<and>
    (\<forall>t b f. changes_at content t f (snd (lo_write L t b f)))"

definition rename_ok :: "'f local_ops \<Rightarrow> ('f \<Rightarrow> string \<Rightarrow> string option) \<Rightarrow> bool" where
  "rename_ok L content \<longleftrightarrow>
    (\<forall>t p f f1. lo_rename L t p f = (Inr (), f1) \<longrightarrow>
       content f1 p = content f t \<and> (\<forall>q. q \<noteq> p \<longrightarrow> q \<noteq> t \<longrightarrow> content f1 q = content f q)) \<and>
    (\<forall>t p f e f1. lo_rename L t p f = (Inl e, f1) \<longrightarrow> content f1 = content f) \<and>
    (\<forall>t f. content (lo_remove L t f) t = None \<and> changes_at content t f (lo_remove L t f))"

definition local_ok :: "'f local_ops \<Rightarrow> ('f \<Rightarrow> string \<Rightarrow> string option) \<Rightarrow> string set \<Rightarrow> bool" where
  "local_ok L content targets \<longleftrightarrow>
    (\<forall>p f. lo_exists L p f \<longleftrightarrow> content f p \<noteq> None) \<and>
    (\<forall>p f. lo_read L p f = (case content f p of None \<Rightarrow> Inl local_ErrNotExist | Some b \<Rightarrow> Inr b, f)) \<and>
    (\<forall>d. leaves_files content (lo_mkdir_all L d)) \<and> (\<forall>t. leaves_files content (lo_chmod L t)) \<and>
    (\<forall>t. leaves_files content (lo_close L t)) \<and> temp_ok L content targets \<and> rename_ok L content"

lemma changes_at_trans: "changes_at content p f g \<Longrightarrow> changes_at content p g h \<Longrightarrow> changes_at content p f h"
  by (simp add: changes_at_def)

lemma bind_cases:
  assumes "bind_action m k f = (r, f2)"
  obtains e where "m f = (Inl e, f2)" "r = Inl e" | x f1 where "m f = (Inr x, f1)" "k x f1 = (r, f2)"
  using assms by (cases "m f"; cases "fst (m f)") (auto simp: bind_action_def)

lemma map_error_snd [simp]: "snd (map_error g m f) = snd (m f)"
  by (simp add: map_error_def split_beta split: sum.splits)

lemma map_error_ok [simp]: "map_error g m f = (Inr x, f1) \<longleftrightarrow> m f = (Inr x, f1)"
  by (auto simp: map_error_def split: prod.splits sum.splits)

lemma or_remove_ok: "or_remove L tmp m f = (Inr (), f1) \<longleftrightarrow> m f = (Inr (), f1)"
  by (auto simp: or_remove_def split: prod.splits sum.splits)

lemma or_remove_changes:
  assumes "local_ok L content targets" "changes_at content tmp f (snd (m f))"
  shows "changes_at content tmp f (snd (or_remove L tmp m f))"
proof -
  have r: "changes_at content tmp g (lo_remove L tmp g)" for g using assms(1) by (simp add: local_ok_def rename_ok_def)
  obtain x f1 where m: "m f = (x, f1)" by fastforce
  show ?thesis using assms(2) r [of f1] by (cases x) (simp_all add: or_remove_def m changes_at_def)
qed

text \<open>An action that affects the temporary file only, whatever its outcome.\<close>

definition only_temp :: "('f \<Rightarrow> string \<Rightarrow> string option) \<Rightarrow> string \<Rightarrow> ('f, 'a) action \<Rightarrow> bool" where
  "only_temp content tmp m \<longleftrightarrow> (\<forall>f. changes_at content tmp f (snd (m f)))"

lemma only_temp_bind: "only_temp content tmp m \<Longrightarrow> (\<And>x. only_temp content tmp (k x)) \<Longrightarrow> only_temp content tmp (bind_action m k)"
  unfolding only_temp_def bind_action_def by (auto split: prod.splits sum.splits simp: changes_at_def) (metis snd_conv)+

lemma only_temp_map_error: "only_temp content tmp m \<Longrightarrow> only_temp content tmp (map_error g m)"
  by (simp add: only_temp_def)

lemma only_temp_or_remove: "local_ok L content targets \<Longrightarrow> only_temp content tmp m \<Longrightarrow> only_temp content tmp (or_remove L tmp m)"
  by (simp add: only_temp_def or_remove_changes)

lemma only_temp_leaves: "leaves_files content m \<Longrightarrow> only_temp content tmp m"
  by (simp add: only_temp_def leaves_files_def changes_at_def)

lemma fill_temp_only:
  assumes "local_ok L content targets"
  shows "only_temp content tmp (fill_temp L ann b tmp)"
proof -
  have "only_temp content tmp (lo_write L tmp b)" "only_temp content tmp (lo_chmod L tmp)" "only_temp content tmp (lo_close L tmp)"
    using assms by (simp_all add: local_ok_def temp_ok_def only_temp_def only_temp_leaves [unfolded only_temp_def])
  then show ?thesis unfolding fill_temp_def
    by (intro only_temp_bind only_temp_map_error only_temp_or_remove [OF assms])
qed

lemma fill_temp_content:
  assumes "local_ok L content targets" "fill_temp L ann b tmp f = (Inr (), f1)"
  shows "content f1 tmp = Some b"
proof -
  obtain g1 g2 where w: "lo_write L tmp b f = (Inr (), g1)" and c: "lo_chmod L tmp g1 = (Inr (), g2)" and k: "lo_close L tmp g2 = (Inr (), f1)"
    using assms(2) unfolding fill_temp_def by (elim bind_ok) (simp add: or_remove_ok)
  have "content g1 tmp = Some b" using assms(1) w by (simp add: local_ok_def temp_ok_def)
  moreover have "content g2 = content g1" using assms(1) c unfolding local_ok_def leaves_files_def by (metis snd_conv)
  moreover have "content f1 = content g2" using assms(1) k unfolding local_ok_def leaves_files_def by (metis snd_conv)
  ultimately show ?thesis by simp
qed

text \<open>Replacing a file: afterwards each target has its old contents, except the replaced file after a success.\<close>

lemma replace_file_outcome:
  assumes ok: "local_ok L content targets" and q: "path \<in> targets" "q \<in> targets"
    and run: "replace_file L ann rm dir path b f = (r, f1)"
  shows "content f1 q = (if is_ok r \<and> q = path then Some b else content f q)"
  using run unfolding replace_file_def
proof (cases rule: bind_cases)
  case (1 e)
  then obtain e1 where "lo_create_temp L dir f = (Inl e1, f1)" by (auto simp: map_error_def split: prod.splits sum.splits)
  then show ?thesis using ok 1 by (simp add: local_ok_def temp_ok_def)
next
  case (2 tmp g)
  then have t: "tmp \<notin> targets" "changes_at content tmp f g" using ok by (simp_all add: local_ok_def temp_ok_def)
  from 2(2) show ?thesis
  proof (cases rule: bind_cases)
    case (1 e)
    then have "changes_at content tmp g f1" using fill_temp_only [OF ok] unfolding only_temp_def by (metis snd_conv)
    then show ?thesis using t q 1 by (auto simp: changes_at_def)
  next
    case (2 x h)
    have gh: "changes_at content tmp g h" using 2(1) fill_temp_only [OF ok] unfolding only_temp_def by (metis snd_conv)
    have c: "content h tmp = Some b" using 2(1) by (intro fill_temp_content [OF ok]) simp
    obtain y k where y: "lo_rename L tmp path h = (y, k)" by fastforce
    show ?thesis
    proof (cases y)
      case (Inl e)
      then have k: "content k = content h" using ok y by (simp add: local_ok_def rename_ok_def)
      have "changes_at content tmp k (lo_remove L tmp k)" using ok by (simp add: local_ok_def rename_ok_def)
      then have "changes_at content tmp h f1" "\<not> is_ok r"
        using 2(2) y Inl k by (auto simp: map_error_def or_remove_def changes_at_def split: if_splits)
      then show ?thesis using t gh q by (auto simp: changes_at_def)
    next
      case (Inr u)
      then have "content k path = content h tmp" "\<And>p. p \<noteq> path \<Longrightarrow> p \<noteq> tmp \<Longrightarrow> content k p = content h p"
        using ok y by (simp_all add: local_ok_def rename_ok_def)
      moreover have "f1 = k" "is_ok r" using 2(2) y Inr by (auto simp: map_error_def or_remove_def split: if_splits)
      ultimately show ?thesis using t gh c q by (auto simp: changes_at_def)
    qed
  qed
qed

section \<open>A file system in memory\<close>

definition memory_local :: "(string \<times> string) list local_ops" where
  "memory_local = \<lparr>lo_read = (\<lambda>p f. (case map_of f p of None \<Rightarrow> Inl local_ErrNotExist | Some b \<Rightarrow> Inr b, f)),
     lo_exists = (\<lambda>p f. map_of f p \<noteq> None), lo_mkdir_all = (\<lambda>d f. (Inr (), f)),
     lo_create_temp = (\<lambda>d f. (Inr ''/.tmp'', AList.update ''/.tmp'' [] f)),
     lo_write = (\<lambda>t b f. (Inr (), AList.update t b f)), lo_chmod = (\<lambda>t f. (Inr (), f)), lo_close = (\<lambda>t f. (Inr (), f)),
     lo_remove = (\<lambda>t f. AList.delete t f),
     lo_rename = (\<lambda>t p f. case map_of f t of None \<Rightarrow> (Inl local_ErrNotExist, f) | Some b \<Rightarrow> (Inr (), AList.update p b f))\<rparr>"

lemma memory_local_ok:
  assumes "''/.tmp'' \<notin> targets"
  shows "local_ok memory_local map_of targets"
proof -
  have "temp_ok memory_local map_of targets" using assms
    by (auto simp: memory_local_def temp_ok_def changes_at_def update_conv')
  moreover have "rename_ok memory_local map_of"
    by (auto simp: memory_local_def rename_ok_def changes_at_def update_conv' delete_conv' split: option.splits)
  ultimately show ?thesis by (simp add: local_ok_def memory_local_def leaves_files_def)
qed

end
