(* ===== verification/Capsule_Discovery.thy ===== *)
theory Capsule_Discovery
  imports Capsule_Prelude
begin

text \<open>
  Service discovery \<^verbatim>\<open>src/core/mdns\<close> and the supervision of child processes \<^verbatim>\<open>src/supervise\<close>.
  The mDNS library is a record of operations on the network's state \<open>'n\<close>.
\<close>

section \<open>Announcements\<close>

record announcement =
  an_CapsuleID :: string
  an_ShortID :: string
  an_Hostname :: string
  an_Adopted :: bool
  an_Version :: string
  an_Mode :: string
  an_TargetDisk :: string
  an_TargetSizeBytes :: "64 word"
  an_Targets :: "string list"

definition instanceName :: "announcement \<Rightarrow> string" where
  "instanceName a = (if an_Hostname a \<noteq> [] then an_Hostname a else an_ShortID a)"

definition boolStr :: "bool \<Rightarrow> string" where
  "boolStr b = (if b then ''true'' else ''false'')"

definition announced_mode :: "announcement \<Rightarrow> string" where
  "announced_mode a = (if an_Mode a = [] then ''runtime'' else an_Mode a)"

definition installer_text :: "announcement \<Rightarrow> string list" where
  "installer_text a =
    (if an_TargetDisk a \<noteq> [] then [''target_disk='' @ an_TargetDisk a] else []) @
    (if an_TargetSizeBytes a > 0 then [''target_size_bytes='' @ itoa (unat (an_TargetSizeBytes a))] else []) @
    (if an_Targets a \<noteq> [] then [''targets='' @ join_with CHR '','' (sort (an_Targets a))] else [])"

definition announcement_text :: "announcement \<Rightarrow> string list" where
  "announcement_text a =
    [''capsule_id='' @ an_CapsuleID a, ''short_id='' @ an_ShortID a, ''adopted='' @ boolStr (an_Adopted a),
     ''version='' @ an_Version a, ''mode='' @ announced_mode a] @
    (if an_Hostname a \<noteq> [] then [''hostname='' @ an_Hostname a] else []) @
    (if announced_mode a = ''installer'' then installer_text a else [])"

section \<open>Publishing\<close>

record 'n mdns_ops =
  md_register :: "string \<Rightarrow> string list \<Rightarrow> ('n, unit) action"
  md_settext :: "string list \<Rightarrow> 'n \<Rightarrow> 'n"
  md_shutdown :: "'n \<Rightarrow> 'n"

text \<open>Whether the server runs, and the announcement it was last given.\<close>

record announcer =
  ar_server :: bool
  ar_current :: announcement

type_synonym 'n mstate = "announcer \<times> 'n"

definition mdns_register :: "'n mdns_ops \<Rightarrow> string \<Rightarrow> announcement \<Rightarrow> ('n mstate, unit) action" where
  "mdns_register N msg ann st =
    (case md_register N (instanceName ann) (announcement_text ann) (snd st) of
       (Inl e, n) \<Rightarrow> (Inl (Wrap msg e), (fst st, n))
     | (Inr _, n) \<Rightarrow> (Inr (), (\<lparr>ar_server = True, ar_current = ann\<rparr>, n)))"

definition mdns_Start :: "'n mdns_ops \<Rightarrow> announcement \<Rightarrow> ('n mstate, unit) action" where
  "mdns_Start N ann st =
    (if ar_server (fst st) then (Inl (Errorf ''mdns: already started''), st) else mdns_register N ''mdns register'' ann st)"

definition mdns_Update :: "'n mdns_ops \<Rightarrow> announcement \<Rightarrow> ('n mstate, unit) action" where
  "mdns_Update N ann st =
    (if \<not> ar_server (fst st) then mdns_register N ''mdns register'' ann st
     else if instanceName ann = instanceName (ar_current (fst st))
     then (Inr (), (\<lparr>ar_server = True, ar_current = ann\<rparr>, md_settext N (announcement_text ann) (snd st)))
     else mdns_register N ''mdns re-register'' ann ((fst st)\<lparr>ar_server := False\<rparr>, md_shutdown N (snd st)))"

definition MarkAdopted :: "'n mdns_ops \<Rightarrow> ('n mstate, unit) action" where
  "MarkAdopted N st =
    (if \<not> ar_server (fst st) \<or> an_Adopted (ar_current (fst st)) then (Inr (), st)
     else mdns_Update N ((ar_current (fst st))\<lparr>an_Adopted := True\<rparr>) st)"

definition mdns_Stop :: "'n mdns_ops \<Rightarrow> 'n mstate \<Rightarrow> 'n mstate" where
  "mdns_Stop N st = (if \<not> ar_server (fst st) then st else ((fst st)\<lparr>ar_server := False\<rparr>, md_shutdown N (snd st)))"

section \<open>Browsing\<close>

text \<open>The addresses of an answer: an IPv4 address, or an IPv6 address with its link-local flag, each with its text.\<close>

datatype ip_addr = IPv4 string | IPv6 bool string

primrec ip_text :: "ip_addr \<Rightarrow> string" where
  "ip_text (IPv4 s) = s"
| "ip_text (IPv6 _ s) = s"

record service_entry =
  se_Instance :: string
  se_Port :: nat
  se_AddrIPv4 :: "ip_addr list"
  se_AddrIPv6 :: "ip_addr list"
  se_Text :: "string list"

record browse_entry =
  be_Instance :: string
  be_Addr :: string
  be_CapsuleID :: string
  be_ShortID :: string
  be_Hostname :: string
  be_Adopted :: bool
  be_Version :: string
  be_Mode :: string
  be_TargetDisk :: string
  be_TargetSizeBytes :: "64 word"
  be_Targets :: "string list"

definition IsInstaller :: "browse_entry \<Rightarrow> bool" where
  "IsInstaller e \<longleftrightarrow> be_Mode e = ''installer''"

primrec is_v4 :: "ip_addr \<Rightarrow> bool" where
  "is_v4 (IPv4 _) = True"
| "is_v4 (IPv6 _ _) = False"

primrec usable_v6 :: "ip_addr \<Rightarrow> bool" where
  "usable_v6 (IPv4 _) = False"
| "usable_v6 (IPv6 linklocal _) = (\<not> linklocal)"

definition pickIPv4 :: "ip_addr list \<Rightarrow> ip_addr option" where
  "pickIPv4 addrs = List.find is_v4 addrs"

definition pickIPv6 :: "ip_addr list \<Rightarrow> ip_addr option" where
  "pickIPv6 addrs =
    (case List.find usable_v6 addrs of Some a \<Rightarrow> Some a | None \<Rightarrow> if addrs \<noteq> [] then Some (hd addrs) else None)"

text \<open>\<open>net.JoinHostPort\<close>: a host with a colon is put in brackets.\<close>

definition join_host_port :: "string \<Rightarrow> nat \<Rightarrow> string" where
  "join_host_port h p = (if CHR '':'' \<in> set h then ''['' @ h @ '']:'' @ itoa p else h @ '':'' @ itoa p)"

definition read_txt :: "browse_entry \<Rightarrow> string \<Rightarrow> browse_entry" where
  "read_txt e kv =
    (case str_cut CHR ''='' kv of (k, v, ok) \<Rightarrow>
       if \<not> ok then e
       else if k = ''capsule_id'' then e\<lparr>be_CapsuleID := v\<rparr>
       else if k = ''short_id'' then e\<lparr>be_ShortID := v\<rparr>
       else if k = ''hostname'' then e\<lparr>be_Hostname := v\<rparr>
       else if k = ''adopted'' then e\<lparr>be_Adopted := (v = ''true'')\<rparr>
       else if k = ''version'' then e\<lparr>be_Version := v\<rparr>
       else if k = ''mode'' then e\<lparr>be_Mode := v\<rparr>
       else if k = ''target_disk'' then e\<lparr>be_TargetDisk := v\<rparr>
       else if k = ''target_size_bytes'' then
         (case parse_uint 64 v of None \<Rightarrow> e | Some n \<Rightarrow> e\<lparr>be_TargetSizeBytes := word_of_nat n\<rparr>)
       else if k = ''targets'' then (if v \<noteq> [] then e\<lparr>be_Targets := split_on CHR '','' v\<rparr> else e)
       else e)"

definition empty_entry :: "string \<Rightarrow> string \<Rightarrow> browse_entry" where
  "empty_entry inst addr = \<lparr>be_Instance = inst, be_Addr = addr, be_CapsuleID = [], be_ShortID = [], be_Hostname = [],
     be_Adopted = False, be_Version = [], be_Mode = [], be_TargetDisk = [], be_TargetSizeBytes = 0, be_Targets = []\<rparr>"

definition entry_addr :: "service_entry \<Rightarrow> string" where
  "entry_addr s =
    (case (case pickIPv4 (se_AddrIPv4 s) of Some a \<Rightarrow> Some a | None \<Rightarrow> pickIPv6 (se_AddrIPv6 s)) of
       None \<Rightarrow> [] | Some ip \<Rightarrow> join_host_port (ip_text ip) (se_Port s))"

definition fromServiceEntry :: "service_entry \<Rightarrow> browse_entry" where
  "fromServiceEntry s = foldl read_txt (empty_entry (se_Instance s) (entry_addr s)) (se_Text s)"

text \<open>\<open>resolver\<close> is the outcome of \<open>NewResolver\<close> and \<open>answers\<close> that of the query, with the answers received before the timeout in their
  order; those without our records are skipped.\<close>

definition Browse :: "unit result \<Rightarrow> service_entry list result \<Rightarrow> browse_entry list result" where
  "Browse resolver answers =
    (case resolver of
       Inl e \<Rightarrow> Inl (Wrap ''mdns resolver'' e)
     | Inr _ \<Rightarrow>
        (case answers of
           Inl e \<Rightarrow> Inl (Wrap ''mdns browse'' e)
         | Inr es \<Rightarrow> Inr (filter (\<lambda>e. be_CapsuleID e \<noteq> []) (map fromServiceEntry es))))"

section \<open>Supervision\<close>

record supervise_config =
  sc_MinRestart :: int
  sc_MaxRestart :: int

text \<open>One turn of the loop: whether the context was cancelled before it, how long the child ran in nanoseconds, and whether the context
  was cancelled while it ran or during the wait.\<close>

record child_run =
  cr_cancelled_before :: bool
  cr_ran :: int
  cr_cancelled_after :: bool
  cr_cancelled_wait :: bool

definition second :: int where "second = 1000000000"

definition min_backoff :: "supervise_config \<Rightarrow> int" where
  "min_backoff c = (if sc_MinRestart c \<le> 0 then 200000000 else sc_MinRestart c)"

definition max_backoff :: "supervise_config \<Rightarrow> int" where
  "max_backoff c = (if sc_MaxRestart c \<le> 0 then 30 * second else sc_MaxRestart c)"

text \<open>The waits before each restart, for the runs of the child in their order.\<close>

fun supervise_loop :: "int \<Rightarrow> int \<Rightarrow> int \<Rightarrow> child_run list \<Rightarrow> int list" where
  "supervise_loop lo hi backoff [] = []"
| "supervise_loop lo hi backoff (r # rs) =
    (if cr_cancelled_before r \<or> cr_cancelled_after r then []
     else (let b = (if cr_ran r > 10 * second then lo else backoff)
           in b # (if cr_cancelled_wait r then [] else supervise_loop lo hi (min (int64 (b * 2)) hi) rs)))"

definition supervise_Run :: "supervise_config \<Rightarrow> child_run list \<Rightarrow> int list" where
  "supervise_Run c rs = supervise_loop (min_backoff c) (max_backoff c) (min_backoff c) rs"

section \<open>What a browser reads\<close>

lemma read_txt_keys:
  "read_txt e (''capsule_id='' @ v) = e\<lparr>be_CapsuleID := v\<rparr>"
  "read_txt e (''short_id='' @ v) = e\<lparr>be_ShortID := v\<rparr>"
  "read_txt e (''hostname='' @ v) = e\<lparr>be_Hostname := v\<rparr>"
  "read_txt e (''adopted='' @ v) = e\<lparr>be_Adopted := (v = ''true'')\<rparr>"
  "read_txt e (''version='' @ v) = e\<lparr>be_Version := v\<rparr>"
  "read_txt e (''mode='' @ v) = e\<lparr>be_Mode := v\<rparr>"
  "read_txt e (''target_disk='' @ v) = e\<lparr>be_TargetDisk := v\<rparr>"
  by (simp_all add: read_txt_def str_cut_def)

lemma read_txt_size: "read_txt e (''target_size_bytes='' @ itoa (unat x)) = e\<lparr>be_TargetSizeBytes := x\<rparr>" for x :: "64 word"
proof -
  have "parse_uint 64 (itoa (unat x)) = Some (unat x)"
    using unsigned_less [of x] by (intro parse_uint_itoa) simp
  then show ?thesis by (simp add: read_txt_def str_cut_def)
qed

lemma read_txt_targets:
  assumes "ts \<noteq> []" "\<forall>t\<in>set ts. t \<noteq> [] \<and> CHR '','' \<notin> set t"
  shows "read_txt e (''targets='' @ join_with CHR '','' ts) = e\<lparr>be_Targets := ts\<rparr>"
proof -
  have "split_on CHR '','' (join_with CHR '','' ts) = ts" using assms by (intro split_join) auto
  moreover from this assms have "join_with CHR '','' ts \<noteq> []" by (metis list.set_intros(1) split_on.simps(1))
  ultimately show ?thesis by (simp add: read_txt_def str_cut_def)
qed

lemmas read_txt_simps = read_txt_keys [unfolded append_Cons append_Nil] read_txt_size [unfolded append_Cons append_Nil]

lemma boolStr_true [simp]: "boolStr b = ''true'' \<longleftrightarrow> b"
  by (simp add: boolStr_def)

text \<open>The entry a browser should show for an announcement: the fields for the installer only in its mode.\<close>

definition announced :: "announcement \<Rightarrow> string \<Rightarrow> string \<Rightarrow> browse_entry" where
  "announced a inst addr = (let i = (announced_mode a = ''installer'') in
    \<lparr>be_Instance = inst, be_Addr = addr, be_CapsuleID = an_CapsuleID a, be_ShortID = an_ShortID a, be_Hostname = an_Hostname a,
     be_Adopted = an_Adopted a, be_Version = an_Version a, be_Mode = announced_mode a,
     be_TargetDisk = (if i then an_TargetDisk a else []), be_TargetSizeBytes = (if i then an_TargetSizeBytes a else 0),
     be_Targets = (if i then sort (an_Targets a) else [])\<rparr>)"

lemma installer_fields:
  assumes "\<forall>t\<in>set (an_Targets a). t \<noteq> [] \<and> CHR '','' \<notin> set t"
  shows "foldl read_txt e (installer_text a) =
    (let e1 = (if an_TargetDisk a \<noteq> [] then e\<lparr>be_TargetDisk := an_TargetDisk a\<rparr> else e);
         e2 = (if an_TargetSizeBytes a > 0 then e1\<lparr>be_TargetSizeBytes := an_TargetSizeBytes a\<rparr> else e1)
     in if an_Targets a \<noteq> [] then e2\<lparr>be_Targets := sort (an_Targets a)\<rparr> else e2)"
proof -
  have t: "an_Targets a \<noteq> [] \<Longrightarrow> read_txt e' (''targets='' @ join_with CHR '','' (sort (an_Targets a))) = e'\<lparr>be_Targets := sort (an_Targets a)\<rparr>"
    for e' using assms by (intro read_txt_targets) (auto simp flip: set_empty)
  show ?thesis
    by (simp add: installer_text_def read_txt_simps t [unfolded append_Cons append_Nil] Let_def)
qed

lemma foldl_announcement_text:
  assumes "\<forall>t\<in>set (an_Targets a). t \<noteq> [] \<and> CHR '','' \<notin> set t"
  shows "foldl read_txt (empty_entry inst addr) (announcement_text a) = announced a inst addr"
proof -
  let ?b = "(empty_entry inst addr)\<lparr>be_CapsuleID := an_CapsuleID a, be_ShortID := an_ShortID a, be_Adopted := an_Adopted a,
    be_Version := an_Version a, be_Mode := announced_mode a\<rparr>"
  let ?h = "if an_Hostname a \<noteq> [] then ?b\<lparr>be_Hostname := an_Hostname a\<rparr> else ?b"
  have h: "?h = (empty_entry inst addr)\<lparr>be_CapsuleID := an_CapsuleID a, be_ShortID := an_ShortID a, be_Hostname := an_Hostname a,
      be_Adopted := an_Adopted a, be_Version := an_Version a, be_Mode := announced_mode a\<rparr>"
    by (simp add: empty_entry_def)
  have "foldl read_txt (empty_entry inst addr) (announcement_text a) =
      foldl read_txt ?h (if announced_mode a = ''installer'' then installer_text a else [])"
    unfolding announcement_text_def by (simp add: read_txt_simps)
  also have "\<dots> = announced a inst addr"
  proof (cases "announced_mode a = ''installer''")
    case True
    have z: "\<not> 0 < an_TargetSizeBytes a \<Longrightarrow> an_TargetSizeBytes a = 0" by (simp add: word_gt_0)
    show ?thesis unfolding h using True z
      by (simp add: installer_fields [OF assms] announced_def empty_entry_def Let_def)
  next
    case False
    then show ?thesis unfolding h by (simp add: announced_def empty_entry_def)
  qed
  finally show ?thesis .
qed

text \<open>C29: what a browser reads from the records of an announcement is the announcement: every field comes back, the mode
  \<open>runtime\<close> for an empty one, the installer's fields in its mode only and the candidate disks in alphabetical order. The
  names of the disks must not be empty and not contain a comma, the separator.\<close>

theorem announcement_roundtrip:
  assumes "\<forall>t\<in>set (an_Targets a). t \<noteq> [] \<and> CHR '','' \<notin> set t" "se_Text s = announcement_text a"
  shows "fromServiceEntry s = announced a (se_Instance s) (entry_addr s)"
  using foldl_announcement_text [OF assms(1)] assms(2) by (simp add: fromServiceEntry_def)

definition example_announcement :: announcement where
  "example_announcement = \<lparr>an_CapsuleID = ''u'', an_ShortID = ''capsule-a3f2'', an_Hostname = [], an_Adopted = True, an_Version = ''1'',
     an_Mode = ''installer'', an_TargetDisk = ''/dev/sda'', an_TargetSizeBytes = 42, an_Targets = [''/dev/sdb'', ''/dev/sda'']\<rparr>"

theorem announcement_roundtrip_witness:
  "be_Targets (fromServiceEntry \<lparr>se_Instance = ''capsule-a3f2'', se_Port = 50000, se_AddrIPv4 = [IPv4 ''10.0.0.2''], se_AddrIPv6 = [],
     se_Text = announcement_text example_announcement\<rparr>) = [''/dev/sda'', ''/dev/sdb'']" (is "be_Targets (fromServiceEntry ?s) = _")
proof -
  have "sort [''/dev/sdb'', ''/dev/sda''] = [''/dev/sda'', ''/dev/sdb'']" by code_simp
  moreover have "fromServiceEntry ?s = announced example_announcement (se_Instance ?s) (entry_addr ?s)"
    by (rule announcement_roundtrip) (simp_all add: example_announcement_def)
  ultimately show ?thesis
    by (simp add: announced_def announced_mode_def example_announcement_def Let_def)
qed

section \<open>What is on the network\<close>

text \<open>What the announcer relies on of the mDNS library, with \<open>published\<close> the instance name and records a network state answers with: a
  successful registration publishes, a failed one publishes nothing, the records of a running service can be replaced, and a shut
  down service is silent.\<close>

definition mdns_ok :: "'n mdns_ops \<Rightarrow> ('n \<Rightarrow> (string \<times> string list) option) \<Rightarrow> bool" where
  "mdns_ok N published \<longleftrightarrow>
    (\<forall>i t n. is_ok (fst (md_register N i t n)) \<longrightarrow> published (snd (md_register N i t n)) = Some (i, t)) \<and>
    (\<forall>i t n. \<not> is_ok (fst (md_register N i t n)) \<longrightarrow> published (snd (md_register N i t n)) = published n) \<and>
    (\<forall>t n. published (md_settext N t n) = map_option (\<lambda>(i, _). (i, t)) (published n)) \<and>
    (\<forall>n. published (md_shutdown N n) = None)"

definition published_sync :: "('n \<Rightarrow> (string \<times> string list) option) \<Rightarrow> 'n mstate \<Rightarrow> bool" where
  "published_sync published st \<longleftrightarrow>
    published (snd st) =
      (if ar_server (fst st) then Some (instanceName (ar_current (fst st)), announcement_text (ar_current (fst st))) else None)"

lemma mdns_okD:
  assumes "mdns_ok N published" "md_register N i t n = (r, n1)"
  shows "published n1 = (if is_ok r then Some (i, t) else published n)"
proof -
  have "is_ok (fst (md_register N i t n)) \<longrightarrow> published (snd (md_register N i t n)) = Some (i, t)"
    "\<not> is_ok (fst (md_register N i t n)) \<longrightarrow> published (snd (md_register N i t n)) = published n"
    using assms(1) unfolding mdns_ok_def by blast+
  then show ?thesis using assms(2) by simp
qed

lemma register_sync:
  assumes "mdns_ok N published" "published (snd st) = None" "\<not> ar_server (fst st)"
  shows "published_sync published (snd (mdns_register N msg ann st))"
proof -
  obtain r n where r: "md_register N (instanceName ann) (announcement_text ann) (snd st) = (r, n)" by fastforce
  have "published n = (if is_ok r then Some (instanceName ann, announcement_text ann) else None)"
    using mdns_okD [OF assms(1) r] assms(2) by simp
  then show ?thesis using r assms(3) by (cases r) (simp_all add: mdns_register_def published_sync_def)
qed

lemma Start_sync: "mdns_ok N published \<Longrightarrow> published_sync published st \<Longrightarrow> published_sync published (snd (mdns_Start N ann st))"
  using register_sync [of N published st] by (cases "ar_server (fst st)") (simp_all add: mdns_Start_def published_sync_def [of _ st])

lemma Update_sync:
  assumes "mdns_ok N published" "published_sync published st"
  shows "published_sync published (snd (mdns_Update N ann st))"
proof (cases "ar_server (fst st)")
  case False
  then show ?thesis using assms register_sync [of N published st] by (simp add: mdns_Update_def published_sync_def)
next
  case True
  show ?thesis
  proof (cases "instanceName ann = instanceName (ar_current (fst st))")
    case same: True
    then show ?thesis using True assms by (simp add: mdns_Update_def published_sync_def mdns_ok_def)
  next
    case False
    have "published_sync published (snd (mdns_register N ''mdns re-register'' ann ((fst st)\<lparr>ar_server := False\<rparr>, md_shutdown N (snd st))))"
      using assms(1) by (intro register_sync) (simp_all add: mdns_ok_def)
    then show ?thesis using True False by (simp add: mdns_Update_def)
  qed
qed

lemma MarkAdopted_sync: "mdns_ok N published \<Longrightarrow> published_sync published st \<Longrightarrow> published_sync published (snd (MarkAdopted N st))"
  by (simp add: MarkAdopted_def Update_sync)

lemma Stop_sync: "mdns_ok N published \<Longrightarrow> published_sync published st \<Longrightarrow> published_sync published (mdns_Stop N st)"
  by (simp add: mdns_Stop_def mdns_ok_def published_sync_def)

datatype announcer_call = CallStart announcement | CallUpdate announcement | CallMarkAdopted | CallStop

primrec announcer_step :: "'n mdns_ops \<Rightarrow> announcer_call \<Rightarrow> 'n mstate \<Rightarrow> 'n mstate" where
  "announcer_step N (CallStart a) st = snd (mdns_Start N a st)"
| "announcer_step N (CallUpdate a) st = snd (mdns_Update N a st)"
| "announcer_step N CallMarkAdopted st = snd (MarkAdopted N st)"
| "announcer_step N CallStop st = mdns_Stop N st"

lemma announcer_call_sync: "mdns_ok N published \<Longrightarrow> published_sync published st \<Longrightarrow> published_sync published (announcer_step N c st)"
  by (cases c) (simp_all add: Start_sync Update_sync MarkAdopted_sync Stop_sync)

lemma announcer_calls_sync: "mdns_ok N published \<Longrightarrow> published_sync published st \<Longrightarrow> published_sync published (fold (announcer_step N) cs st)"
  by (induction cs arbitrary: st) (simp_all add: announcer_call_sync)

text \<open>over any sequence of calls of the announcer, what the network answers with is exactly the announcement the
  announcer holds, or nothing when its server does not run; and a browser that decodes those records sees the capsule as adopted
  after a \<open>MarkAdopted\<close> on a running server.\<close>

theorem published_is_current:
  assumes "mdns_ok N published" "published n = None" "\<forall>t\<in>set (an_Targets a). t \<noteq> [] \<and> CHR '','' \<notin> set t"
    and "st = fold (announcer_step N) cs (\<lparr>ar_server = False, ar_current = a0\<rparr>, n)"
    and "fst st = \<lparr>ar_server = True, ar_current = a\<rparr>"
  shows "published (snd st) = Some (instanceName a, announcement_text a) \<and>
    (\<exists>inst txt. published (snd (snd (MarkAdopted N st))) = Some (inst, txt) \<and>
       (\<forall>s. se_Text s = txt \<longrightarrow> be_Adopted (fromServiceEntry s) \<and> be_CapsuleID (fromServiceEntry s) = an_CapsuleID a))"
proof -
  have "published_sync published (\<lparr>ar_server = False, ar_current = a0\<rparr>, n)" using assms(2) by (simp add: published_sync_def)
  then have sync: "published_sync published st" using assms(1,4) by (simp add: announcer_calls_sync)
  let ?a = "a\<lparr>an_Adopted := True\<rparr>" and ?st = "snd (MarkAdopted N st)"
  have same: "instanceName ?a = instanceName a" by (simp add: instanceName_def)
  have cur: "fst ?st = \<lparr>ar_server = True, ar_current = ?a\<rparr>"
    using assms(5) same by (cases "an_Adopted a") (simp_all add: MarkAdopted_def mdns_Update_def)
  have pub: "published (snd ?st) = Some (instanceName ?a, announcement_text ?a)"
    using MarkAdopted_sync [OF assms(1) sync] cur by (simp add: published_sync_def)
  have "fromServiceEntry s = announced ?a (se_Instance s) (entry_addr s)" if "se_Text s = announcement_text ?a" for s
    using foldl_announcement_text [of ?a] assms(3) that by (simp add: fromServiceEntry_def)
  then have entry: "\<forall>s. se_Text s = announcement_text ?a \<longrightarrow>
      be_Adopted (fromServiceEntry s) \<and> be_CapsuleID (fromServiceEntry s) = an_CapsuleID a"
    by (simp add: announced_def Let_def)
  have "published (snd st) = Some (instanceName a, announcement_text a)" using sync assms(5) by (simp add: published_sync_def)
  with pub entry show ?thesis by (intro conjI exI)
qed

text \<open>A network that is what it answers with.\<close>

definition toy_mdns :: "(string \<times> string list) option mdns_ops" where
  "toy_mdns = \<lparr>md_register = (\<lambda>i t _. (Inr (), Some (i, t))), md_settext = (\<lambda>t n. map_option (\<lambda>(i, _). (i, t)) n),
     md_shutdown = (\<lambda>_. None)\<rparr>"

definition fresh_announcement :: announcement where
  "fresh_announcement = \<lparr>an_CapsuleID = ''u'', an_ShortID = ''capsule-a3f2'', an_Hostname = [], an_Adopted = False, an_Version = ''1'',
     an_Mode = [], an_TargetDisk = [], an_TargetSizeBytes = 0, an_Targets = []\<rparr>"

lemma toy_mdns_ok: "mdns_ok toy_mdns (\<lambda>n. n)"
  by (simp add: mdns_ok_def toy_mdns_def)

lemma toy_mdns_started:
  "fold (announcer_step toy_mdns) [CallStart a] (\<lparr>ar_server = False, ar_current = a0\<rparr>, None) =
    (\<lparr>ar_server = True, ar_current = a\<rparr>, Some (instanceName a, announcement_text a))"
  by (simp add: mdns_Start_def mdns_register_def toy_mdns_def)

theorem published_is_current_witness:
  "\<exists>inst txt. snd (snd (MarkAdopted toy_mdns (snd (mdns_Start toy_mdns fresh_announcement
      (\<lparr>ar_server = False, ar_current = fresh_announcement\<rparr>, None))))) = Some (inst, txt) \<and>
     (\<forall>s. se_Text s = txt \<longrightarrow> be_Adopted (fromServiceEntry s) \<and> be_CapsuleID (fromServiceEntry s) = an_CapsuleID fresh_announcement)"
proof -
  let ?s0 = "(\<lparr>ar_server = False, ar_current = fresh_announcement\<rparr>, None)" and ?st = "snd (mdns_Start toy_mdns fresh_announcement
      (\<lparr>ar_server = False, ar_current = fresh_announcement\<rparr>, None))"
  have st: "?st = fold (announcer_step toy_mdns) [CallStart fresh_announcement] ?s0" by simp
  have t: "\<forall>t\<in>set (an_Targets fresh_announcement). t \<noteq> [] \<and> CHR '','' \<notin> set t" by (simp add: fresh_announcement_def)
  have "fst ?st = \<lparr>ar_server = True, ar_current = fresh_announcement\<rparr>" unfolding st toy_mdns_started by simp
  from published_is_current [OF toy_mdns_ok refl t st this] show ?thesis by (rule conjunct2)
qed

section \<open>Restarts\<close>

lemma backoff_pos [simp]: "0 < min_backoff c" "0 < max_backoff c"
  by (simp_all add: min_backoff_def max_backoff_def second_def)

lemma double_no_wrap: "0 < b \<Longrightarrow> b < 2 ^ 62 \<Longrightarrow> int64 (b * 2) = b * 2"
  by (rule int64_id) simp_all

lemma supervise_loop_bounds:
  assumes "0 < lo" "lo \<le> hi" "hi < 2 ^ 62" "lo \<le> b" "b \<le> hi" "x \<in> set (supervise_loop lo hi b rs)"
  shows "lo \<le> x \<and> x \<le> hi"
  using assms(4-6)
proof (induction rs arbitrary: b)
  case (Cons r rs)
  define b1 where "b1 = (if cr_ran r > 10 * second then lo else b)"
  have b1: "lo \<le> b1" "b1 \<le> hi" using Cons.prems assms(2) by (simp_all add: b1_def)
  then have "int64 (b1 * 2) = b1 * 2" using assms(1,3) by (intro double_no_wrap) simp_all
  then have next_b: "lo \<le> min (int64 (b1 * 2)) hi" "min (int64 (b1 * 2)) hi \<le> hi" using b1 assms(1,2) by simp_all
  have "x = b1 \<or> x \<in> set (supervise_loop lo hi (min (int64 (b1 * 2)) hi) rs)"
    using Cons.prems(3) unfolding supervise_loop.simps b1_def [symmetric] Let_def by (simp split: if_splits)
  then show ?case using b1 Cons.IH [OF next_b] by blast
qed simp

text \<open>A turn in which the child dies within ten seconds and nothing is cancelled.\<close>

definition quick_exit :: "child_run \<Rightarrow> bool" where
  "quick_exit r \<longleftrightarrow> \<not> cr_cancelled_before r \<and> \<not> cr_cancelled_after r \<and> \<not> cr_cancelled_wait r \<and> cr_ran r \<le> 10 * second"

lemma supervise_loop_quick:
  assumes "0 < lo" "hi < 2 ^ 62" "0 < b" "b \<le> hi" "\<forall>r\<in>set rs. quick_exit r" "k < length rs"
  shows "supervise_loop lo hi b rs ! k = min (b * 2 ^ k) hi"
  using assms(3-6)
proof (induction rs arbitrary: b k)
  case (Cons r rs)
  have d: "int64 (b * 2) = b * 2" using Cons.prems(1,2) assms(2) by (intro double_no_wrap) simp_all
  have q: "supervise_loop lo hi b (r # rs) = b # supervise_loop lo hi (min (b * 2) hi) rs"
    using Cons.prems(3) d by (simp add: quick_exit_def)
  show ?case
  proof (cases k)
    case 0
    then show ?thesis unfolding q using Cons.prems(2) by simp
  next
    case (Suc m)
    have "supervise_loop lo hi (min (b * 2) hi) rs ! m = min (min (b * 2) hi * 2 ^ m) hi"
      using Cons.prems Suc by (intro Cons.IH) simp_all
    moreover have "min (min (b * 2) hi * 2 ^ m) hi = min (b * 2 * 2 ^ m) hi"
    proof (cases "b * 2 \<le> hi")
      case False
      have "hi * 1 \<le> hi * 2 ^ m" using Cons.prems(1,2) by (intro mult_left_mono) simp_all
      moreover have "hi * 2 ^ m \<le> b * 2 * 2 ^ m" using False by (intro mult_right_mono) simp_all
      ultimately have "min (hi * 2 ^ m) hi = hi" "min (b * 2 * 2 ^ m) hi = hi" by (intro min.absorb2; linarith)+
      moreover have "min (b * 2) hi = hi" using False by simp
      ultimately show ?thesis by (simp only:)
    qed simp
    ultimately show ?thesis unfolding q Suc by (simp only: nth_Cons_Suc power_Suc mult.assoc)
  qed
qed simp

text \<open>C30: a supervised child is restarted with capped exponential backoff: every wait lies between the two bounds, and the
  k-th wait in a row of quick exits is the lower bound doubled k times, up to the upper one. The upper bound is below 2 to the 62
  nanoseconds (146 years), where doubling an \<open>int64\<close> does not wrap.\<close>

theorem restart_backoff:
  assumes "min_backoff c \<le> max_backoff c" "max_backoff c < 2 ^ 62"
  shows "(x \<in> set (supervise_Run c rs) \<longrightarrow> min_backoff c \<le> x \<and> x \<le> max_backoff c) \<and>
    ((\<forall>r\<in>set rs. quick_exit r) \<and> k < length rs \<longrightarrow> supervise_Run c rs ! k = min (min_backoff c * 2 ^ k) (max_backoff c))"
  using supervise_loop_bounds [of "min_backoff c" "max_backoff c" "min_backoff c" x rs]
    supervise_loop_quick [of "min_backoff c" "max_backoff c" "min_backoff c" rs k] assms
  by (simp add: supervise_Run_def)

theorem restart_backoff_witness:
  "supervise_Run \<lparr>sc_MinRestart = 0, sc_MaxRestart = 0\<rparr> (replicate 9 \<lparr>cr_cancelled_before = False, cr_ran = 5, cr_cancelled_after = False,
     cr_cancelled_wait = False\<rparr>) ! 8 = 30000000000"
  using restart_backoff [of "\<lparr>sc_MinRestart = 0, sc_MaxRestart = 0\<rparr>" _ "replicate 9 \<lparr>cr_cancelled_before = False, cr_ran = 5,
     cr_cancelled_after = False, cr_cancelled_wait = False\<rparr>" 8]
  by (simp add: min_backoff_def max_backoff_def second_def quick_exit_def)

end
