(* ===== verification/Capsule_Client.thy ===== *)
theory Capsule_Client
  imports Capsule_Path Capsule_Files Capsule_Proto Capsule_Discovery
begin

text \<open>
  The command line client \<^verbatim>\<open>src/cmd/capsulectl\<close>: its registry of contexts, the handling of arguments and sizes, and copying files
  from and to workloads. Calls of the operating system are a record of operations on the local file system \<open>'f\<close>.
\<close>

unbundle bit_operations_syntax

section \<open>Contexts\<close>

record ctl_context =
  cx_Addr :: string
  cx_CapsuleID :: string
  cx_TLSFingerprint :: string
  cx_KeyPath :: string

record ctl_config =
  cc_Current :: string
  cc_Contexts :: "(string \<times> ctl_context) list"

definition errNoContext :: go_error where
  "errNoContext = Sentinel ''no enrolled context''"

text \<open>The contexts are a Go map; the list is its order of iteration.\<close>

definition Resolve :: "ctl_config \<Rightarrow> string \<Rightarrow> ctl_context result" where
  "Resolve c addr =
    (let target = (if addr = [] then cc_Current c else addr)
     in if target = [] then Inl errNoContext
        else case map_of (cc_Contexts c) target of
          Some ctx \<Rightarrow> Inr ctx
        | None \<Rightarrow>
           (case List.find (\<lambda>(_, ctx). cx_Addr ctx = target) (cc_Contexts c) of
              Some (_, ctx) \<Rightarrow> Inr ctx
            | None \<Rightarrow> Inl errNoContext))"

text \<open>\<open>env\<close> is the variable \<^verbatim>\<open>CAPSULE_CONFIG_DIR\<close> and \<open>home\<close> the home directory; the functions after take the directory found.\<close>

definition configDir :: "string \<Rightarrow> string result \<Rightarrow> string result" where
  "configDir env home =
    (if env \<noteq> [] then Inr env else case home of Inl e \<Rightarrow> Inl e | Inr h \<Rightarrow> Inr (go_path_Join h ''.config/capsule''))"

definition operatorKeyPath :: "string \<Rightarrow> string" where
  "operatorKeyPath dir = go_path_Join dir ''operator.ed25519''"

definition configPath :: "string \<Rightarrow> string" where
  "configPath dir = go_path_Join dir ''config.yaml''"

text \<open>The YAML library. Contexts left out are an empty map.\<close>

record yaml =
  ym_marshal :: "ctl_config \<Rightarrow> string result"
  ym_unmarshal :: "string \<Rightarrow> ctl_config result"

definition loadConfig :: "'f local_ops \<Rightarrow> yaml \<Rightarrow> string \<Rightarrow> ('f, ctl_config) action" where
  "loadConfig L Y dir f =
    (case lo_read L (configPath dir) f of
       (Inl e, f1) \<Rightarrow>
         (if e = local_ErrNotExist then Inr \<lparr>cc_Current = [], cc_Contexts = []\<rparr> else Inl (Wrap ''read'' e), f1)
     | (Inr b, f1) \<Rightarrow> (case ym_unmarshal Y b of Inl e \<Rightarrow> (Inl (Wrap ''parse'' e), f1) | Inr c \<Rightarrow> (Inr c, f1)))"

definition config_Save :: "'f local_ops \<Rightarrow> yaml \<Rightarrow> string \<Rightarrow> ctl_config \<Rightarrow> ('f, unit) action" where
  "config_Save L Y dir c =
    bind_action (wrap_action ''mkdir'' (lo_mkdir_all L dir)) (\<lambda>_.
    bind_action (lift_result (ym_marshal Y c)) (\<lambda>b.
    replace_file L (\<lambda>_ e. e) False dir (configPath dir) b))"

section \<open>Keys\<close>

text \<open>\<open>keygen\<close> is a fresh key with its PEM form, and \<open>parse\<close> the parser of that form.\<close>

definition generatePrivateKey :: "'f local_ops \<Rightarrow> (string \<times> string) result \<Rightarrow> string \<Rightarrow> ('f, string) action" where
  "generatePrivateKey L keygen path =
    bind_action (lo_mkdir_all L (go_path_Dir path)) (\<lambda>_ f.
      if lo_exists L path f then (Inl (Errorf ''refusing to overwrite existing key''), f)
      else case keygen of
        Inl e \<Rightarrow> (Inl e, f)
      | Inr (priv, pem) \<Rightarrow>
          (case replace_file L (\<lambda>_ e. e) True (go_path_Dir path) path pem f of
             (Inl e, f1) \<Rightarrow> (Inl e, f1)
           | (Inr _, f1) \<Rightarrow> (Inr priv, f1)))"

definition loadPrivateKey :: "'f local_ops \<Rightarrow> (string \<Rightarrow> string result) \<Rightarrow> string \<Rightarrow> ('f, string) action" where
  "loadPrivateKey L parse path f =
    (case lo_read L path f of
       (Inl e, f1) \<Rightarrow> (Inl (Wrap ''read key'' e), f1)
     | (Inr b, f1) \<Rightarrow> (parse b, f1))"

section \<open>Enrolment\<close>

definition defaultContextName :: "string \<Rightarrow> string" where
  "defaultContextName addr =
    (if CHR '':'' \<in> set (tl addr) then rev (drop 1 (dropWhile (\<lambda>c. c \<noteq> CHR '':'') (rev addr))) else addr)"

record adopt_args =
  aa_capsule :: string
  aa_name :: string
  aa_yes :: bool

record adopt_answer =
  av_CapsuleId :: string
  av_TlsFingerprint :: string

text \<open>What the operator and the network answer: the fingerprint of the connection, the typed confirmation, the reply to \<open>Adopt\<close>.\<close>

record adopt_world =
  aw_capture :: "string \<Rightarrow> string result"
  aw_confirm :: "string result"
  aw_keygen :: "(string \<times> string) result"
  aw_parse :: "string \<Rightarrow> string result"
  aw_adopt :: "string \<Rightarrow> string \<Rightarrow> adopt_answer result"
  aw_public :: "string \<Rightarrow> string"

definition confirmed :: "adopt_args \<Rightarrow> adopt_world \<Rightarrow> unit result" where
  "confirmed a W =
    (if aa_yes a then Inr ()
     else case aw_confirm W of
       Inl _ \<Rightarrow> Inl (Errorf ''confirmation cancelled (claim window untouched)'')
     | Inr got \<Rightarrow> if map to_lower (trim_space got) \<noteq> ''yes'' then Inl (Errorf ''confirmation declined (claim window untouched)'') else Inr ())"

definition operator_key :: "'f local_ops \<Rightarrow> adopt_world \<Rightarrow> string \<Rightarrow> ('f, string) action" where
  "operator_key L W keyPath f =
    (if lo_exists L keyPath f then loadPrivateKey L (aw_parse W) keyPath f else generatePrivateKey L (aw_keygen W) keyPath f)"

definition isClaimWindowClosed :: "go_error \<Rightarrow> bool" where
  "isClaimWindowClosed e = (case e of Status FailedPrecondition msg \<Rightarrow> str_contains msg ''adoption window closed'' | _ \<Rightarrow> False)"

text \<open>The call of \<open>Adopt\<close>. When the window is closed, the public key is left beside the private one for another operator to enrol.\<close>

definition adopt_call :: "'f local_ops \<Rightarrow> adopt_world \<Rightarrow> string \<Rightarrow> string \<Rightarrow> string \<Rightarrow> ('f, adopt_answer) action" where
  "adopt_call L W keyPath priv ctxName f =
    (case aw_adopt W priv ctxName of
       Inr resp \<Rightarrow> (Inr resp, f)
     | Inl e \<Rightarrow>
        if isClaimWindowClosed e then (Inl (Wrap ''adopt'' e), snd (lo_write L (keyPath @ ''.pub'') (aw_public W priv) f))
        else (Inl (Wrap ''adopt rpc'' e), f))"

text \<open>After the reply: the fingerprint in it is compared, and the context is stored.\<close>

definition store_context ::
  "'f local_ops \<Rightarrow> yaml \<Rightarrow> string \<Rightarrow> ctl_config \<Rightarrow> string \<Rightarrow> string \<Rightarrow> string \<Rightarrow> adopt_answer \<Rightarrow> ('f, unit) action" where
  "store_context L Y dir cfg ctxName target wire resp f =
    (if \<not> equal_fold wire (av_TlsFingerprint resp)
     then (Inl (Errorf ''tls fingerprint mismatch''), lo_remove L (operatorKeyPath dir) f)
     else wrap_action ''save config'' (config_Save L Y dir
       \<lparr>cc_Current = ctxName, cc_Contexts = AList.update ctxName
          \<lparr>cx_Addr = target, cx_CapsuleID = av_CapsuleId resp, cx_TLSFingerprint = wire, cx_KeyPath = operatorKeyPath dir\<rparr> (cc_Contexts cfg)\<rparr>) f)"

definition adopt_target :: "string \<Rightarrow> adopt_args \<Rightarrow> string" where
  "adopt_target addr a = (if aa_capsule a = [] then addr else aa_capsule a)"

definition adopt_name :: "string \<Rightarrow> adopt_args \<Rightarrow> string" where
  "adopt_name addr a = (if aa_name a = [] then defaultContextName (adopt_target addr a) else aa_name a)"

text \<open>The ceremony for a context that is not taken.\<close>

definition enrol ::
  "'f local_ops \<Rightarrow> yaml \<Rightarrow> adopt_world \<Rightarrow> string \<Rightarrow> adopt_args \<Rightarrow> ctl_config \<Rightarrow> string \<Rightarrow> string \<Rightarrow> ('f, unit) action" where
  "enrol L Y W dir a cfg ctxName target =
    bind_action (wrap_action ''capture fingerprint'' (lift_result (aw_capture W target))) (\<lambda>wire.
    bind_action (lift_result (confirmed a W)) (\<lambda>_.
    bind_action (operator_key L W (operatorKeyPath dir)) (\<lambda>priv.
    bind_action (adopt_call L W (operatorKeyPath dir) priv ctxName) (\<lambda>resp.
    store_context L Y dir cfg ctxName target wire resp))))"

definition runAdopt :: "'f local_ops \<Rightarrow> yaml \<Rightarrow> adopt_world \<Rightarrow> string \<Rightarrow> string \<Rightarrow> adopt_args \<Rightarrow> ('f, unit) action" where
  "runAdopt L Y W dir addr a =
    (if adopt_target addr a = [] then lift_result (Inl (Errorf ''adopt requires --capsule host:port''))
     else bind_action (loadConfig L Y dir) (\<lambda>cfg.
       if map_of (cc_Contexts cfg) (adopt_name addr a) \<noteq> None then lift_result (Inl (Errorf ''context already exists''))
       else enrol L Y W dir a cfg (adopt_name addr a) (adopt_target addr a)))"

definition runContextUse :: "'f local_ops \<Rightarrow> yaml \<Rightarrow> string \<Rightarrow> string \<Rightarrow> ('f, unit) action" where
  "runContextUse L Y dir name =
    bind_action (loadConfig L Y dir) (\<lambda>cfg.
      if map_of (cc_Contexts cfg) name = None then lift_result (Inl (Errorf ''no such context''))
      else config_Save L Y dir (cfg\<lparr>cc_Current := name\<rparr>))"

definition runContextRemove :: "'f local_ops \<Rightarrow> yaml \<Rightarrow> string \<Rightarrow> string \<Rightarrow> ('f, unit) action" where
  "runContextRemove L Y dir name =
    bind_action (loadConfig L Y dir) (\<lambda>cfg.
      if map_of (cc_Contexts cfg) name = None then lift_result (Inl (Errorf ''no such context''))
      else config_Save L Y dir
        \<lparr>cc_Current = (if cc_Current cfg = name then [] else cc_Current cfg), cc_Contexts = AList.delete name (cc_Contexts cfg)\<rparr>)"

section \<open>Installation\<close>

text \<open>The address to install to and a hint for the name of the context, from the arguments and what was discovered.\<close>

definition resolveInstaller :: "string list \<Rightarrow> string \<Rightarrow> browse_entry list result \<Rightarrow> (string \<times> string) result" where
  "resolveInstaller posArgs addrFlag browsed =
    (if addrFlag \<noteq> [] then Inr (addrFlag, case posArgs of [] \<Rightarrow> [] | h # _ \<Rightarrow> h)
     else case posArgs of
       [] \<Rightarrow> Inl (Errorf ''install requires <short-id> or --addr host:port'')
     | hint # _ \<Rightarrow>
        (case browsed of
           Inl e \<Rightarrow> Inl (Wrap ''mdns browse'' e)
         | Inr entries \<Rightarrow>
            (case List.find (\<lambda>e. IsInstaller e \<and> (be_ShortID e = hint \<or> be_Hostname e = hint \<or> be_Instance e = hint)) entries of
               None \<Rightarrow> Inl (Errorf ''no installer of that name on the LAN'')
             | Some e \<Rightarrow>
                if be_Addr e = [] then Inl (Errorf ''found installer but it has no advertised address'')
                else Inr (be_Addr e, be_ShortID e))))"

record install_status =
  is_TargetDisk :: string
  is_Targets :: "string list"
  is_ShortId :: string

definition install_target :: "string \<Rightarrow> install_status \<Rightarrow> string result" where
  "install_target target s =
    (if target = [] then Inr (is_TargetDisk s)
     else if target \<in> set (is_Targets s) then Inr target
     else Inl (Errorf ''target not in installer candidates''))"

definition install_context_name :: "string \<Rightarrow> install_status \<Rightarrow> string \<Rightarrow> string \<Rightarrow> string" where
  "install_context_name name s shortHint addr =
    (if name \<noteq> [] then name
     else if is_ShortId s \<noteq> [] then is_ShortId s
     else if shortHint \<noteq> [] then shortHint
     else defaultContextName addr)"

record install_reply =
  ir_CapsuleId :: string
  ir_TlsFingerprint :: string

datatype install_event = InstallProgress "install_reply option" | InstallBroken go_error

text \<open>The messages of the installation up to the end of the stream; the last result counts.\<close>

fun recv_install :: "install_reply option \<Rightarrow> install_event list \<Rightarrow> install_reply option result" where
  "recv_install result [] = Inr result"
| "recv_install result (InstallBroken e # _) = Inl (Wrap ''install stream'' e)"
| "recv_install result (InstallProgress r # es) = recv_install (case r of None \<Rightarrow> result | Some _ \<Rightarrow> r) es"

text \<open>The installation from the choice of the context on: \<open>start\<close> is the outcome of opening the stream and \<open>events\<close> what it delivers.\<close>

definition install_stream ::
  "'f local_ops \<Rightarrow> yaml \<Rightarrow> string \<Rightarrow> ctl_config \<Rightarrow> string \<Rightarrow> string \<Rightarrow> string \<Rightarrow> unit result \<Rightarrow> install_event list \<Rightarrow> ('f, unit) action" where
  "install_stream L Y dir cfg name addr keyPath start events f =
    (case start of
       Inl e \<Rightarrow> (Inl (Wrap ''install rpc'' e), lo_remove L keyPath f)
     | Inr _ \<Rightarrow>
        (case recv_install None events of
           Inl e \<Rightarrow> (Inl e, lo_remove L keyPath f)
         | Inr None \<Rightarrow> (Inl (Errorf ''install completed without an InstallResult''), lo_remove L keyPath f)
         | Inr (Some r) \<Rightarrow>
             wrap_action ''save config'' (config_Save L Y dir
               \<lparr>cc_Current = name, cc_Contexts = AList.update name
                  \<lparr>cx_Addr = addr, cx_CapsuleID = ir_CapsuleId r, cx_TLSFingerprint = ir_TlsFingerprint r, cx_KeyPath = keyPath\<rparr>
                  (cc_Contexts cfg)\<rparr>) f))"

definition install_keyPath :: "string \<Rightarrow> string \<Rightarrow> string" where
  "install_keyPath dir name = go_path_Join dir (''keys/'' @ name @ ''.ed25519'')"

definition install_to_disk ::
  "'f local_ops \<Rightarrow> yaml \<Rightarrow> string \<Rightarrow> (string \<times> string) result \<Rightarrow> string \<Rightarrow> string \<Rightarrow> unit result \<Rightarrow> install_event list \<Rightarrow> ('f, unit) action" where
  "install_to_disk L Y dir keygen name addr start events =
    bind_action (loadConfig L Y dir) (\<lambda>cfg.
      if map_of (cc_Contexts cfg) name \<noteq> None then lift_result (Inl (Errorf ''context already exists''))
      else bind_action (generatePrivateKey L keygen (install_keyPath dir name)) (\<lambda>_.
        install_stream L Y dir cfg name addr (install_keyPath dir name) start events))"

section \<open>Arguments\<close>

definition is_flag :: "string \<Rightarrow> bool" where
  "is_flag a \<longleftrightarrow> length a > 1 \<and> hd a = CHR ''-''"

definition splitAtDashDash :: "string list \<Rightarrow> string list \<times> string list" where
  "splitAtDashDash args = (takeWhile (\<lambda>a. a \<noteq> ''--'') args, drop 1 (dropWhile (\<lambda>a. a \<noteq> ''--'') args))"

definition partitionFlags :: "string list \<Rightarrow> string list \<times> string list" where
  "partitionFlags args = (filter is_flag args, filter (\<lambda>a. \<not> is_flag a) args)"

definition frontLoadFlags :: "string list \<Rightarrow> string list" where
  "frontLoadFlags args = filter is_flag args @ filter (\<lambda>a. \<not> is_flag a) args"

text \<open>The name of a flag without a value in the same token.\<close>

definition bare_flag :: "string \<Rightarrow> string option" where
  "bare_flag a =
    (if CHR ''='' \<in> set a then None
     else if has_prefix a ''--'' then Some (drop 2 a)
     else if has_prefix a ''-'' \<and> length a > 1 then Some (drop 1 a)
     else None)"

fun joinValueFlags :: "(string \<Rightarrow> bool) \<Rightarrow> string list \<Rightarrow> string list" where
  "joinValueFlags valueFlags [] = []"
| "joinValueFlags valueFlags [a] = [a]"
| "joinValueFlags valueFlags (a # b # args) =
    (case bare_flag a of
       Some n \<Rightarrow> if valueFlags n then (a @ ''='' @ b) # joinValueFlags valueFlags args
                 else a # joinValueFlags valueFlags (b # args)
     | None \<Rightarrow> a # joinValueFlags valueFlags (b # args))"

section \<open>Sizes and labels\<close>

definition is_digit :: "char \<Rightarrow> bool" where
  "is_digit c \<longleftrightarrow> digit_val c \<noteq> None"

definition parseSize :: "string \<Rightarrow> 64 word result" where
  "parseSize s0 =
    (let s = trim_space s0;
         unit = map to_lower (trim_space (rev (takeWhile (\<lambda>c. \<not> is_digit c) (rev s))));
         num = trim_space (rev (dropWhile (\<lambda>c. \<not> is_digit c) (rev s)))
     in if s = [] then Inl (Errorf ''empty size'')
        else case parse_uint 64 num of
          None \<Rightarrow> Inl (Errorf ''parse'')
        | Some k \<Rightarrow>
           let n = word_of_nat k :: 64 word
           in if unit \<in> set [[], ''m'', ''mi'', ''mib''] then Inr n
              else if unit \<in> set [''k'', ''ki'', ''kib''] then
                (if n mod 1024 \<noteq> 0 then Inl (Errorf ''not a whole MiB'') else Inr (n div 1024))
              else if unit \<in> set [''g'', ''gi'', ''gib''] then Inr (n * 1024)
              else if unit \<in> set [''t'', ''ti'', ''tib''] then Inr (n * 1024 * 1024)
              else Inl (Errorf ''unknown size unit''))"

definition formatUptime :: "64 word \<Rightarrow> string" where
  "formatUptime secs =
    (if secs = 0 then ''0s''
     else let d = secs div 86400; h = (secs mod 86400) div 3600; m = (secs mod 3600) div 60; s = secs mod 60
          in join_with CHR '' ''
            ((if d > 0 then [itoa (unat d) @ ''d''] else []) @
             (if h > 0 \<or> d > 0 then [itoa (unat h) @ ''h''] else []) @
             (if m > 0 \<or> h > 0 \<or> d > 0 then [itoa (unat m) @ ''m''] else []) @
             [itoa (unat s) @ ''s'']))"

definition kindShort :: "workload_kind \<Rightarrow> string" where
  "kindShort k = (case k of WORKLOAD_KIND_CONTAINER \<Rightarrow> ''Container'' | WORKLOAD_KIND_MICRO_VM \<Rightarrow> ''MicroVM'' | _ \<Rightarrow> ''?'')"

definition phaseShort :: "workload_phase \<Rightarrow> string" where
  "phaseShort p = (case p of WORKLOAD_PHASE_PENDING \<Rightarrow> ''Pending'' | WORKLOAD_PHASE_RUNNING \<Rightarrow> ''Running''
     | WORKLOAD_PHASE_STOPPED \<Rightarrow> ''Stopped'' | WORKLOAD_PHASE_FAILED \<Rightarrow> ''Failed'' | _ \<Rightarrow> ''-'')"

definition desiredShort :: "desired_state \<Rightarrow> string" where
  "desiredShort d = (case d of DESIRED_STATE_STOPPED \<Rightarrow> ''Stopped'' | _ \<Rightarrow> ''Running'')"

section \<open>Copying\<close>

definition parseCpArg :: "string \<Rightarrow> string \<times> string \<times> bool" where
  "parseCpArg s =
    (case str_cut CHR '':'' s of (a, b, ok) \<Rightarrow>
       if \<not> ok then ([], s, False)
       else if CHR ''/'' \<in> set a \<or> a = [] then ([], s, False)
       else (a, b, True))"

datatype cp_direction = CpTo string string string | CpFrom string string string

definition runCp :: "string list \<Rightarrow> cp_direction result" where
  "runCp args =
    (case args of
       [srcArg, dstArg] \<Rightarrow>
         (case parseCpArg srcArg of (srcWl, srcPath, srcIsRemote) \<Rightarrow>
          case parseCpArg dstArg of (dstWl, dstPath, dstIsRemote) \<Rightarrow>
            if srcIsRemote \<and> dstIsRemote then Inl (Errorf ''workload-to-workload copy not supported; copy via your workstation'')
            else if \<not> srcIsRemote \<and> \<not> dstIsRemote then Inl (Errorf ''one of <src> or <dst> must be of the form <workload>:<path>'')
            else if dstIsRemote then Inr (CpTo srcArg dstWl dstPath)
            else Inr (CpFrom srcWl srcPath dstArg))
     | _ \<Rightarrow> Inl (Errorf ''cp requires exactly two args: <src> <dst>''))"

definition trim_left_slashes :: "string \<Rightarrow> string" where
  "trim_left_slashes s = dropWhile (\<lambda>c. c = CHR ''/'') s"

definition trim_right_slashes :: "string \<Rightarrow> string" where
  "trim_right_slashes s = rev (dropWhile (\<lambda>c. c = CHR ''/'') (rev s))"

text \<open>The name of the archive's root when copying to a workload, before the connection is opened.\<close>

definition cpTo_root :: "unit result \<Rightarrow> string \<Rightarrow> string \<Rightarrow> string result" where
  "cpTo_root lstat localSrc remotePath =
    (case lstat of
       Inl e \<Rightarrow> Inl (Wrap ''stat'' e)
     | Inr _ \<Rightarrow>
        if remotePath = [] then Inl (Errorf ''remote path is empty'')
        else if \<not> path_is_abs remotePath then Inl (Errorf ''remote path must be absolute'')
        else let rootName = go_path_Base (trim_right_slashes localSrc)
             in if rootName \<in> set [''.'', ''..'', ''/'', []] then Inl (Errorf ''cannot derive a top-level name'')
                else Inr rootName)"

text \<open>Where a copy from a workload goes: the directory to extract into, the root of the archive and its new name, empty to keep it.\<close>

definition cpFrom_target :: "bool \<Rightarrow> string \<Rightarrow> string \<Rightarrow> (string \<times> string \<times> string) result" where
  "cpFrom_target dst_is_dir remotePath localDst =
    (if remotePath = [] then Inl (Errorf ''remote path is empty'')
     else if \<not> path_is_abs remotePath then Inl (Errorf ''remote path must be absolute'')
     else let srcRoot = go_path_Base remotePath
          in if srcRoot \<in> set [[], ''/'', ''.''] then Inl (Errorf ''cannot derive a source name'')
             else if localDst \<noteq> [] \<and> last localDst = CHR ''/''
             then (let d = trim_right_slashes localDst in Inr (if d = [] then ''.'' else d, srcRoot, []))
             else if dst_is_dir then Inr (localDst, srcRoot, [])
             else Inr (go_path_Dir localDst, srcRoot, go_path_Base localDst))"

definition rewriteRoot :: "string \<Rightarrow> string \<Rightarrow> string \<Rightarrow> string" where
  "rewriteRoot nm oldRoot newRoot =
    (if nm = oldRoot then newRoot
     else if has_prefix nm (oldRoot @ ''/'') then newRoot @ drop (length oldRoot) nm
     else nm)"

datatype tar_type = TypeDir | TypeReg | TypeSymlink | TypeXGlobalHeader | TypeOther

record tar_header =
  th_Name :: string
  th_Type :: tar_type
  th_Mode :: "32 word"
  th_Linkname :: string
  th_content :: string

text \<open>The file system calls of the extraction. \<open>fx_copy\<close> writes the content to an open file and closes it, and returns the bytes written with
  the first error.\<close>

record 'f fs_ops =
  fx_mkdir_all :: "string \<Rightarrow> 32 word \<Rightarrow> ('f, unit) action"
  fx_open :: "string \<Rightarrow> 32 word \<Rightarrow> ('f, unit) action"
  fx_copy :: "string \<Rightarrow> string \<Rightarrow> 'f \<Rightarrow> (nat \<times> go_error option) \<times> 'f"
  fx_remove :: "string \<Rightarrow> 'f \<Rightarrow> 'f"
  fx_symlink :: "string \<Rightarrow> string \<Rightarrow> ('f, unit) action"

definition contains_dotdot :: "string \<Rightarrow> bool" where
  "contains_dotdot s = str_contains s ''..''"

text \<open>The path an entry is written to, or why it is refused; \<open>cwd\<close> is the working directory of the client.\<close>

definition entry_path :: "string \<Rightarrow> string \<Rightarrow> string \<Rightarrow> string \<Rightarrow> string \<Rightarrow> string result" where
  "entry_path cwd destDir oldRoot newRoot nm0 =
    (let nm1 = trim_left_slashes nm0;
         nm = (if newRoot \<noteq> [] then rewriteRoot nm1 oldRoot newRoot else nm1)
     in if contains_dotdot nm then Inl (Errorf ''tar entry contains ..'')
        else let full = go_path_Join destDir nm; absDest = go_path_Abs cwd destDir; absFull = go_path_Abs cwd full
             in if absDest \<noteq> [] \<and> \<not> has_prefix absFull (absDest @ ''/'') \<and> absFull \<noteq> absDest
                then Inl (Errorf ''tar entry escapes destination'')
                else Inr full)"

definition extract_entry :: "'f fs_ops \<Rightarrow> string \<Rightarrow> tar_header \<Rightarrow> 'f \<Rightarrow> (nat \<times> go_error option) \<times> 'f" where
  "extract_entry X full h f =
    (case th_Type h of
       TypeDir \<Rightarrow> (case fx_mkdir_all X full ((th_Mode h AND 0xFFF) OR 0x1C0) f of (Inl e, f1) \<Rightarrow> ((0, Some e), f1) | (Inr _, f1) \<Rightarrow> ((0, None), f1))
     | TypeReg \<Rightarrow>
        (case fx_mkdir_all X (go_path_Dir full) 0x1ED f of
           (Inl e, f1) \<Rightarrow> ((0, Some e), f1)
         | (Inr _, f1) \<Rightarrow>
            (case fx_open X full (th_Mode h AND 0xFFF) f1 of
               (Inl e, f2) \<Rightarrow> ((0, Some e), f2)
             | (Inr _, f2) \<Rightarrow> fx_copy X full (th_content h) f2))
     | TypeSymlink \<Rightarrow>
        (case fx_mkdir_all X (go_path_Dir full) 0x1ED f of
           (Inl e, f1) \<Rightarrow> ((0, Some e), f1)
         | (Inr _, f1) \<Rightarrow>
            (case fx_symlink X (th_Linkname h) full (fx_remove X full f1) of
               (Inl e, f2) \<Rightarrow> ((0, Some e), f2)
             | (Inr _, f2) \<Rightarrow> ((0, None), f2)))
     | _ \<Rightarrow> ((0, None), f))"

text \<open>The archive is its entries, and how reading ends: \<open>None\<close> at the end of the archive.\<close>

fun tarUnpack ::
  "'f fs_ops \<Rightarrow> string \<Rightarrow> string \<Rightarrow> string \<Rightarrow> string \<Rightarrow> go_error option \<Rightarrow> tar_header list \<Rightarrow> 'f \<Rightarrow> (nat \<times> go_error option) \<times> 'f" where
  "tarUnpack X cwd destDir oldRoot newRoot rerr [] f = ((0, rerr), f)"
| "tarUnpack X cwd destDir oldRoot newRoot rerr (h # hs) f =
    (case entry_path cwd destDir oldRoot newRoot (th_Name h) of
       Inl e \<Rightarrow> ((0, Some e), f)
     | Inr full \<Rightarrow>
        (case extract_entry X full h f of
           ((n, Some e), f1) \<Rightarrow> ((n, Some e), f1)
         | ((n, None), f1) \<Rightarrow>
            (case tarUnpack X cwd destDir oldRoot newRoot rerr hs f1 of ((m, r), f2) \<Rightarrow> ((n + m, r), f2))))"

text \<open>The adapters between the streams and the archive code. A writer sends each nonempty block as one chunk; a reader hands out what is left
  of the last chunk, or of the next one.\<close>

definition chunk_write :: "string \<Rightarrow> go_error option \<Rightarrow> nat result \<times> string list" where
  "chunk_write p send =
    (if p = [] then (Inr 0, []) else case send of Some e \<Rightarrow> (Inl e, []) | None \<Rightarrow> (Inr (length p), [p]))"

fun chunk_read :: "nat \<Rightarrow> string \<times> string list \<Rightarrow> string option \<times> string \<times> string list" where
  "chunk_read n ([], []) = (None, [], [])"
| "chunk_read n ([], c # cs) = (Some (take n c), drop n c, cs)"
| "chunk_read n (b # bs, cs) = (Some (take n (b # bs)), drop n (b # bs), cs)"

section \<open>Extraction stays below its directory\<close>

definition inside :: "string \<Rightarrow> string \<Rightarrow> string \<Rightarrow> bool" where
  "inside cwd destDir p \<longleftrightarrow> path_within (go_path_Abs cwd destDir) (go_path_Abs cwd p)"

lemma Abs_nonempty: "path_is_abs cwd \<Longrightarrow> go_path_Abs cwd p \<noteq> []"
proof -
  assume "path_is_abs cwd"
  moreover from this have "path_is_abs (cwd @ ''/'' @ p)" "cwd \<noteq> []" by (simp_all add: path_is_abs_def)
  ultimately show ?thesis by (simp add: go_path_Abs_def go_path_Join_def Clean_abs)
qed

lemma entry_path_inside:
  assumes "path_is_abs cwd" "entry_path cwd destDir oldRoot newRoot nm = Inr full"
  shows "inside cwd destDir full"
proof -
  have "go_path_Abs cwd destDir \<noteq> []" by (rule Abs_nonempty [OF assms(1)])
  then show ?thesis using assms(2)
    by (auto simp: entry_path_def Let_def inside_def path_within_def split: if_splits)
qed

text \<open>A property of the file system that no call on a path at or below the directory destroys, nor creating the directory of such a path.\<close>

definition undisturbed :: "'f fs_ops \<Rightarrow> (string \<Rightarrow> bool) \<Rightarrow> ('f \<Rightarrow> bool) \<Rightarrow> bool" where
  "undisturbed X below P \<longleftrightarrow>
    (\<forall>p m. below p \<longrightarrow> keeps P (fx_mkdir_all X p m) \<and> keeps P (fx_mkdir_all X (go_path_Dir p) m) \<and> keeps P (fx_open X p m)) \<and>
    (\<forall>p t f. below p \<longrightarrow> P f \<longrightarrow> P (snd (fx_copy X p t f)) \<and> P (fx_remove X p f)) \<and>
    (\<forall>p t. below p \<longrightarrow> keeps P (fx_symlink X t p))"

lemma extract_entry_undisturbed:
  assumes "undisturbed X below P" "below full" "P f"
  shows "P (snd (extract_entry X full h f))"
proof -
  have d: "P (snd (fx_mkdir_all X full m f))" "P (snd (fx_mkdir_all X (go_path_Dir full) m f))" for m
    using assms by (simp_all add: undisturbed_def keeps_def)
  have o: "P g \<Longrightarrow> P (snd (fx_open X full m g))" and l: "P g \<Longrightarrow> P (snd (fx_symlink X t full g))"
    and c: "P g \<Longrightarrow> P (snd (fx_copy X full t g))" and r: "P g \<Longrightarrow> P (fx_remove X full g)" for g m t
    using assms by (simp_all add: undisturbed_def keeps_def)
  obtain a f1 where m1: "fx_mkdir_all X (go_path_Dir full) 0x1ED f = (a, f1)" by fastforce
  have p1: "P f1" using d(2) [of "0x1ED"] m1 by simp
  obtain b f2 where m2: "fx_open X full (th_Mode h AND 0xFFF) f1 = (b, f2)" by fastforce
  have p2: "P f2" using o [OF p1, of "th_Mode h AND 0xFFF"] m2 by simp
  obtain b3 f3 where m3: "fx_symlink X (th_Linkname h) full (fx_remove X full f1) = (b3, f3)" by fastforce
  have p3: "P f3" using l [OF r [OF p1], of "th_Linkname h"] m3 by simp
  obtain b4 f4 where m4: "fx_mkdir_all X full ((th_Mode h AND 0xFFF) OR 0x1C0) f = (b4, f4)" by fastforce
  have p4: "P f4" using d(1) [of "(th_Mode h AND 0xFFF) OR 0x1C0"] m4 by simp
  show ?thesis
  proof (cases "th_Type h")
    case TypeDir
    then show ?thesis using p4 by (cases b4) (simp_all add: extract_entry_def m4)
  next
    case TypeReg
    then show ?thesis using p1 p2 c [OF p2] by (cases a; cases b) (simp_all add: extract_entry_def m1 m2)
  next
    case TypeSymlink
    then show ?thesis using p1 p3 by (cases a; cases b3) (simp_all add: extract_entry_def m1 m3)
  qed (simp_all add: extract_entry_def assms(3))
qed

text \<open>C23: extracting a copied archive calls the file system only with paths that are lexically the chosen directory or below
  it, and creates directories up to such a path: whatever the entries are named, a property of the file system that such calls
  preserve survives the extraction.\<close>

theorem tarUnpack_stays_inside:
  assumes "path_is_abs cwd" "undisturbed X (inside cwd destDir) P" "P f"
  shows "P (snd (tarUnpack X cwd destDir oldRoot newRoot rerr hs f))"
  using assms(3)
proof (induction hs arbitrary: f)
  case (Cons h hs)
  show ?case
  proof (cases "entry_path cwd destDir oldRoot newRoot (th_Name h)")
    case (Inl e)
    then show ?thesis using Cons.prems by simp
  next
    case (Inr full)
    obtain n r f1 where x: "extract_entry X full h f = ((n, r), f1)" by (metis prod.exhaust)
    have p1: "P f1"
      using extract_entry_undisturbed [OF assms(2) entry_path_inside [OF assms(1) Inr] Cons.prems, of h] x by simp
    then show ?thesis using Cons.IH [OF p1] Inr x by (cases r) (simp_all add: split_beta)
  qed
qed simp

text \<open>A file system that records the paths that are opened, written, removed or linked.\<close>

definition trace_fs :: "string list fs_ops" where
  "trace_fs = \<lparr>fx_mkdir_all = (\<lambda>p m f. (Inr (), f)), fx_open = (\<lambda>p m f. (Inr (), p # f)), fx_copy = (\<lambda>p c f. ((length c, None), p # f)),
     fx_remove = (\<lambda>p f. p # f), fx_symlink = (\<lambda>t p f. (Inr (), p # f))\<rparr>"

theorem tarUnpack_stays_inside_witness:
  "list_all (inside ''/home'' ''out'') (snd (tarUnpack trace_fs ''/home'' ''out'' ''x'' [] None
      [\<lparr>th_Name = ''x/a'', th_Type = TypeReg, th_Mode = 0x1A4, th_Linkname = [], th_content = ''hi''\<rparr>] []))"
  by (rule tarUnpack_stays_inside [where P = "list_all (inside ''/home'' ''out'')"])
    (simp_all add: path_is_abs_def undisturbed_def trace_fs_def keeps_def)

section \<open>Which entries are accepted\<close>

lemma contains_dotdot_middle: "contains_dotdot (a @ ''..'' @ b)"
  unfolding contains_dotdot_def by (induction a) simp_all

lemma split_on_part: "w \<in> set (split_on c s) \<Longrightarrow> \<exists>a b. s = a @ w @ b"
proof -
  assume "w \<in> set (split_on c s)"
  then obtain us vs where uv: "split_on c s = us @ w # vs" by (meson split_list)
  have s: "s = join_with c (us @ w # vs)" using join_split [of c s] uv by simp
  have "\<exists>b. join_with c (w # vs) = w @ b" by (cases vs) simp_all
  then obtain b where b: "join_with c (w # vs) = w @ b" by blast
  show ?thesis
  proof (cases "us = []")
    case True
    then show ?thesis using s b by auto
  next
    case False
    then have "s = (join_with c us @ [c]) @ w @ b" using s b join_with_append [of us "w # vs" c] by simp
    then show ?thesis by blast
  qed
qed

lemma no_dotdot_elems: "\<not> contains_dotdot s \<Longrightarrow> ''..'' \<notin> set (split_on c s)"
  using split_on_part [of "''..''" c s] contains_dotdot_middle by fastforce

text \<open>The name of an entry after the leading slashes are cut and the root is renamed.\<close>

definition entry_name :: "string \<Rightarrow> string \<Rightarrow> string \<Rightarrow> string" where
  "entry_name oldRoot newRoot nm =
    (if newRoot \<noteq> [] then rewriteRoot (trim_left_slashes nm) oldRoot newRoot else trim_left_slashes nm)"

lemma joined_inside:
  assumes "path_is_abs destDir" "abs_elems destDir \<noteq> []" "\<not> contains_dotdot nm"
  shows "inside cwd destDir (go_path_Join destDir nm)"
proof -
  let ?p = "destDir @ CHR ''/'' # nm"
  have p: "path_is_abs ?p" and ne: "destDir \<noteq> []" using assms(1) by (simp_all add: path_is_abs_def)
  have d: "go_path_Abs cwd destDir = go_path_Clean destDir" using assms(1) by (simp add: go_path_Abs_def)
  show ?thesis
  proof (cases "nm = []")
    case True
    then have j: "go_path_Join destDir nm = go_path_Clean destDir" using ne by (simp add: go_path_Join_def)
    have "go_path_Abs cwd (go_path_Clean destDir) = go_path_Clean destDir"
      using Clean_abs_abs [OF assms(1)] Clean_idem [OF assms(1)] by (simp add: go_path_Abs_def)
    then show ?thesis unfolding inside_def path_within_def j d by simp
  next
    case False
    then have j: "go_path_Join destDir nm = go_path_Clean ?p" using ne by (simp add: go_path_Join_def)
    have "go_path_Abs cwd (go_path_Clean ?p) = go_path_Clean ?p"
      using Clean_abs_abs [OF p] Clean_idem [OF p] by (simp add: go_path_Abs_def)
    then show ?thesis unfolding inside_def j d
      using joined_path_within [OF assms(1,2) no_dotdot_elems [OF assms(3)]] by simp
  qed
qed

text \<open>no entry is refused without need: with an absolute directory other than the root, every entry whose name has no two
  dots in a row is extracted, to its name joined to the directory.\<close>

theorem benign_entry_is_accepted:
  assumes "path_is_abs destDir" "abs_elems destDir \<noteq> []" "\<not> contains_dotdot (entry_name oldRoot newRoot nm)"
  shows "entry_path cwd destDir oldRoot newRoot nm = Inr (go_path_Join destDir (entry_name oldRoot newRoot nm))"
  using joined_inside [OF assms, of cwd] assms(3)
  unfolding entry_path_def entry_name_def [symmetric] inside_def path_within_def Let_def by simp

theorem benign_entry_is_accepted_witness:
  "entry_path ''/'' ''/tmp/out'' ''x'' ''y'' ''x/a.txt'' = Inr ''/tmp/out/y/a.txt''"
proof -
  have "abs_elems ''/tmp/out'' \<noteq> []" "\<not> contains_dotdot (entry_name ''x'' ''y'' ''x/a.txt'')"
    "go_path_Join ''/tmp/out'' (entry_name ''x'' ''y'' ''x/a.txt'') = ''/tmp/out/y/a.txt''" by code_simp+
  then show ?thesis using benign_entry_is_accepted [of "''/tmp/out''" "''x''" "''y''" "''x/a.txt''" "''/''"] by (simp add: path_is_abs_def)
qed

text \<open>into the root directory nothing can be copied: a target of only slashes is turned into the working directory, and
  with the root as the directory every entry with a proper name is refused as an escape.\<close>

theorem root_cannot_be_a_target:
  "cpFrom_target b ''/srv/x'' ''/'' = Inr (''.'', ''x'', []) \<and>
   entry_path ''/'' ''.'' ''x'' [] ''x'' = Inl (Errorf ''tar entry escapes destination'')"
proof
  show "cpFrom_target b ''/srv/x'' ''/'' = Inr (''.'', ''x'', [])"
    by (simp add: cpFrom_target_def path_is_abs_def go_path_Base_def trim_right_slashes_def)
  show "entry_path ''/'' ''.'' ''x'' [] ''x'' = Inl (Errorf ''tar entry escapes destination'')" by code_simp
qed

section \<open>Links in an archive\<close>

text \<open>A file system with symbolic links: a path below a link is the path below the link's target.\<close>

datatype fs_node = FileNode string | LinkNode string

definition follow :: "(string \<times> fs_node) list \<Rightarrow> string \<Rightarrow> string" where
  "follow f p =
    (case List.find (\<lambda>(q, n). (case n of LinkNode _ \<Rightarrow> has_prefix p (q @ ''/'') | FileNode _ \<Rightarrow> False)) f of
       Some (q, LinkNode t) \<Rightarrow> t @ drop (length q) p
     | _ \<Rightarrow> p)"

definition link_fs :: "(string \<times> fs_node) list fs_ops" where
  "link_fs = \<lparr>fx_mkdir_all = (\<lambda>p m f. (Inr (), f)), fx_open = (\<lambda>p m f. (Inr (), AList.update (follow f p) (FileNode []) f)),
     fx_copy = (\<lambda>p c f. ((length c, None), AList.update (follow f p) (FileNode c) f)),
     fx_remove = (\<lambda>p f. AList.delete (follow f p) f),
     fx_symlink = (\<lambda>t p f. (Inr (), AList.update (follow f p) (LinkNode t) f))\<rparr>"


section \<open>The registry of contexts\<close>

lemma loadConfig_content:
  assumes "local_ok L content targets"
  shows "loadConfig L Y dir f =
    ((case content f (configPath dir) of
       None \<Rightarrow> Inr \<lparr>cc_Current = [], cc_Contexts = []\<rparr>
     | Some b \<Rightarrow> (case ym_unmarshal Y b of Inl e \<Rightarrow> Inl (Wrap ''parse'' e) | Inr c \<Rightarrow> Inr c)), f)"
proof -
  have "lo_read L p f = (case content f p of None \<Rightarrow> Inl local_ErrNotExist | Some b \<Rightarrow> Inr b, f)" for p
    using assms by (simp add: local_ok_def)
  then show ?thesis by (simp add: loadConfig_def split: option.splits sum.splits)
qed

definition yaml_ok :: "yaml \<Rightarrow> bool" where
  "yaml_ok Y \<longleftrightarrow> (\<forall>c b. ym_marshal Y c = Inr b \<longrightarrow> ym_unmarshal Y b = Inr c)"

lemma Save_outcome:
  assumes ok: "local_ok L content targets" and q: "configPath dir \<in> targets" "q \<in> targets" and run: "config_Save L Y dir c f = (r, f1)"
  shows "content f1 q = (if is_ok r \<and> q = configPath dir then Some (projr (ym_marshal Y c)) else content f q) \<and>
    (is_ok r \<longrightarrow> is_ok (ym_marshal Y c))"
proof -
  obtain x g where m: "lo_mkdir_all L dir f = (x, g)" by fastforce
  have c: "content g = content f" using ok m unfolding local_ok_def leaves_files_def by (metis snd_conv)
  show ?thesis
  proof (cases x)
    case (Inl e)
    then show ?thesis using run m c by (auto simp: config_Save_def bind_action_def wrap_action_def)
  next
    case x: (Inr u)
    show ?thesis
    proof (cases "ym_marshal Y c")
      case (Inl e)
      then show ?thesis using run m c x by (auto simp: config_Save_def bind_action_def wrap_action_def lift_result_def)
    next
      case (Inr b)
      then have "replace_file L (\<lambda>_ e. e) False dir (configPath dir) b g = (r, f1)"
        using run m x by (simp add: config_Save_def bind_action_def wrap_action_def lift_result_def)
      then show ?thesis using replace_file_outcome [OF ok q] c Inr by simp
    qed
  qed
qed

text \<open>C24: saving the registry of contexts is atomic: after a save that succeeded the client loads exactly what was saved, and
  after one that failed, at whatever step, it loads what it loaded before.\<close>

theorem Save_is_atomic:
  assumes "local_ok L content {configPath dir}" "yaml_ok Y"
  shows "fst (loadConfig L Y dir (snd (config_Save L Y dir c f))) =
    (if is_ok (fst (config_Save L Y dir c f)) then Inr c else fst (loadConfig L Y dir f))"
proof -
  obtain r f1 where s: "config_Save L Y dir c f = (r, f1)" by fastforce
  note o = Save_outcome [OF assms(1) _ _ s, of "configPath dir"]
  show ?thesis
  proof (cases "is_ok r")
    case True
    then obtain b where b: "ym_marshal Y c = Inr b" using o by (auto simp: is_ok_iff)
    then have "ym_unmarshal Y b = Inr c" using assms(2) by (simp add: yaml_ok_def)
    then show ?thesis using o s True b by (simp add: loadConfig_content [OF assms(1)])
  next
    case False
    then show ?thesis using o s by (simp add: loadConfig_content [OF assms(1)])
  qed
qed

definition plain_yaml :: yaml where
  "plain_yaml = \<lparr>ym_marshal = (\<lambda>c. if cc_Contexts c = [] then Inr (cc_Current c) else Inl (Errorf ''yaml'')),
     ym_unmarshal = (\<lambda>b. Inr \<lparr>cc_Current = b, cc_Contexts = []\<rparr>)\<rparr>"

lemma plain_yaml_ok: "yaml_ok plain_yaml"
  by (auto simp: yaml_ok_def plain_yaml_def split: if_splits)

theorem Save_is_atomic_witness:
  "fst (loadConfig memory_local plain_yaml ''/c'' (snd (config_Save memory_local plain_yaml ''/c'' \<lparr>cc_Current = ''lab1'', cc_Contexts = []\<rparr> []))) =
    Inr \<lparr>cc_Current = ''lab1'', cc_Contexts = []\<rparr>"
proof -
  have "''/.tmp'' \<notin> {configPath ''/c''}" by code_simp
  then have "local_ok memory_local map_of {configPath ''/c''}" by (rule memory_local_ok)
  moreover have "is_ok (fst (config_Save memory_local plain_yaml ''/c'' \<lparr>cc_Current = ''lab1'', cc_Contexts = []\<rparr> []))" by code_simp
  ultimately show ?thesis
    using Save_is_atomic [OF _ plain_yaml_ok, of memory_local map_of "''/c''" "\<lparr>cc_Current = ''lab1'', cc_Contexts = []\<rparr>" "[]"] by simp
qed

section \<open>Enrolling with a capsule\<close>

lemma defaultContextName_ne: "addr \<noteq> [] \<Longrightarrow> defaultContextName addr \<noteq> []"
proof -
  assume "addr \<noteq> []"
  then obtain x t where a: "addr = x # t" by (meson neq_Nil_conv)
  show ?thesis
  proof (cases "CHR '':'' \<in> set t")
    case True
    then have "dropWhile (\<lambda>c. c \<noteq> CHR '':'') (rev t) \<noteq> []" "dropWhile (\<lambda>c. c \<noteq> CHR '':'') (rev t @ [x]) = dropWhile (\<lambda>c. c \<noteq> CHR '':'') (rev t) @ [x]"
      by (auto simp: dropWhile_append dropWhile_eq_Nil_conv)
    then show ?thesis using True by (cases "dropWhile (\<lambda>c. c \<noteq> CHR '':'') (rev t)") (simp_all add: a defaultContextName_def)
  qed (simp add: a defaultContextName_def)
qed

lemma operator_key_stored:
  assumes ok: "local_ok L content targets" and k: "keyPath \<in> targets" and run: "operator_key L W keyPath f = (Inr priv, f1)"
  shows "content f1 keyPath \<noteq> None"
proof (cases "lo_exists L keyPath f")
  case True
  have "lo_read L keyPath f = (case content f keyPath of None \<Rightarrow> Inl local_ErrNotExist | Some b \<Rightarrow> Inr b, f)"
    "lo_exists L keyPath f \<longleftrightarrow> content f keyPath \<noteq> None" using ok by (simp_all add: local_ok_def)
  then show ?thesis using run True by (auto simp: operator_key_def loadPrivateKey_def)
next
  case False
  then obtain u g where "lo_mkdir_all L (go_path_Dir keyPath) f = (Inr u, g)" and
    g: "(if lo_exists L keyPath g then (Inl (Errorf ''refusing to overwrite existing key''), g)
      else case aw_keygen W of Inl e \<Rightarrow> (Inl e, g)
      | Inr (p, pem) \<Rightarrow> (case replace_file L (\<lambda>_ e. e) True (go_path_Dir keyPath) keyPath pem g of
             (Inl e, f1) \<Rightarrow> (Inl e, f1) | (Inr _, f1) \<Rightarrow> (Inr p, f1))) = (Inr priv, f1)"
    using run unfolding operator_key_def generatePrivateKey_def by (auto elim: bind_ok)
  then obtain p pem where "replace_file L (\<lambda>_ e. e) True (go_path_Dir keyPath) keyPath pem g = (Inr (), f1)"
    by (auto split: if_splits sum.splits prod.splits)
  then show ?thesis using replace_file_outcome [OF ok k k] by simp
qed

lemma enrol_ok:
  assumes "enrol L Y W dir a cfg ctxName target f = (Inr (), f1)"
  obtains wire priv g resp where "aw_capture W target = Inr wire" "operator_key L W (operatorKeyPath dir) f = (Inr priv, g)"
    "store_context L Y dir cfg ctxName target wire resp g = (Inr (), f1)"
  using assms unfolding enrol_def by (elim bind_ok) (simp add: wrap_ok lift_ok adopt_call_def split: sum.splits if_splits)

text \<open>C26: an enrolment that succeeds leaves a usable current context: the client then resolves, with no \<open>--capsule\<close> given, to the
  address it adopted, pinned to the fingerprint of the connection the operator confirmed, with a key file that exists.\<close>

theorem adopted_context_resolves:
  assumes ok: "local_ok L content {configPath dir, operatorKeyPath dir}" and ne: "configPath dir \<noteq> operatorKeyPath dir" and Y: "yaml_ok Y"
    and run: "runAdopt L Y W dir addr a f = (Inr (), f1)"
  shows "\<exists>cfg ctx. fst (loadConfig L Y dir f1) = Inr cfg \<and> Resolve cfg [] = Inr ctx \<and> cx_Addr ctx = adopt_target addr a \<and>
    aw_capture W (adopt_target addr a) = Inr (cx_TLSFingerprint ctx) \<and> cx_KeyPath ctx = operatorKeyPath dir \<and>
    content f1 (operatorKeyPath dir) \<noteq> None"
proof -
  let ?t = "adopt_target addr a" and ?n = "adopt_name addr a"
  have t: "?t \<noteq> []" using run by (auto simp: runAdopt_def lift_result_def)
  obtain cfg g0 where e: "enrol L Y W dir a cfg ?n ?t g0 = (Inr (), f1)"
    using run t by (auto simp: runAdopt_def lift_ok elim!: bind_ok split: if_splits)
  obtain wire priv g1 resp where w: "aw_capture W ?t = Inr wire" and k: "operator_key L W (operatorKeyPath dir) g0 = (Inr priv, g1)"
    and s: "store_context L Y dir cfg ?n ?t wire resp g1 = (Inr (), f1)"
    by (rule enrol_ok [OF e])
  define c where "c = \<lparr>cc_Current = ?n, cc_Contexts = AList.update ?n
      \<lparr>cx_Addr = ?t, cx_CapsuleID = av_CapsuleId resp, cx_TLSFingerprint = wire, cx_KeyPath = operatorKeyPath dir\<rparr> (cc_Contexts cfg)\<rparr>"
  have v: "config_Save L Y dir c g1 = (Inr (), f1)"
    using s by (simp add: store_context_def c_def wrap_ok split: if_splits)
  note o = Save_outcome [OF ok _ _ v]
  have "is_ok (ym_marshal Y c)" using o [of "configPath dir"] by simp
  then obtain b where b: "ym_marshal Y c = Inr b" by (auto simp: is_ok_iff)
  then have "ym_unmarshal Y b = Inr c" using Y by (simp add: yaml_ok_def)
  then have l: "fst (loadConfig L Y dir f1) = Inr c" using o [of "configPath dir"] b by (simp add: loadConfig_content [OF ok])
  have "content f1 (operatorKeyPath dir) = content g1 (operatorKeyPath dir)" using o [of "operatorKeyPath dir"] ne by auto
  then have key: "content f1 (operatorKeyPath dir) \<noteq> None" using operator_key_stored [OF ok _ k] by simp
  have "?n \<noteq> []" using defaultContextName_ne [OF t] by (simp add: adopt_name_def)
  then have "Resolve c [] = Inr \<lparr>cx_Addr = ?t, cx_CapsuleID = av_CapsuleId resp, cx_TLSFingerprint = wire, cx_KeyPath = operatorKeyPath dir\<rparr>"
    by (simp add: Resolve_def c_def update_conv' Let_def)
  then show ?thesis using l w key by simp
qed

text \<open>A YAML library for one registry.\<close>

definition one_yaml :: "ctl_config \<Rightarrow> yaml" where
  "one_yaml C = \<lparr>ym_marshal = (\<lambda>c. if c = C then Inr ''yaml'' else Inl (Errorf ''marshal'')), ym_unmarshal = (\<lambda>b. Inr C)\<rparr>"

lemma one_yaml_ok: "yaml_ok (one_yaml C)"
  by (simp add: yaml_ok_def one_yaml_def)

definition example_context :: ctl_context where
  "example_context = \<lparr>cx_Addr = ''10.0.0.2:50000'', cx_CapsuleID = ''id'', cx_TLSFingerprint = ''ab'', cx_KeyPath = operatorKeyPath ''/c''\<rparr>"

definition example_world :: adopt_world where
  "example_world = \<lparr>aw_capture = (\<lambda>_. Inr ''ab''), aw_confirm = Inr ''yes'', aw_keygen = Inr (''k'', ''pem''), aw_parse = (\<lambda>_. Inr ''k''),
     aw_adopt = (\<lambda>_ _. Inr \<lparr>av_CapsuleId = ''id'', av_TlsFingerprint = ''AB''\<rparr>), aw_public = (\<lambda>k. k)\<rparr>"

definition example_args :: adopt_args where
  "example_args = \<lparr>aa_capsule = ''10.0.0.2:50000'', aa_name = [], aa_yes = False\<rparr>"

definition example_registry :: ctl_config where
  "example_registry = \<lparr>cc_Current = ''10.0.0.2'', cc_Contexts = [(''10.0.0.2'', example_context)]\<rparr>"

lemma memory_client_ok: "local_ok memory_local map_of {configPath ''/c'', operatorKeyPath ''/c''}"
proof -
  have "''/.tmp'' \<notin> {configPath ''/c'', operatorKeyPath ''/c''}" by code_simp
  then show ?thesis by (rule memory_local_ok)
qed

theorem adopted_context_resolves_witness:
  "\<exists>cfg ctx. fst (loadConfig memory_local (one_yaml example_registry) ''/c''
      (snd (runAdopt memory_local (one_yaml example_registry) example_world ''/c'' [] example_args []))) = Inr cfg \<and> Resolve cfg [] = Inr ctx"
proof -
  have n: "configPath ''/c'' \<noteq> operatorKeyPath ''/c''" by code_simp
  have "fst (runAdopt memory_local (one_yaml example_registry) example_world ''/c'' [] example_args []) = Inr ()" by code_simp
  then have "runAdopt memory_local (one_yaml example_registry) example_world ''/c'' [] example_args [] =
      (Inr (), snd (runAdopt memory_local (one_yaml example_registry) example_world ''/c'' [] example_args []))"
    by (metis prod.collapse)
  from adopted_context_resolves [OF memory_client_ok n one_yaml_ok this] show ?thesis by blast
qed

text \<open>C39: a reply to \<open>Adopt\<close> with a wrong fingerprint costs the operator every capsule: the client deletes the operator's key,
  which all contexts share, although the contexts that need it stay in the registry.\<close>

theorem mismatched_reply_deletes_operator_key:
  assumes ok: "local_ok L content {configPath dir, operatorKeyPath dir}" and ne: "configPath dir \<noteq> operatorKeyPath dir"
    and cfg: "fst (loadConfig L Y dir f) = Inr cfg" "map_of (cc_Contexts cfg) (adopt_name addr a) = None"
    and t: "adopt_target addr a \<noteq> []" "aw_capture W (adopt_target addr a) = Inr wire" "confirmed a W = Inr ()"
    and key: "content f (operatorKeyPath dir) = Some k" "aw_parse W k = Inr priv"
    and reply: "aw_adopt W priv (adopt_name addr a) = Inr resp" "\<not> equal_fold wire (av_TlsFingerprint resp)"
  shows "\<exists>e f1. runAdopt L Y W dir addr a f = (Inl e, f1) \<and> content f1 (operatorKeyPath dir) = None \<and>
    fst (loadConfig L Y dir f1) = Inr cfg"
proof -
  let ?k = "operatorKeyPath dir"
  have rd: "lo_read L ?k f = (Inr k, f)" "lo_exists L ?k f" using ok key(1) by (simp_all add: local_ok_def)
  have ld: "loadConfig L Y dir f = (Inr cfg, f)" using cfg(1) by (simp add: loadConfig_content [OF ok])
  have rm: "content (lo_remove L ?k f) ?k = None" "changes_at content ?k f (lo_remove L ?k f)"
    using ok by (simp_all add: local_ok_def rename_ok_def)
  have "runAdopt L Y W dir addr a f = (Inl (Errorf ''tls fingerprint mismatch''), lo_remove L ?k f)"
    using t reply cfg(2) key(2) by (simp add: runAdopt_def enrol_def bind_action_def wrap_action_def lift_result_def ld operator_key_def
        loadPrivateKey_def rd adopt_call_def store_context_def)
  moreover have "content (lo_remove L ?k f) (configPath dir) = content f (configPath dir)" using rm(2) ne by (simp add: changes_at_def)
  ultimately show ?thesis using rm(1) cfg(1) by (simp add: loadConfig_content [OF ok])
qed

theorem mismatched_reply_deletes_operator_key_witness:
  "\<exists>e f1. runAdopt memory_local (one_yaml example_registry) (example_world\<lparr>aw_adopt := (\<lambda>_ _. Inr \<lparr>av_CapsuleId = [], av_TlsFingerprint = []\<rparr>)\<rparr>) ''/c''
      ''10.0.0.3:50000'' \<lparr>aa_capsule = [], aa_name = ''lab2'', aa_yes = True\<rparr>
      [(configPath ''/c'', ''yaml''), (operatorKeyPath ''/c'', ''pem'')] = (Inl e, f1) \<and>
    map_of f1 (operatorKeyPath ''/c'') = None \<and> fst (loadConfig memory_local (one_yaml example_registry) ''/c'' f1) = Inr example_registry"
proof -
  have n: "configPath ''/c'' \<noteq> operatorKeyPath ''/c''" by code_simp
  show ?thesis
    by (rule mismatched_reply_deletes_operator_key [OF memory_client_ok n, where wire = "''ab''" and k = "''pem''" and priv = "''k''"
        and resp = "\<lparr>av_CapsuleId = [], av_TlsFingerprint = []\<rparr>"])
      (use n in \<open>simp_all add: loadConfig_content [OF memory_client_ok] one_yaml_def example_registry_def adopt_name_def adopt_target_def
         confirmed_def example_world_def equal_fold_def\<close>)
qed

section \<open>The registry stays well-formed\<close>

text \<open>A registry whose current context, if any, exists.\<close>

definition wf_config :: "ctl_config \<Rightarrow> bool" where
  "wf_config c \<longleftrightarrow> cc_Current c = [] \<or> map_of (cc_Contexts c) (cc_Current c) \<noteq> None"

datatype ctl_command =
    CmdAdopt adopt_world string adopt_args
  | CmdUse string
  | CmdRemove string
  | CmdInstall "(string \<times> string) result" string string "unit result" "install_event list"

primrec run_command :: "'f local_ops \<Rightarrow> yaml \<Rightarrow> string \<Rightarrow> ctl_command \<Rightarrow> ('f, unit) action" where
  "run_command L Y dir (CmdAdopt W addr a) = runAdopt L Y W dir addr a"
| "run_command L Y dir (CmdUse name) = runContextUse L Y dir name"
| "run_command L Y dir (CmdRemove name) = runContextRemove L Y dir name"
| "run_command L Y dir (CmdInstall keygen name addr start events) = install_to_disk L Y dir keygen name addr start events"

text \<open>What a command may do to the registry file: leave it, or replace it by a well-formed registry.\<close>

definition registry_ok :: "('f \<Rightarrow> string \<Rightarrow> string option) \<Rightarrow> yaml \<Rightarrow> string \<Rightarrow> 'f \<Rightarrow> bool" where
  "registry_ok content Y dir f \<longleftrightarrow>
    (\<forall>b c. content f (configPath dir) = Some b \<longrightarrow> ym_unmarshal Y b = Inr c \<longrightarrow> wf_config c)"

text \<open>The files of the client.\<close>

definition client_files :: "string \<Rightarrow> string set" where
  "client_files dir = {configPath dir, operatorKeyPath dir} \<union> range (install_keyPath dir)"

lemma client_files_in [simp]:
  "configPath dir \<in> client_files dir" "operatorKeyPath dir \<in> client_files dir" "install_keyPath dir name \<in> client_files dir"
  by (simp_all add: client_files_def)

lemma last_configPath: "path_is_abs dir \<Longrightarrow> last (configPath dir) = CHR ''l''"
  unfolding configPath_def by (subst last_Join) (simp_all add: plain_elem_def)

lemma last_operatorKeyPath: "path_is_abs dir \<Longrightarrow> last (operatorKeyPath dir) = CHR ''9''"
  unfolding operatorKeyPath_def by (subst last_Join) (simp_all add: plain_elem_def)

lemma last_install_keyPath: "path_is_abs dir \<Longrightarrow> last (install_keyPath dir name) = CHR ''9''"
proof -
  assume d: "path_is_abs dir"
  have sp: "split_on CHR ''/'' (''keys/'' @ name @ ''.ed25519'') = ''keys'' # split_on CHR ''/'' (name @ ''.ed25519'')" by simp
  obtain us e where u: "split_on CHR ''/'' name = us @ [e]" by (metis append_butlast_last_id split_on_ne)
  have "split_on CHR ''/'' (name @ ''.ed25519'') = us @ [e @ ''.ed25519'']" using u by (rule split_on_extend) simp
  then have l: "last (split_on CHR ''/'' (''keys/'' @ name @ ''.ed25519'')) = e @ ''.ed25519''" unfolding sp by simp
  have "plain_elem (e @ ''.ed25519'')" unfolding plain_elem_def by (cases e; cases "tl e") auto
  then show ?thesis unfolding install_keyPath_def by (subst last_Join [OF d]) (simp_all only: l, simp)
qed

lemma registry_frame: "content g (configPath dir) = content f (configPath dir) \<Longrightarrow> registry_ok content Y dir f \<Longrightarrow> registry_ok content Y dir g"
  by (simp add: registry_ok_def)

lemma keeps_registry_load: "local_ok L content targets \<Longrightarrow> keeps (registry_ok content Y dir) (loadConfig L Y dir)"
  by (simp add: keeps_def loadConfig_content)

lemma keeps_registry_key:
  assumes ok: "local_ok L content targets" and k: "configPath dir \<in> targets" "k \<in> targets" and ne: "k \<noteq> configPath dir"
  shows "keeps (registry_ok content Y dir) (generatePrivateKey L keygen k)"
proof -
  have "leaves_files content (lo_mkdir_all L d)" for d using ok by (simp add: local_ok_def)
  then have "keeps (registry_ok content Y dir) (lo_mkdir_all L d)" for d by (simp add: keeps_def leaves_files_def registry_ok_def)
  moreover have "keeps (registry_ok content Y dir) (replace_file L ann rm d k b)" for ann rm d b
  proof -
    have "content (snd (replace_file L ann rm d k b f)) (configPath dir) = content f (configPath dir)" for f
      using replace_file_outcome [OF ok k(2,1), of ann rm d b f] ne by (metis prod.collapse)
    then show ?thesis by (simp add: keeps_def registry_ok_def)
  qed
  ultimately show ?thesis unfolding generatePrivateKey_def
    by (intro keeps_bind) (auto simp: keeps_def split: sum.splits prod.splits, (metis snd_conv)+)
qed

lemma Save_keeps_registry:
  assumes ok: "local_ok L content targets" "configPath dir \<in> targets" and Y: "yaml_ok Y" and c: "wf_config c"
  shows "keeps (registry_ok content Y dir) (config_Save L Y dir c)"
  unfolding keeps_def
proof (intro allI impI)
  fix f assume f: "registry_ok content Y dir f"
  obtain r f1 where s: "config_Save L Y dir c f = (r, f1)" by fastforce
  note o = Save_outcome [OF ok(1,2,2) s]
  show "registry_ok content Y dir (snd (config_Save L Y dir c f))"
  proof (cases "is_ok r")
    case True
    then obtain b where b: "ym_marshal Y c = Inr b" using o by (auto simp: is_ok_iff)
    then have "ym_unmarshal Y b = Inr c" using Y by (simp add: yaml_ok_def)
    then show ?thesis using o True b s c by (simp add: registry_ok_def)
  next
    case False
    then show ?thesis using o s f by (simp add: registry_ok_def)
  qed
qed

lemma keeps_registry_remove:
  assumes "local_ok L content targets" "k \<noteq> configPath dir" "registry_ok content Y dir f"
  shows "registry_ok content Y dir (lo_remove L k f)"
proof -
  have "changes_at content k f (lo_remove L k f)" using assms(1) by (simp add: local_ok_def rename_ok_def)
  then have "content (lo_remove L k f) (configPath dir) = content f (configPath dir)" using assms(2) by (simp add: changes_at_def)
  then show ?thesis using assms(3) by (rule registry_frame)
qed

lemma loaded_wf:
  assumes "local_ok L content targets" "registry_ok content Y dir f" "loadConfig L Y dir f = (Inr cfg, g)"
  shows "wf_config cfg \<and> g = f"
proof (cases "content f (configPath dir)")
  case None
  then have "cfg = \<lparr>cc_Current = [], cc_Contexts = []\<rparr>" using assms(3) by (simp add: loadConfig_content [OF assms(1)])
  then show ?thesis using assms(3) by (simp add: wf_config_def loadConfig_content [OF assms(1)])
next
  case (Some b)
  then have "ym_unmarshal Y b = Inr cfg" using assms(3) by (cases "ym_unmarshal Y b") (simp_all add: loadConfig_content [OF assms(1)])
  then show ?thesis using assms(2,3) Some unfolding registry_ok_def by (simp add: loadConfig_content [OF assms(1)])
qed

text \<open>A command that loads the registry and goes on with a well-formed one.\<close>

lemma keeps_registry_command:
  assumes "local_ok L content targets" "\<And>cfg. wf_config cfg \<Longrightarrow> keeps (registry_ok content Y dir) (k cfg)"
  shows "keeps (registry_ok content Y dir) (bind_action (loadConfig L Y dir) k)"
  unfolding keeps_def
proof (intro allI impI)
  fix f assume f: "registry_ok content Y dir f"
  obtain r g where l: "loadConfig L Y dir f = (r, g)" by fastforce
  have "g = f" using l by (simp add: loadConfig_content [OF assms(1)])
  then show "registry_ok content Y dir (snd (bind_action (loadConfig L Y dir) k f))"
    using f l loaded_wf [OF assms(1) f] assms(2) by (cases r) (simp_all add: bind_action_def keeps_def)
qed

lemma wf_updates:
  "wf_config \<lparr>cc_Current = n, cc_Contexts = AList.update n x cs\<rparr>"
  "map_of (cc_Contexts c) n \<noteq> None \<Longrightarrow> wf_config (c\<lparr>cc_Current := n\<rparr>)"
  "wf_config c \<Longrightarrow> wf_config \<lparr>cc_Current = (if cc_Current c = n then [] else cc_Current c), cc_Contexts = AList.delete n (cc_Contexts c)\<rparr>"
  by (auto simp: wf_config_def update_conv' delete_conv')

lemma keeps_registry_context:
  assumes "local_ok L content (client_files dir)" "yaml_ok Y"
  shows "keeps (registry_ok content Y dir) (runContextUse L Y dir name)" "keeps (registry_ok content Y dir) (runContextRemove L Y dir name)"
proof -
  note save = Save_keeps_registry [OF assms(1) _ assms(2), simplified]
  show "keeps (registry_ok content Y dir) (runContextUse L Y dir name)" unfolding runContextUse_def
  proof (rule keeps_registry_command [OF assms(1)])
    fix cfg
    show "keeps (registry_ok content Y dir) (if map_of (cc_Contexts cfg) name = None then lift_result (Inl (Errorf ''no such context''))
        else config_Save L Y dir (cfg\<lparr>cc_Current := name\<rparr>))"
      by (cases "map_of (cc_Contexts cfg) name = None") (simp_all add: keeps_rules save wf_updates)
  qed
  show "keeps (registry_ok content Y dir) (runContextRemove L Y dir name)" unfolding runContextRemove_def
    by (intro keeps_registry_command [OF assms(1)] keeps_rules save wf_updates(3) client_files_in)
qed

lemma keeps_registry_install:
  assumes dir: "path_is_abs dir" and ok: "local_ok L content (client_files dir)" and Y: "yaml_ok Y"
  shows "keeps (registry_ok content Y dir) (install_to_disk L Y dir keygen name addr start events)"
proof -
  let ?P = "registry_ok content Y dir" and ?k = "install_keyPath dir name"
  have ne: "?k \<noteq> configPath dir" using last_install_keyPath [OF dir, of name] last_configPath [OF dir] by auto
  have rm: "?P f \<Longrightarrow> ?P (lo_remove L ?k f)" for f by (rule keeps_registry_remove [OF ok ne])
  have save: "keeps ?P (wrap_action m (config_Save L Y dir \<lparr>cc_Current = name, cc_Contexts = AList.update name x cs\<rparr>))" for m x cs
    by (intro keeps_rules Save_keeps_registry [OF ok _ Y] wf_updates) simp
  have s: "keeps ?P (install_stream L Y dir cfg name addr ?k start events)" for cfg
    unfolding keeps_def install_stream_def using rm save by (auto simp: keeps_def split: sum.splits option.splits)
  show ?thesis unfolding install_to_disk_def
    by (intro keeps_registry_command [OF ok] keeps_rules keeps_registry_key [OF ok _ _ ne] s client_files_in)
qed

lemma keeps_registry_adopt:
  assumes dir: "path_is_abs dir" and ok: "local_ok L content (client_files dir)" and Y: "yaml_ok Y"
  shows "keeps (registry_ok content Y dir) (runAdopt L Y W dir addr a)"
proof -
  let ?P = "registry_ok content Y dir" and ?k = "operatorKeyPath dir"
  have ne: "?k \<noteq> configPath dir" using last_operatorKeyPath [OF dir] last_configPath [OF dir] by auto
  have pub: "?k @ ''.pub'' \<noteq> configPath dir"
  proof
    assume "?k @ ''.pub'' = configPath dir"
    from arg_cong [OF this, of last] show False by (simp add: last_configPath [OF dir])
  qed
  have rm: "?P f \<Longrightarrow> ?P (lo_remove L ?k f)" for f by (rule keeps_registry_remove [OF ok ne])
  have wr: "?P f \<Longrightarrow> ?P (snd (lo_write L (?k @ ''.pub'') b f))" for b f
  proof -
    have "changes_at content (?k @ ''.pub'') f (snd (lo_write L (?k @ ''.pub'') b f))" using ok by (simp add: local_ok_def temp_ok_def)
    then have "content (snd (lo_write L (?k @ ''.pub'') b f)) (configPath dir) = content f (configPath dir)" using pub by (simp add: changes_at_def)
    then show "?P f \<Longrightarrow> ?thesis" by (rule registry_frame)
  qed
  have save: "keeps ?P (wrap_action m (config_Save L Y dir \<lparr>cc_Current = n, cc_Contexts = AList.update n x cs\<rparr>))" for m n x cs
    by (intro keeps_rules Save_keeps_registry [OF ok _ Y] wf_updates) simp
  have st: "keeps ?P (store_context L Y dir cfg n t wire resp)" for cfg n t wire resp
    unfolding keeps_def store_context_def using rm keepsD [OF save] by simp
  have call: "keeps ?P (adopt_call L W ?k priv n)" for priv n
    unfolding keeps_def adopt_call_def using wr by (cases "aw_adopt W priv n") simp_all
  have rd: "lo_read L p f = (case content f p of None \<Rightarrow> Inl local_ErrNotExist | Some b \<Rightarrow> Inr b, f)" for p f
    using ok by (simp add: local_ok_def)
  have load: "snd (loadPrivateKey L (aw_parse W) ?k f) = f" for f
    by (cases "content f ?k") (simp_all add: loadPrivateKey_def rd)
  have key: "keeps ?P (operator_key L W ?k)"
    unfolding keeps_def operator_key_def using keepsD [OF keeps_registry_key [OF ok _ _ ne, simplified, of Y "aw_keygen W"]] load by simp
  have e: "keeps ?P (enrol L Y W dir a cfg n t)" for cfg n t
    unfolding enrol_def by (intro keeps_rules key call st)
  show ?thesis unfolding runAdopt_def
    by (intro keeps_if keeps_registry_command [OF ok] keeps_rules e)
qed

text \<open>C25: over any sequence of enrolments, installations and changes of contexts, whether they succeed or not, the registry stays
  well-formed: the current context is empty or one of its contexts.\<close>

theorem registry_stays_well_formed:
  assumes "path_is_abs dir" "local_ok L content (client_files dir)" "yaml_ok Y" "fst (loadConfig L Y dir f) = Inr c0" "wf_config c0"
    and "loadConfig L Y dir (fold (\<lambda>cmd g. snd (run_command L Y dir cmd g)) cmds f) = (Inr c, g)"
  shows "wf_config c"
proof -
  have start: "registry_ok content Y dir f"
    using assms(4,5) by (auto simp: registry_ok_def loadConfig_content [OF assms(2)])
  have step: "keeps (registry_ok content Y dir) (run_command L Y dir cmd)" for cmd
    using keeps_registry_adopt [OF assms(1-3)] keeps_registry_install [OF assms(1-3)] keeps_registry_context [OF assms(2,3)] by (cases cmd) simp_all
  have "registry_ok content Y dir (fold (\<lambda>cmd g. snd (run_command L Y dir cmd g)) cmds f)"
    using start by (induction cmds arbitrary: f) (simp_all add: keepsD [OF step])
  from loaded_wf [OF assms(2) this assms(6)] show ?thesis by simp
qed

lemma memory_files_ok: "local_ok memory_local map_of (client_files ''/c'')"
proof (rule memory_local_ok, rule notI)
  have d: "path_is_abs ''/c''" by (simp add: path_is_abs_def)
  have "last p \<in> {CHR ''l'', CHR ''9''}" if "p \<in> client_files ''/c''" for p
    using that last_configPath [OF d] last_operatorKeyPath [OF d] last_install_keyPath [OF d] unfolding client_files_def by auto
  moreover assume "''/.tmp'' \<in> client_files ''/c''"
  ultimately have "last ''/.tmp'' \<in> {CHR ''l'', CHR ''9''}" .
  then show False by simp
qed

theorem registry_stays_well_formed_witness:
  "\<exists>c. fst (loadConfig memory_local (one_yaml example_registry) ''/c''
     (fold (\<lambda>cmd g. snd (run_command memory_local (one_yaml example_registry) ''/c'' cmd g))
        [CmdAdopt example_world [] example_args, CmdUse ''10.0.0.2''] [])) = Inr c \<and> wf_config c"
proof -
  let ?g = "fold (\<lambda>cmd g. snd (run_command memory_local (one_yaml example_registry) ''/c'' cmd g))
        [CmdAdopt example_world [] example_args, CmdUse ''10.0.0.2''] []"
  let ?l = "loadConfig memory_local (one_yaml example_registry) ''/c'' ?g"
  have e: "fst ?l = Inr example_registry" by code_simp
  have s: "fst (loadConfig memory_local (one_yaml example_registry) ''/c'' []) = Inr \<lparr>cc_Current = [], cc_Contexts = []\<rparr>"
    by (simp add: loadConfig_content [OF memory_files_ok])
  have "?l = (Inr example_registry, snd ?l)" using e by (metis prod.collapse)
  from registry_stays_well_formed [OF _ memory_files_ok one_yaml_ok s _ this] have "wf_config example_registry"
    by (simp add: path_is_abs_def wf_config_def)
  with e show ?thesis by (intro exI conjI)
qed

section \<open>Keys of installed capsules\<close>

lemma recv_install_broken:
  "\<forall>e\<in>set es. \<exists>r. e = InstallProgress r \<Longrightarrow> recv_install r0 (es @ InstallBroken e # rest) = Inl (Wrap ''install stream'' e)"
  by (induction es arbitrary: r0) auto

text \<open>C40: an installation whose stream breaks loses the operator's key, even after the installer reported its result: the
  private key that was sealed into the new disk is deleted, and no context is stored.\<close>

theorem broken_stream_discards_sealed_key:
  assumes ok: "local_ok L content (client_files dir)" and dir: "path_is_abs dir"
    and es: "\<forall>e\<in>set es. \<exists>r. e = InstallProgress r" "InstallProgress (Some r) \<in> set es"
    and run: "install_stream L Y dir cfg name addr (install_keyPath dir name) (Inr ()) (es @ [InstallBroken e]) f = (res, f1)"
  shows "res = Inl (Wrap ''install stream'' e) \<and> content f1 (install_keyPath dir name) = None \<and>
    content f1 (configPath dir) = content f (configPath dir)"
proof -
  let ?k = "install_keyPath dir name"
  have ne: "?k \<noteq> configPath dir" using last_install_keyPath [OF dir, of name] last_configPath [OF dir] by auto
  have "content (lo_remove L ?k f) ?k = None" "changes_at content ?k f (lo_remove L ?k f)"
    using ok by (simp_all add: local_ok_def rename_ok_def)
  moreover have "res = Inl (Wrap ''install stream'' e)" "f1 = lo_remove L ?k f"
    using run recv_install_broken [OF es(1), of None e "[]"] by (simp_all add: install_stream_def)
  ultimately show ?thesis using ne by (auto simp: changes_at_def)
qed

theorem broken_stream_discards_sealed_key_witness:
  "\<exists>f1. install_stream memory_local (one_yaml example_registry) ''/c'' \<lparr>cc_Current = [], cc_Contexts = []\<rparr> ''nuc'' ''10.0.0.2:50000''
      (install_keyPath ''/c'' ''nuc'') (Inr ()) ([InstallProgress (Some \<lparr>ir_CapsuleId = ''id'', ir_TlsFingerprint = ''ab''\<rparr>)] @ [InstallBroken (Errorf ''reset'')])
      [(install_keyPath ''/c'' ''nuc'', ''pem'')] = (Inl (Wrap ''install stream'' (Errorf ''reset'')), f1) \<and>
    map_of f1 (install_keyPath ''/c'' ''nuc'') = None"
proof -
  let ?es = "[InstallProgress (Some \<lparr>ir_CapsuleId = ''id'', ir_TlsFingerprint = ''ab''\<rparr>)]"
  let ?run = "install_stream memory_local (one_yaml example_registry) ''/c'' \<lparr>cc_Current = [], cc_Contexts = []\<rparr> ''nuc'' ''10.0.0.2:50000''
      (install_keyPath ''/c'' ''nuc'') (Inr ()) (?es @ [InstallBroken (Errorf ''reset'')]) [(install_keyPath ''/c'' ''nuc'', ''pem'')]"
  obtain res f1 where r: "?run = (res, f1)" by (meson surj_pair)
  have "path_is_abs ''/c''" by (simp add: path_is_abs_def)
  from broken_stream_discards_sealed_key [OF memory_files_ok this _ _ r, of "\<lparr>ir_CapsuleId = ''id'', ir_TlsFingerprint = ''ab''\<rparr>"]
  have "res = Inl (Wrap ''install stream'' (Errorf ''reset'')) \<and> map_of f1 (install_keyPath ''/c'' ''nuc'') = None" by simp
  with r show ?thesis by blast
qed

section \<open>Sizes\<close>

lemma digit_facts:
  assumes "c \<in> set (itoa n)"
  shows "is_digit c" "\<not> is_space c"
proof -
  have d: "digit_val c \<noteq> None" using itoa_digits [OF assms] .
  then show "is_digit c" by (simp add: is_digit_def)
  from d show "\<not> is_space c" by (auto simp: digit_val_def is_space_def Let_def split: if_splits)
qed

text \<open>a size in GiB is multiplied without a check: the result is the number of MiB modulo 2 to the 64, exact below 2 to the 54.\<close>

theorem parseSize_GiB_wraps:
  assumes "n < 2 ^ 64"
  shows "\<exists>w. parseSize (itoa n @ ''GiB'') = Inr w \<and> unat w = n * 1024 mod 2 ^ 64"
proof -
  let ?s = "itoa n @ ''GiB''"
  obtain c t where h: "itoa n = c # t" by (meson itoa_ne neq_Nil_conv)
  have sp: "\<not> is_space c" using digit_facts(2) [of c n] h by simp
  have trim: "trim_space ?s = ?s" 
  proof -
    have "\<not> is_space (CHR ''B'')" by (simp add: is_space_def)
    then show ?thesis using sp h by (simp add: trim_space_def)
  qed
  have last: "is_digit (last (itoa n))" by (rule digit_facts(1) [of _ n]) simp
  obtain u d where r: "rev (itoa n) = d # u" by (metis h rev_is_Nil_conv neq_Nil_conv list.discI)
  have d: "is_digit d" using last r by (metis last_rev list.sel(1) rev_rev_ident hd_rev)
  have b: "\<not> is_digit (CHR ''G'')" "\<not> is_digit (CHR ''i'')" "\<not> is_digit (CHR ''B'')" by (simp_all add: is_digit_def digit_val_def)
  have unit: "rev (takeWhile (\<lambda>c. \<not> is_digit c) (rev ?s)) = ''GiB''" using d b r by simp
  have num: "rev (dropWhile (\<lambda>c. \<not> is_digit c) (rev ?s)) = itoa n"
  proof -
    have "rev (dropWhile (\<lambda>c. \<not> is_digit c) (rev ?s)) = rev (d # u)" using d b r by simp
    then show ?thesis by (simp only: r [symmetric] rev_rev_ident)
  qed
  have tn: "trim_space (itoa n) = itoa n" using digit_facts(2) by (intro trim_space_id) blast
  have tu: "map to_lower (trim_space ''GiB'') = ''gib''" by code_simp
  have "parseSize ?s = Inr (word_of_nat n * 1024)"
    unfolding parseSize_def trim Let_def unit num tn tu using assms by (simp add: parse_uint_itoa)
  moreover have "unat (word_of_nat n * 1024 :: 64 word) = n * 1024 mod 2 ^ 64"
  proof -
    have "word_of_nat n * 1024 = (word_of_nat (n * 1024) :: 64 word)" by simp
    then show ?thesis by (simp only: unsigned_of_nat take_bit_eq_mod len_of_numeral_defs) simp
  qed
  ultimately show ?thesis by blast
qed

theorem parseSize_GiB_wraps_witness: "\<exists>w. parseSize (itoa (2 ^ 54) @ ''GiB'') = Inr w \<and> unat w = 0"
  using parseSize_GiB_wraps [of "2 ^ 54"] by simp

end
