(* ===== verification/Capsule_Tls.thy ===== *)
theory Capsule_Tls
  imports Capsule_Path Capsule_Files
begin

text \<open>
  The TLS material of a capsule, \<^verbatim>\<open>src/auth/tls.go\<close>: it is loaded, or generated and stored at the first start. Clients pin the fingerprint of the
  certificate, so it must stay the same over restarts. Key generation and the X.509 library are parameters.
\<close>

text \<open>\<open>pair\<close> parses a certificate and its key, with an error when they do not belong together.\<close>

definition LoadX509KeyPair :: "'f local_ops \<Rightarrow> (string \<Rightarrow> string \<Rightarrow> 'c result) \<Rightarrow> string \<Rightarrow> string \<Rightarrow> ('f, 'c) action" where
  "LoadX509KeyPair L pair certPath keyPath =
    bind_action (lo_read L certPath) (\<lambda>c. bind_action (lo_read L keyPath) (\<lambda>k. lift_result (pair c k)))"

definition writeAtomic :: "'f local_ops \<Rightarrow> string \<Rightarrow> string \<Rightarrow> ('f, unit) action" where
  "writeAtomic L path data = replace_file L (\<lambda>step e. Wrap (''auth: '' @ step) e) True (go_path_Dir path) path data"

text \<open>\<open>gen\<close> is a fresh certificate and key in PEM form.\<close>

definition tls_generate ::
  "'f local_ops \<Rightarrow> (string \<Rightarrow> string \<Rightarrow> 'c result) \<Rightarrow> (string \<times> string) result \<Rightarrow> string \<Rightarrow> string \<Rightarrow> ('f, 'c) action" where
  "tls_generate L pair gen certPath keyPath =
    bind_action (lift_result gen) (\<lambda>(certPEM, keyPEM).
    bind_action (writeAtomic L certPath certPEM) (\<lambda>_.
    bind_action (writeAtomic L keyPath keyPEM) (\<lambda>_.
    wrap_action ''auth: parse fresh keypair'' (lift_result (pair certPEM keyPEM)))))"

definition LoadOrGenerate ::
  "'f local_ops \<Rightarrow> (string \<Rightarrow> string \<Rightarrow> 'c result) \<Rightarrow> (string \<times> string) result \<Rightarrow> string \<Rightarrow> string \<Rightarrow> ('f, 'c) action" where
  "LoadOrGenerate L pair gen certPath keyPath f =
    (case LoadX509KeyPair L pair certPath keyPath f of
       (Inr cert, f1) \<Rightarrow> (Inr cert, f1)
     | (Inl e, f1) \<Rightarrow>
        if \<not> errors_is e local_ErrNotExist \<and> lo_exists L certPath f1 then (Inl (Wrap ''auth: load cert'' e), f1)
        else tls_generate L pair gen certPath keyPath f1)"

definition LeafFingerprint :: "(string \<Rightarrow> string) \<Rightarrow> string list \<Rightarrow> string result" where
  "LeafFingerprint sha256_hex chain =
    (case chain of [] \<Rightarrow> Inl (Errorf ''auth: empty certificate chain'') | der # _ \<Rightarrow> Inr (sha256_hex der))"

section \<open>The identity is stable\<close>

lemma Load_content:
  assumes "local_ok L content targets"
  shows "LoadX509KeyPair L pair certPath keyPath f =
    (case content f certPath of None \<Rightarrow> Inl local_ErrNotExist
     | Some c \<Rightarrow> (case content f keyPath of None \<Rightarrow> Inl local_ErrNotExist | Some k \<Rightarrow> pair c k), f)"
proof -
  have "lo_read L p f = (case content f p of None \<Rightarrow> Inl local_ErrNotExist | Some b \<Rightarrow> Inr b, f)" for p
    using assms by (simp add: local_ok_def)
  then show ?thesis by (simp add: LoadX509KeyPair_def bind_action_def lift_result_def split: option.splits)
qed

lemma generate_stores:
  assumes ok: "local_ok L content {certPath, keyPath}" and ne: "certPath \<noteq> keyPath"
    and run: "tls_generate L pair gen certPath keyPath f = (Inr cert, f1)"
  shows "LoadX509KeyPair L pair certPath keyPath f1 = (Inr cert, f1)"
proof -
  obtain c k g where w: "writeAtomic L certPath c f = (Inr (), g)" "writeAtomic L keyPath k g = (Inr (), f1)" and p: "pair c k = Inr cert"
    using run unfolding tls_generate_def by (elim bind_ok) (auto simp: lift_ok wrap_ok elim!: bind_ok)
  have "content g certPath = Some c" using replace_file_outcome [OF ok _ _ w(1) [unfolded writeAtomic_def], of certPath] by simp
  then have "content f1 certPath = Some c"
    using replace_file_outcome [OF ok _ _ w(2) [unfolded writeAtomic_def], of certPath] ne by simp
  moreover have "content f1 keyPath = Some k" using replace_file_outcome [OF ok _ _ w(2) [unfolded writeAtomic_def], of keyPath] by simp
  ultimately show ?thesis using p by (simp add: Load_content [OF ok])
qed

text \<open>C27: the TLS identity of a capsule is stable: once the material was loaded or generated, every later start loads the same
  certificate and writes nothing, whatever the generator would produce then.\<close>

theorem tls_identity_is_stable:
  assumes "local_ok L content {certPath, keyPath}" "certPath \<noteq> keyPath" "LoadOrGenerate L pair gen certPath keyPath f = (Inr cert, f1)"
  shows "LoadOrGenerate L pair gen' certPath keyPath f1 = (Inr cert, f1)"
proof -
  have "LoadX509KeyPair L pair certPath keyPath f1 = (Inr cert, f1)"
  proof (cases "fst (LoadX509KeyPair L pair certPath keyPath f)")
    case (Inr c)
    then have "LoadX509KeyPair L pair certPath keyPath f = (Inr c, f)" by (simp add: Load_content [OF assms(1)])
    then show ?thesis using assms(3) by (simp add: LoadOrGenerate_def)
  next
    case (Inl e)
    then have "LoadX509KeyPair L pair certPath keyPath f = (Inl e, f)" by (simp add: Load_content [OF assms(1)])
    then have "tls_generate L pair gen certPath keyPath f = (Inr cert, f1)"
      using assms(3) by (simp add: LoadOrGenerate_def split: if_splits)
    then show ?thesis by (rule generate_stores [OF assms(1,2)])
  qed
  then show ?thesis by (simp add: LoadOrGenerate_def)
qed

theorem tls_identity_is_stable_witness:
  "\<exists>f1. LoadOrGenerate memory_local (\<lambda>c k. Inr (c, k)) (Inr (''cert2'', ''key2'')) ''/cert.pem'' ''/key.pem'' f1 = (Inr (''cert'', ''key''), f1)"
proof -
  let ?run = "LoadOrGenerate memory_local (\<lambda>c k. Inr (c, k)) (Inr (''cert'', ''key'')) ''/cert.pem'' ''/key.pem'' []"
  have "local_ok memory_local map_of {''/cert.pem'', ''/key.pem''}" by (rule memory_local_ok) simp
  moreover have "fst ?run = Inr (''cert'', ''key'')" by code_simp
  then have "?run = (Inr (''cert'', ''key''), snd ?run)" by (metis prod.collapse)
  ultimately have "LoadOrGenerate memory_local (\<lambda>c k. Inr (c, k)) (Inr (''cert2'', ''key2'')) ''/cert.pem'' ''/key.pem'' (snd ?run) =
      (Inr (''cert'', ''key''), snd ?run)"
    by (intro tls_identity_is_stable [where content = map_of]) simp_all
  then show ?thesis by (rule exI)
qed

end
