(* ===== verification/Capsule_Update.thy ===== *)
theory Capsule_Update
  imports Capsule_Store_Memory Capsule_Store_Sqlite
begin

text \<open>
  A/B operating system updates, \<^verbatim>\<open>src/core/update/service.go\<close>: receiving a bundle,
  flipping the boot loader's default, the startup reconciliation, the rollback
  deadline and the confirmation.

  The state is the persistent record, the files and block devices by path
  (\<open>None\<close> when absent), the armed timer and whether a reboot was requested.
  The environment record holds what the code obtains from outside: partition
  discovery, device sizes, failures of writes and mounts, the tar reader, the
  digest, the reboot call and the clock. A write fails when the target is opened,
  or after some of the bytes were written.
\<close>

section \<open>State and environment\<close>

definition ErrNoPending :: go_error where
  "ErrNoPending = Sentinel ''update: no pending slot''"

definition ErrSlotMismatch :: go_error where
  "ErrSlotMismatch = Sentinel ''update: active slot does not match pending slot''"

definition ErrChecksumMismatch :: go_error where
  "ErrChecksumMismatch = Sentinel ''update: bundle sha256 mismatch''"

definition ErrBundleTooLarge :: go_error where
  "ErrBundleTooLarge = Sentinel ''update: bundle too large for slot''"

definition DefaultDeadline :: int where "DefaultDeadline = 600"

text \<open>What the tar reader yields: a whole member, a member whose content breaks off
  with an error after a prefix, or a broken header.\<close>

datatype tar_item =
    Member string int string
  | MemberErr string int string go_error
  | NextErr go_error

datatype write_fault = OpenFails go_error | WriteFails nat go_error

record update_env =
  ue_find :: "nat \<Rightarrow> string result"
  ue_size :: "string \<Rightarrow> int result"
  ue_stage :: "go_error option"
  ue_write :: "string \<Rightarrow> write_fault option"
  ue_mkdir :: "go_error option"
  ue_proc_mounts :: "string result"
  ue_mount :: "go_error option"
  ue_reboot :: "go_error option"
  ue_untar :: "string \<Rightarrow> go_error option \<Rightarrow> tar_item list"
  ue_sha256_hex :: "string \<Rightarrow> string"
  ue_now :: int

record 's update_state =
  us_store :: 's
  us_files :: "string \<Rightarrow> string option"
  us_timer :: bool
  us_rebooting :: bool

record 's update_service =
  up_State :: "'s os_state_store"
  up_ActiveSlot :: string
  up_StagingDir :: string
  up_BootMount :: string

definition update_New :: "'s os_state_store \<Rightarrow> string \<Rightarrow> 's update_service" where
  "update_New s activeSlot = \<lparr>up_State = s, up_ActiveSlot = activeSlot,
     up_StagingDir = ''/perm/updates'', up_BootMount = ''/run/capsule/boot-mount''\<rparr>"

definition on_state :: "('s, 'a) action \<Rightarrow> ('s update_state, 'a) action" where
  "on_state f st = (case f (us_store st) of (x, s) \<Rightarrow> (x, st\<lparr>us_store := s\<rparr>))"

text \<open>Paths are joined with a slash.\<close>

definition path_join :: "string \<Rightarrow> string \<Rightarrow> string" where
  "path_join d f = d @ ''/'' @ f"

definition Reboot :: "update_env \<Rightarrow> ('s update_state, unit) action" where
  "Reboot E st =
    (case ue_reboot E of
       Some e \<Rightarrow> (Inl e, st)
     | None \<Rightarrow> (Inr (), st\<lparr>us_rebooting := True\<rparr>))"

section \<open>Slots\<close>

definition otherSlot :: "string \<Rightarrow> string" where
  "otherSlot s = (if s = ''slot_a'' then ''slot_b'' else ''slot_a'')"

definition slotPartitionNumber :: "string \<Rightarrow> nat" where
  "slotPartitionNumber s = (if s = ''slot_a'' then 2 else 3)"

definition slotLetter :: "string \<Rightarrow> string" where
  "slotLetter s = (if s = ''slot_a'' then ''a'' else ''b'')"

definition slotIndex :: "string \<Rightarrow> nat result" where
  "slotIndex s =
    (if s = ''slot_a'' then Inr 0 else if s = ''slot_b'' then Inr 1 else Inl (Errorf ''unknown slot''))"

definition is_slot :: "string \<Rightarrow> bool" where
  "is_slot s \<longleftrightarrow> s = ''slot_a'' \<or> s = ''slot_b''"

section \<open>Files\<close>

text \<open>Creating a file truncates it; writing to a device overwrites a prefix. The last
  argument is what breaks off the source the bytes are read from, if anything.\<close>

definition put_file :: "string \<Rightarrow> string \<Rightarrow> 's update_state \<Rightarrow> 's update_state" where
  "put_file path content st = st\<lparr>us_files := (us_files st)(path \<mapsto> content)\<rparr>"

definition writeFile ::
  "update_env \<Rightarrow> string \<Rightarrow> string \<Rightarrow> go_error option \<Rightarrow> ('s update_state, unit) action" where
  "writeFile E path content rerr st =
    (case ue_write E path of
       Some (OpenFails e) \<Rightarrow> (Inl e, st)
     | Some (WriteFails n e) \<Rightarrow> (Inl e, put_file path (take n content) st)
     | None \<Rightarrow>
        (case rerr of
           Some e \<Rightarrow> (Inl e, put_file path content st)
         | None \<Rightarrow> (Inr (), put_file path content st)))"

definition device_content :: "string option \<Rightarrow> string \<Rightarrow> string" where
  "device_content old new = new @ drop (length new) (case old of None \<Rightarrow> [] | Some c \<Rightarrow> c)"

definition writeBlockDevice ::
  "update_env \<Rightarrow> string \<Rightarrow> string \<Rightarrow> go_error option \<Rightarrow> ('s update_state, unit) action" where
  "writeBlockDevice E dev content rerr st =
    (let over = (\<lambda>c. put_file dev (device_content (us_files st dev) c) st)
     in case ue_write E dev of
          Some (OpenFails e) \<Rightarrow> (Inl e, st)
        | Some (WriteFails n e) \<Rightarrow> (Inl e, over (take n content))
        | None \<Rightarrow>
           (case rerr of
              Some e \<Rightarrow> (Inl e, over content)
            | None \<Rightarrow> (Inr (), over content)))"

definition fileSHA256 :: "update_env \<Rightarrow> 's update_state \<Rightarrow> string \<Rightarrow> string result" where
  "fileSHA256 E st path =
    (case us_files st path of
       None \<Rightarrow> Inl (Sentinel ''file does not exist'')
     | Some c \<Rightarrow> Inr (ue_sha256_hex E c))"

definition copyIfChanged :: "update_env \<Rightarrow> string \<Rightarrow> string \<Rightarrow> ('s update_state, unit) action" where
  "copyIfChanged E src dst st =
    (case us_files st src of
       None \<Rightarrow> (Inl (Wrap ''hash src'' (Sentinel ''file does not exist'')), st)
     | Some c \<Rightarrow>
         if fileSHA256 E st dst = fileSHA256 E st src then (Inr (), st)
         else writeFile E dst c None st)"

definition is_default_line :: "string \<Rightarrow> bool" where
  "is_default_line ln \<longleftrightarrow> has_prefix (trim_space ln) ''set default=''"

fun replace_default :: "string \<Rightarrow> string list \<Rightarrow> string list option" where
  "replace_default new [] = None"
| "replace_default new (ln # rest) =
    (if is_default_line ln then Some (new # rest)
     else map_option (\<lambda>ls. ln # ls) (replace_default new rest))"

definition rewriteGrubDefault :: "update_env \<Rightarrow> string \<Rightarrow> string \<Rightarrow> ('s update_state, unit) action" where
  "rewriteGrubDefault E path slot st =
    (case slotIndex slot of
       Inl e \<Rightarrow> (Inl e, st)
     | Inr idx \<Rightarrow>
        (case us_files st path of
           None \<Rightarrow> (Inl (Wrap ''read grub.cfg'' (Sentinel ''file does not exist'')), st)
         | Some text \<Rightarrow>
            (case replace_default (''set default='' @ itoa idx) (split_on CHR 0x0A text) of
               None \<Rightarrow> (Inl (Errorf ''no `set default=` line''), st)
             | Some lines \<Rightarrow> writeFile E path (join_with CHR 0x0A lines) None st)))"

definition isMounted :: "string result \<Rightarrow> string \<Rightarrow> bool result" where
  "isMounted proc_mounts path =
    (case proc_mounts of
       Inl e \<Rightarrow> Inl e
     | Inr text \<Rightarrow>
        Inr (list_ex (\<lambda>line. case str_fields line of _ # f # _ \<Rightarrow> f = path | _ \<Rightarrow> False)
               (split_on CHR 0x0A text)))"

text \<open>Mounting makes the boot partition's files visible below the mount point. An
  unreadable mount table counts as not mounted, and a failed unmount is only
  logged.\<close>

definition withBootMount ::
  "update_env \<Rightarrow> 's update_service \<Rightarrow> ('s update_state, unit) action \<Rightarrow> ('s update_state, unit) action"
where
  "withBootMount E u fn st =
    (case ue_mkdir E of
       Some e \<Rightarrow> (Inl (Wrap ''mkdir boot mount'' e), st)
     | None \<Rightarrow>
        if isMounted (ue_proc_mounts E) (up_BootMount u) = Inr True then fn st
        else (case ue_mount E of
                Some e \<Rightarrow> (Inl (Wrap ''mount'' e), st)
              | None \<Rightarrow> fn st))"

definition grub_cfg :: "'s update_service \<Rightarrow> string" where
  "grub_cfg u = path_join (up_BootMount u) ''EFI/BOOT/grub.cfg''"

definition rollbackToLastGood ::
  "update_env \<Rightarrow> 's update_service \<Rightarrow> string \<Rightarrow> ('s update_state, unit) action" where
  "rollbackToLastGood E u lastGood st =
    (case ue_find E 1 of
       Inl e \<Rightarrow> (Inl (Wrap ''find boot partition'' e), st)
     | Inr bootPart \<Rightarrow> withBootMount E u (rewriteGrubDefault E (grub_cfg u) lastGood) st)"

section \<open>Operations\<close>

definition seed_state :: "string \<Rightarrow> os_state" where
  "seed_state slot = \<lparr>ActiveSlot = slot, PendingSlot = [], PendingDeadlineUnix = 0,
     LastGoodSlot = slot, LastVersion = [], UpdatedAtUnix = 0\<rparr>"

text \<open>A rollback rewrites the boot default and reboots; a failed rewrite is only logged.\<close>

definition rollback_and_reboot ::
  "update_env \<Rightarrow> 's update_service \<Rightarrow> string \<Rightarrow> ('s update_state, unit) action" where
  "rollback_and_reboot E u lastGood st = Reboot E (snd (rollbackToLastGood E u lastGood st))"

definition OnStartup :: "update_env \<Rightarrow> 's update_service \<Rightarrow> ('s update_state, unit) action" where
  "OnStartup E u st0 =
    (if up_ActiveSlot u = [] then (Inr (), st0)
     else case on_state (os_Get (up_State u)) st0 of
       (Inl e, st1) \<Rightarrow>
         if errors_is e ErrNotFound then
           (case on_state (os_Put (up_State u) (seed_state (up_ActiveSlot u))) st1 of
              (Inl e, st2) \<Rightarrow> (Inl (Wrap ''seed os_state'' e), st2)
            | (Inr _, st2) \<Rightarrow> (Inr (), st2))
         else (Inl (Wrap ''read os_state'' e), st1)
     | (Inr row, st1) \<Rightarrow>
         let st = row\<lparr>ActiveSlot := up_ActiveSlot u\<rparr> in
         if PendingSlot st = [] then on_state (os_Put (up_State u) st) st1
         else if PendingSlot st \<noteq> up_ActiveSlot u then
           on_state (os_Put (up_State u) (st\<lparr>PendingSlot := [], PendingDeadlineUnix := 0\<rparr>)) st1
         else
           (case on_state (os_Put (up_State u) st) st1 of
              (Inl e, st2) \<Rightarrow> (Inl e, st2)
            | (Inr _, st2) \<Rightarrow>
                if PendingDeadlineUnix st = 0 \<or> ue_now E \<ge> PendingDeadlineUnix st
                then rollback_and_reboot E u (LastGoodSlot st) st2
                else (Inr (), st2\<lparr>us_timer := True\<rparr>)))"

text \<open>The callback that the armed timer runs at the deadline.\<close>

definition deadline_expired :: "update_env \<Rightarrow> 's update_service \<Rightarrow> 's update_state \<Rightarrow> 's update_state" where
  "deadline_expired E u st0 =
    (case on_state (os_Get (up_State u)) (st0\<lparr>us_timer := False\<rparr>) of
       (Inl e, st1) \<Rightarrow> st1
     | (Inr cur, st1) \<Rightarrow>
         if PendingSlot cur = [] then st1
         else snd (rollback_and_reboot E u (LastGoodSlot cur) st1))"

definition Confirm :: "'s update_service \<Rightarrow> ('s update_state, string \<times> string) action" where
  "Confirm u st0 =
    (case on_state (os_Get (up_State u)) st0 of
       (Inl e, st1) \<Rightarrow> (Inl (Wrap ''read os_state'' e), st1)
     | (Inr st, st1) \<Rightarrow>
         if PendingSlot st = [] then (Inl ErrNoPending, st1)
         else if PendingSlot st \<noteq> up_ActiveSlot u then (Inl ErrSlotMismatch, st1)
         else
           (case on_state (os_Put (up_State u)
                   (st\<lparr>PendingSlot := [], PendingDeadlineUnix := 0, LastGoodSlot := ActiveSlot st\<rparr>))
                   (st1\<lparr>us_timer := False\<rparr>) of
              (Inl e, st2) \<Rightarrow> (Inl (Wrap ''write os_state'' e), st2)
            | (Inr _, st2) \<Rightarrow> (Inr (ActiveSlot st, LastVersion st), st2)))"

subsection \<open>Receiving a bundle\<close>

record bundle_paths =
  bp_version :: string
  bp_kernelPath :: string
  bp_initramfsPath :: string

definition required_members :: "string list" where
  "required_members = [''VERSION'', ''vmlinuz'', ''initramfs'', ''rootfs.sqsh'']"

definition receive_rootfs ::
  "update_env \<Rightarrow> string \<Rightarrow> int \<Rightarrow> string \<Rightarrow> go_error option \<Rightarrow> ('s update_state, unit) action" where
  "receive_rootfs E dev sz content rerr st =
    (case ue_size E dev of
       Inl e \<Rightarrow> (Inl (Wrap ''size of'' e), st)
     | Inr slotBytes \<Rightarrow>
         if sz > slotBytes then (Inl (Wrap [] ErrBundleTooLarge), st)
         else (case writeBlockDevice E dev content rerr st of
                 (Inl e, st1) \<Rightarrow> (Inl (Wrap ''stream rootfs to'' e), st1)
               | (Inr _, st1) \<Rightarrow> (Inr (), st1)))"

text \<open>One wanted member: its name, header size, content and what broke the content off.\<close>

definition receive_member ::
  "update_env \<Rightarrow> string \<Rightarrow> bundle_paths \<Rightarrow> string \<Rightarrow> int \<Rightarrow> string \<Rightarrow> go_error option \<Rightarrow>
   ('s update_state, bundle_paths) action" where
  "receive_member E dev b name sz content rerr st =
    (if name = ''VERSION'' then
       (case rerr of
          Some e \<Rightarrow> (Inl e, st)
        | None \<Rightarrow> (Inr (b\<lparr>bp_version := trim_space content\<rparr>), st))
     else if name = ''vmlinuz'' then
       (case writeFile E (bp_kernelPath b) content rerr st of
          (Inl e, st1) \<Rightarrow> (Inl e, st1) | (Inr _, st1) \<Rightarrow> (Inr b, st1))
     else if name = ''initramfs'' then
       (case writeFile E (bp_initramfsPath b) content rerr st of
          (Inl e, st1) \<Rightarrow> (Inl e, st1) | (Inr _, st1) \<Rightarrow> (Inr b, st1))
     else if name = ''rootfs.sqsh'' then
       (case receive_rootfs E dev sz content rerr st of
          (Inl e, st1) \<Rightarrow> (Inl e, st1) | (Inr _, st1) \<Rightarrow> (Inr b, st1))
     else (Inr b, st))"

fun receive_members ::
  "update_env \<Rightarrow> string \<Rightarrow> tar_item list \<Rightarrow> string list \<Rightarrow> bundle_paths \<Rightarrow>
   ('s update_state, string list \<times> bundle_paths) action" where
  "receive_members E dev [] want b st = (Inr (want, b), st)"
| "receive_members E dev (NextErr e # items) want b st = (Inl (Wrap ''read tar'' e), st)"
| "receive_members E dev (MemberErr name sz content e # items) want b st =
    (if name \<notin> set want then (Inl e, st)
     else (case receive_member E dev b name sz content (Some e) st of
             (Inl e', st1) \<Rightarrow> (Inl e', st1)
           | (Inr b1, st1) \<Rightarrow> receive_members E dev items (removeAll name want) b1 st1))"
| "receive_members E dev (Member name sz content # items) want b st =
    (if name \<notin> set want then receive_members E dev items want b st
     else (case receive_member E dev b name sz content None st of
             (Inl e, st1) \<Rightarrow> (Inl e, st1)
           | (Inr b1, st1) \<Rightarrow> receive_members E dev items (removeAll name want) b1 st1))"

definition clean_staging :: "string \<Rightarrow> 's update_state \<Rightarrow> 's update_state" where
  "clean_staging dir st = st\<lparr>us_files := (\<lambda>p. if has_prefix p (dir @ ''/'') then None else us_files st p)\<rparr>"

text \<open>Kernel and initramfs of the new slot, then the boot loader's default.\<close>

definition install_boot_files ::
  "update_env \<Rightarrow> 's update_service \<Rightarrow> string \<Rightarrow> bundle_paths \<Rightarrow> ('s update_state, unit) action" where
  "install_boot_files E u nextSlot b st0 =
    (case copyIfChanged E (bp_kernelPath b)
            (path_join (up_BootMount u) (''vmlinuz_'' @ slotLetter nextSlot)) st0 of
       (Inl e, st1) \<Rightarrow> (Inl e, st1)
     | (Inr _, st1) \<Rightarrow>
        (case copyIfChanged E (bp_initramfsPath b)
                (path_join (up_BootMount u) (''initramfs_'' @ slotLetter nextSlot)) st1 of
           (Inl e, st2) \<Rightarrow> (Inl e, st2)
         | (Inr _, st2) \<Rightarrow> rewriteGrubDefault E (grub_cfg u) nextSlot st2))"

definition arm_update ::
  "update_env \<Rightarrow> 's update_service \<Rightarrow> string \<Rightarrow> string \<Rightarrow> ('s update_state, string \<times> string) action" where
  "arm_update E u nextSlot version st0 =
    (case on_state (os_Get (up_State u)) st0 of
       (Inl e, st1) \<Rightarrow> (Inl (Wrap ''read os_state'' e), st1)
     | (Inr st, st1) \<Rightarrow>
        (case on_state (os_Put (up_State u)
                (st\<lparr>PendingSlot := nextSlot, PendingDeadlineUnix := ue_now E + DefaultDeadline,
                    LastVersion := version\<rparr>)) st1 of
           (Inl e, st2) \<Rightarrow> (Inl (Wrap ''write os_state'' e), st2)
         | (Inr _, st2) \<Rightarrow> (Inr (nextSlot, version), st2)))"

text \<open>The stream is its chunks and the error that ended it (\<open>None\<close> at the end of file).\<close>

definition verify_stream ::
  "update_env \<Rightarrow> 64 word \<Rightarrow> string \<Rightarrow> string list \<Rightarrow> go_error option \<Rightarrow> string list \<Rightarrow> unit result" where
  "verify_stream E expectSize expectSHA256Hex chunks rerr want =
    (case rerr of
       Some e \<Rightarrow> Inl (Wrap ''stream'' e)
     | None \<Rightarrow>
        if want \<noteq> [] then Inl (Errorf ''bundle missing required members'')
        else if expectSize \<noteq> 0 \<and> word_of_nat (length (concat chunks)) \<noteq> expectSize
        then Inl (Errorf ''size mismatch'')
        else if \<not> equal_fold (ue_sha256_hex E (concat chunks)) expectSHA256Hex
        then Inl (Wrap [] ErrChecksumMismatch)
        else Inr ())"

definition ReceiveBundle ::
  "update_env \<Rightarrow> 's update_service \<Rightarrow> 64 word \<Rightarrow> string \<Rightarrow> string list \<Rightarrow> go_error option \<Rightarrow>
   ('s update_state, string \<times> string) action" where
  "ReceiveBundle E u expectSize expectSHA256Hex chunks rerr st0 =
    (if up_ActiveSlot u = [] then (Inl (Errorf ''update service: ActiveSlot not set''), st0)
     else let stagePath = path_join (up_StagingDir u) ''staging'' in
     case ue_stage E of
       Some e \<Rightarrow> (Inl (Wrap ''clean staging'' e), st0)
     | None \<Rightarrow>
        let st1 = clean_staging stagePath st0; nextSlot = otherSlot (up_ActiveSlot u) in
        case ue_find E (slotPartitionNumber nextSlot) of
          Inl e \<Rightarrow> (Inl (Wrap ''find slot partition'' e), st1)
        | Inr inactiveDev \<Rightarrow>
           (case receive_members E inactiveDev (ue_untar E (concat chunks) rerr) required_members
                   \<lparr>bp_version = [], bp_kernelPath = path_join stagePath ''vmlinuz'',
                    bp_initramfsPath = path_join stagePath ''initramfs''\<rparr> st1 of
              (Inl e, st2) \<Rightarrow> (Inl e, st2)
            | (Inr (want, bundle), st2) \<Rightarrow>
               (case verify_stream E expectSize expectSHA256Hex chunks rerr want of
                  Inl e \<Rightarrow> (Inl e, st2)
                | Inr _ \<Rightarrow>
                   (case ue_find E 1 of
                      Inl e \<Rightarrow> (Inl (Wrap ''find boot partition'' e), st2)
                    | Inr bootPart \<Rightarrow>
                       (case withBootMount E u (install_boot_files E u nextSlot bundle) st2 of
                          (Inl e, st3) \<Rightarrow> (Inl e, st3)
                        | (Inr _, st3) \<Rightarrow> arm_update E u nextSlot (bp_version bundle) st3)))))"

section \<open>The boot loader's default\<close>

text \<open>The entry the boot loader starts: the value of the first default line, entry 0
  being slot a and entry 1 slot b.\<close>

fun first_default :: "string list \<Rightarrow> string option" where
  "first_default [] = None"
| "first_default (ln # rest) =
    (if is_default_line ln then Some (trim_prefix (trim_space ln) ''set default='') else first_default rest)"

definition grub_slot :: "string \<Rightarrow> string option" where
  "grub_slot text =
    (case first_default (split_on CHR 0x0A text) of
       None \<Rightarrow> None
     | Some v \<Rightarrow> if v = ''0'' then Some ''slot_a'' else if v = ''1'' then Some ''slot_b'' else None)"

definition default_slot :: "'s update_service \<Rightarrow> 's update_state \<Rightarrow> string option" where
  "default_slot u st = Option.bind (us_files st (grub_cfg u)) grub_slot"

lemma is_slot_other [simp]: "is_slot (otherSlot s)"
  by (simp add: is_slot_def otherSlot_def)

lemma otherSlot_other: "is_slot s \<Longrightarrow> otherSlot (otherSlot s) = s"
  by (auto simp: is_slot_def otherSlot_def)

lemma otherSlot_neq [simp]: "otherSlot s \<noteq> s" "s \<noteq> otherSlot s" "otherSlot s \<noteq> []" "[] \<noteq> otherSlot s"
  by (auto simp: otherSlot_def)

lemma is_slot_ne: "is_slot s \<Longrightarrow> s \<noteq> []"
  by (auto simp: is_slot_def)

lemma is_slot_cases: "is_slot s \<Longrightarrow> is_slot t \<Longrightarrow> s = t \<or> s = otherSlot t"
  by (auto simp: is_slot_def otherSlot_def)

lemma default_line_slots:
  "is_default_line ''set default=0''" "is_default_line ''set default=1''"
  "trim_prefix (trim_space ''set default=0'') ''set default='' = ''0''"
  "trim_prefix (trim_space ''set default=1'') ''set default='' = ''1''"
  by (simp_all add: is_default_line_def trim_space_def trim_prefix_def is_space_def)

lemma replace_default_split:
  "replace_default new ls = Some ls' \<Longrightarrow>
   \<exists>pre ln post. ls = pre @ ln # post \<and> ls' = pre @ new # post \<and> is_default_line ln \<and>
     (\<forall>l\<in>set pre. \<not> is_default_line l)"
proof (induction ls arbitrary: ls')
  case (Cons l ls)
  show ?case
  proof (cases "is_default_line l")
    case True
    then have "l # ls = [] @ l # ls \<and> ls' = [] @ new # ls" using Cons.prems by simp
    then show ?thesis using True by (metis empty_iff empty_set)
  next
    case False
    then obtain ks where ks: "replace_default new ls = Some ks" "ls' = l # ks"
      using Cons.prems by auto
    obtain pre ln post where "ls = pre @ ln # post" "ks = pre @ new # post" "is_default_line ln"
      "\<forall>k\<in>set pre. \<not> is_default_line k"
      using Cons.IH [OF ks(1)] by (elim exE conjE)
    then have "l # ls = (l # pre) @ ln # post \<and> ls' = (l # pre) @ new # post \<and> is_default_line ln \<and>
        (\<forall>k\<in>set (l # pre). \<not> is_default_line k)"
      using ks False by simp
    then show ?thesis by blast
  qed
qed simp

lemma first_default_split:
  "is_default_line ln \<Longrightarrow> \<forall>l\<in>set pre. \<not> is_default_line l \<Longrightarrow>
   first_default (pre @ ln # post) = Some (trim_prefix (trim_space ln) ''set default='')"
  by (induction pre) auto

lemma slot_line:
  assumes "is_slot slot" "slotIndex slot = Inr idx"
  shows "is_default_line (''set default='' @ itoa idx)"
    and "CHR 0x0A \<notin> set (''set default='' @ itoa idx)"
    and "(case trim_prefix (trim_space (''set default='' @ itoa idx)) ''set default='' of
            v \<Rightarrow> if v = ''0'' then Some ''slot_a'' else if v = ''1'' then Some ''slot_b'' else None) = Some slot"
proof -
  have i: "itoa 0 = ''0''" "itoa 1 = ''1''" by code_simp+
  have "slot = ''slot_a'' \<and> idx = 0 \<or> slot = ''slot_b'' \<and> idx = 1"
    using assms by (auto simp: is_slot_def slotIndex_def)
  then have "slot = ''slot_a'' \<and> ''set default='' @ itoa idx = ''set default=0'' \<or>
      slot = ''slot_b'' \<and> ''set default='' @ itoa idx = ''set default=1''"
    using i by (auto simp only:) simp_all
  then show "is_default_line (''set default='' @ itoa idx)"
    "CHR 0x0A \<notin> set (''set default='' @ itoa idx)"
    "(case trim_prefix (trim_space (''set default='' @ itoa idx)) ''set default='' of
        v \<Rightarrow> if v = ''0'' then Some ''slot_a'' else if v = ''1'' then Some ''slot_b'' else None) = Some slot"
    using default_line_slots by (auto simp only: ) auto
qed

lemma replace_default_text:
  assumes s: "is_slot slot" "slotIndex slot = Inr idx"
    and r: "replace_default (''set default='' @ itoa idx) (split_on CHR 0x0A text) = Some lines"
  obtains pre ln post where "split_on CHR 0x0A text = pre @ ln # post" "is_default_line ln"
    "\<forall>l\<in>set pre. \<not> is_default_line l"
    "split_on CHR 0x0A (join_with CHR 0x0A lines) = pre @ (''set default='' @ itoa idx) # post"
    "grub_slot (join_with CHR 0x0A lines) = Some slot"
proof -
  obtain pre ln post where p: "split_on CHR 0x0A text = pre @ ln # post"
      "lines = pre @ (''set default='' @ itoa idx) # post" "is_default_line ln"
      "\<forall>l\<in>set pre. \<not> is_default_line l"
    using replace_default_split [OF r] by (elim exE conjE)
  have "\<forall>l\<in>set (pre @ ln # post). CHR 0x0A \<notin> set l"
    using split_on_no_sep [of _ "CHR 0x0A" "text"] p(1) by metis
  then have sj: "split_on CHR 0x0A (join_with CHR 0x0A lines) = lines"
    using p(2) slot_line(2) [OF s] by (intro split_join) auto
  have fd: "first_default lines =
      Some (trim_prefix (trim_space (''set default='' @ itoa idx)) ''set default='')"
    unfolding p(2) by (rule first_default_split [OF slot_line(1) [OF s] p(4)])
  have "grub_slot (join_with CHR 0x0A lines) = Some slot"
    unfolding grub_slot_def sj fd option.simps by (rule slot_line(3) [OF s])
  then show ?thesis using that [of pre ln post] p sj by simp
qed

lemma slotIndex_ok: "is_slot s \<Longrightarrow> \<exists>idx. slotIndex s = Inr idx"
  by (auto simp: is_slot_def slotIndex_def)

text \<open>rewriting the boot default of a readable grub.cfg on a working disk. When the file
  has a line setting the default, the call succeeds, only the first such line changes,
  the resulting file boots the requested slot and no other file is touched; when it has none,
  the call fails and nothing is touched.\<close>

theorem rewriteGrubDefault_selects_slot:
  assumes slot: "is_slot slot" and cfg: "us_files st path = Some text" and disk: "ue_write E path = None"
  shows "(\<exists>e. (\<forall>l\<in>set (split_on CHR 0x0A text). \<not> is_default_line l) \<and>
            rewriteGrubDefault E path slot st = (Inl e, st)) \<or>
         (\<exists>pre ln new post text'. split_on CHR 0x0A text = pre @ ln # post \<and> is_default_line ln \<and>
            (\<forall>l\<in>set pre. \<not> is_default_line l) \<and>
            rewriteGrubDefault E path slot st = (Inr (), put_file path text' st) \<and>
            split_on CHR 0x0A text' = pre @ new # post \<and> grub_slot text' = Some slot)"
proof -
  obtain idx where idx: "slotIndex slot = Inr idx" using slotIndex_ok [OF slot] by blast
  let ?new = "''set default='' @ itoa idx"
  have none: "replace_default n ls = None \<longleftrightarrow> (\<forall>l\<in>set ls. \<not> is_default_line l)" for n ls
    by (induction ls) auto
  show ?thesis
  proof (cases "replace_default ?new (split_on CHR 0x0A text)")
    case None
    then have "rewriteGrubDefault E path slot st = (Inl (Errorf ''no `set default=` line''), st)"
      by (simp add: rewriteGrubDefault_def idx cfg)
    then show ?thesis using none [of ?new "split_on CHR 0x0A text"] None by simp
  next
    case (Some lines)
    then have "rewriteGrubDefault E path slot st = (Inr (), put_file path (join_with CHR 0x0A lines) st)"
      by (simp add: rewriteGrubDefault_def idx cfg writeFile_def disk)
    then show ?thesis using replace_default_text [OF slot idx Some] by - (rule disjI2, metis)
  qed
qed

section \<open>An example machine\<close>

definition example_members :: "tar_item list" where
  "example_members = [Member ''VERSION'' 3 ''v2 '', Member ''vmlinuz'' 1 ''K'',
     Member ''initramfs'' 1 ''I'', Member ''rootfs.sqsh'' 2 ''RR'']"

definition example_update_env :: update_env where
  "example_update_env = \<lparr>ue_find = (\<lambda>n. Inr (''/dev/sda'' @ itoa n)), ue_size = (\<lambda>_. Inr 4),
     ue_stage = None, ue_write = (\<lambda>_. None), ue_mkdir = None, ue_proc_mounts = Inr [],
     ue_mount = None, ue_reboot = None, ue_untar = (\<lambda>_ _. example_members),
     ue_sha256_hex = (\<lambda>s. map (\<lambda>_. CHR ''a'') s), ue_now = 1000\<rparr>"

definition example_update_service :: "mem_store update_service" where
  "example_update_service = update_New mem_osState_if ''slot_a''"

definition example_update_state :: "mem_store update_state" where
  "example_update_state = \<lparr>us_store = mem_New\<lparr>mem_osState := Some (seed_state ''slot_a'')\<rparr>,
     us_files = [''/run/capsule/boot-mount/EFI/BOOT/grub.cfg'' \<mapsto> ''set default=0''],
     us_timer = False, us_rebooting = False\<rparr>"

theorem rewriteGrubDefault_selects_slot_witness:
  "\<exists>text'. rewriteGrubDefault example_update_env (grub_cfg example_update_service) ''slot_b'' example_update_state =
      (Inr (), put_file (grub_cfg example_update_service) text' example_update_state) \<and>
    grub_slot text' = Some ''slot_b''"
proof -
  have p: "is_slot ''slot_b''"
    "us_files example_update_state (grub_cfg example_update_service) = Some ''set default=0''"
    "ue_write example_update_env (grub_cfg example_update_service) = None"
    by (simp_all add: is_slot_def example_update_state_def grub_cfg_def example_update_service_def
        update_New_def path_join_def example_update_env_def)
  have "\<not> (\<forall>l\<in>set (split_on CHR 0x0A ''set default=0''). \<not> is_default_line l)"
    using default_line_slots(1) by simp
  then show ?thesis using rewriteGrubDefault_selects_slot [OF p] by blast
qed

section \<open>What receiving a bundle touches\<close>

text \<open>\<open>frame P st st'\<close>: from \<open>st\<close> to \<open>st'\<close> only files in \<open>P\<close> changed.\<close>

definition frame :: "(string \<Rightarrow> bool) \<Rightarrow> 's update_state \<Rightarrow> 's update_state \<Rightarrow> bool" where
  "frame P st st' \<longleftrightarrow> us_store st' = us_store st \<and> us_timer st' = us_timer st \<and>
     us_rebooting st' = us_rebooting st \<and> (\<forall>p. \<not> P p \<longrightarrow> us_files st' p = us_files st p)"

lemma frame_refl [intro, simp]: "frame P st st"
  by (simp add: frame_def)

lemma frame_trans [trans]: "frame P st st' \<Longrightarrow> frame P st' st'' \<Longrightarrow> frame P st st''"
  by (simp add: frame_def)

lemma frame_put_file: "P path \<Longrightarrow> frame P st (put_file path c st)"
  by (auto simp: frame_def put_file_def)

lemma put_file_files: "us_files (put_file p c st) q = (if q = p then Some c else us_files st q)"
  by (simp add: put_file_def)

lemma frame_writeFile: "P path \<Longrightarrow> frame P st (snd (writeFile E path c rerr st))"
  by (auto simp: writeFile_def frame_put_file split: option.splits write_fault.splits)

lemma frame_writeBlockDevice: "P dev \<Longrightarrow> frame P st (snd (writeBlockDevice E dev c rerr st))"
  by (auto simp: writeBlockDevice_def frame_put_file Let_def split: option.splits write_fault.splits)

lemma frame_copyIfChanged: "P dst \<Longrightarrow> frame P st (snd (copyIfChanged E src dst st))"
  by (auto simp: copyIfChanged_def frame_writeFile split: option.splits)

lemma frame_rewrite: "P path \<Longrightarrow> frame P st (snd (rewriteGrubDefault E path slot st))"
  by (auto simp: rewriteGrubDefault_def frame_writeFile split: option.splits sum.splits)

lemma frame_clean: "(\<And>p. has_prefix p (dir @ ''/'') \<Longrightarrow> P p) \<Longrightarrow> frame P st (clean_staging dir st)"
  by (auto simp: frame_def clean_staging_def)

lemma frame_receive_member:
  assumes "P dev" "P (bp_kernelPath b)" "P (bp_initramfsPath b)"
  shows "frame P st (snd (receive_member E dev b name sz c rerr st))"
proof -
  have s: "snd (case r of (Inl e, x) \<Rightarrow> (Inl e, x) | (Inr _, x) \<Rightarrow> (Inr b, x)) = snd r"
    for r :: "unit result \<times> 'a update_state"
    by (auto split: prod.splits sum.splits)
  have r: "snd (case r of (Inl e, x) \<Rightarrow> (Inl (Wrap m e), x) | (Inr _, x) \<Rightarrow> (Inr (), x)) = snd r"
    for m and r :: "unit result \<times> 'a update_state"
    by (auto split: prod.splits sum.splits)
  have "frame P st (snd (receive_rootfs E dev sz c rerr st))"
    using frame_writeBlockDevice [of P dev st E c rerr] assms(1)
    by (auto simp: receive_rootfs_def r split: sum.splits)
  then show ?thesis
    using assms by (simp add: receive_member_def s frame_writeFile split: option.splits)
qed

lemma receive_member_paths:
  "receive_member E dev b name sz c rerr st = (Inr b', st') \<Longrightarrow>
   bp_kernelPath b' = bp_kernelPath b \<and> bp_initramfsPath b' = bp_initramfsPath b"
  by (auto simp: receive_member_def split: if_splits option.splits prod.splits sum.splits)

lemma frame_bind:
  assumes "frame P st (snd r)" "\<And>x st1. r = (Inr x, st1) \<Longrightarrow> frame P st1 (snd (f x st1))"
  shows "frame P st (snd (case r of (Inl e, st1) \<Rightarrow> (Inl e, st1) | (Inr x, st1) \<Rightarrow> f x st1))"
proof (cases r)
  case (Pair y st1)
  then show ?thesis using assms by (cases y) (auto intro: frame_trans)
qed

lemma frame_receive_members:
  assumes "P dev" "P (bp_kernelPath b)" "P (bp_initramfsPath b)"
  shows "frame P st (snd (receive_members E dev items want b st))"
  using assms
proof (induction items arbitrary: want b st)
  case (Cons i items)
  have step: "frame P st (snd (case receive_member E dev b n sz c rerr st of
      (Inl e, st1) \<Rightarrow> (Inl e, st1)
    | (Inr b1, st1) \<Rightarrow> receive_members E dev items w b1 st1))" for n sz c rerr w
    by (rule frame_bind, rule frame_receive_member [OF Cons.prems], rule Cons.IH [OF Cons.prems(1)])
      (use receive_member_paths Cons.prems(2,3) in metis)+
  show ?case
    by (cases i) (simp_all only: receive_members.simps step Cons.IH [OF Cons.prems] frame_refl
        snd_conv simp_thms split: if_split)
qed simp

lemma writeFile_ok: "writeFile E path c rerr st = (Inr (), st') \<longleftrightarrow>
    ue_write E path = None \<and> rerr = None \<and> st' = put_file path c st"
  by (auto simp: writeFile_def split: option.splits write_fault.splits)

lemma receive_rootfs_ok: "receive_rootfs E dev sz c rerr st = (Inr (), st') \<longleftrightarrow>
    (\<exists>cap. ue_size E dev = Inr cap \<and> sz \<le> cap) \<and> ue_write E dev = None \<and> rerr = None \<and>
    st' = put_file dev (device_content (us_files st dev) c) st"
  by (auto simp: receive_rootfs_def writeBlockDevice_def Let_def
      split: option.splits write_fault.splits sum.splits)

text \<open>Where a member goes, and what is there afterwards.\<close>

definition member_path :: "string \<Rightarrow> bundle_paths \<Rightarrow> string \<Rightarrow> string option" where
  "member_path dev b n =
    (if n = ''vmlinuz'' then Some (bp_kernelPath b)
     else if n = ''initramfs'' then Some (bp_initramfsPath b)
     else if n = ''rootfs.sqsh'' then Some dev else None)"

definition member_content :: "string \<Rightarrow> string option \<Rightarrow> string \<Rightarrow> string" where
  "member_content n old c = (if n = ''rootfs.sqsh'' then device_content old c else c)"

lemma receive_member_ok:
  assumes "receive_member E dev b n sz c rerr st = (Inr b', st')" "n \<in> set required_members"
  shows "rerr = None"
    and "b' = (if n = ''VERSION'' then b\<lparr>bp_version := trim_space c\<rparr> else b)"
    and "st' = (case member_path dev b n of
           None \<Rightarrow> st | Some p \<Rightarrow> put_file p (member_content n (us_files st p) c) st)"
    and "n = ''rootfs.sqsh'' \<Longrightarrow> \<exists>cap. ue_size E dev = Inr cap \<and> sz \<le> cap"
proof -
  consider "n = ''VERSION''" | "n = ''vmlinuz''" | "n = ''initramfs''" | "n = ''rootfs.sqsh''"
    using assms(2) by (auto simp: required_members_def)
  then have "rerr = None \<and> b' = (if n = ''VERSION'' then b\<lparr>bp_version := trim_space c\<rparr> else b) \<and>
      st' = (case member_path dev b n of
           None \<Rightarrow> st | Some p \<Rightarrow> put_file p (member_content n (us_files st p) c) st) \<and>
      (n = ''rootfs.sqsh'' \<longrightarrow> (\<exists>cap. ue_size E dev = Inr cap \<and> sz \<le> cap))"
  proof cases
    case 1
    then show ?thesis
      using assms(1) by (auto simp: receive_member_def member_path_def split: option.splits)
  next
    case 2
    then show ?thesis
      using assms(1) by (auto simp: receive_member_def member_path_def member_content_def writeFile_ok
          split: prod.splits sum.splits)
  next
    case 3
    then show ?thesis
      using assms(1) by (auto simp: receive_member_def member_path_def member_content_def writeFile_ok
          split: prod.splits sum.splits)
  next
    case 4
    then show ?thesis
      using assms(1) by (auto simp: receive_member_def member_path_def member_content_def receive_rootfs_ok
          split: prod.splits sum.splits)
  qed
  then show "rerr = None" "b' = (if n = ''VERSION'' then b\<lparr>bp_version := trim_space c\<rparr> else b)"
    "st' = (case member_path dev b n of
       None \<Rightarrow> st | Some p \<Rightarrow> put_file p (member_content n (us_files st p) c) st)"
    "n = ''rootfs.sqsh'' \<Longrightarrow> \<exists>cap. ue_size E dev = Inr cap \<and> sz \<le> cap"
    by blast+
qed

lemma receive_member_broken:
  "n \<in> set required_members \<Longrightarrow> \<exists>e' st'. receive_member E dev b n sz c (Some e) st = (Inl e', st')"
  using receive_member_ok(1) [of E dev b n sz c "Some e" st]
  by (cases "receive_member E dev b n sz c (Some e) st"; cases "fst (receive_member E dev b n sz c (Some e) st)")
    auto

text \<open>A run over the members that ends well: only whole members and unwanted ones.\<close>

lemma receive_members_ConsE:
  assumes "receive_members E dev (i # items) want b st = (Inr r, st')" "set want \<subseteq> set required_members"
  obtains n sz c where "i = Member n sz c" "n \<notin> set want" "receive_members E dev items want b st = (Inr r, st')"
  | n sz c b1 st1 where "i = Member n sz c" "n \<in> set want"
      "receive_member E dev b n sz c None st = (Inr b1, st1)"
      "receive_members E dev items (removeAll n want) b1 st1 = (Inr r, st')"
proof (cases i)
  case (Member n sz c)
  show ?thesis
  proof (cases "n \<in> set want")
    case True
    then show ?thesis
      using assms(1) Member that(2) by (auto split: prod.splits sum.splits)
  next
    case False
    then show ?thesis using assms(1) Member that(1) by auto
  qed
next
  case (MemberErr n sz c e)
  then have "n \<in> set want" using assms(1) by (auto split: if_splits)
  then obtain e' st1 where "receive_member E dev b n sz c (Some e) st = (Inl e', st1)"
    using receive_member_broken assms(2) by blast
  then show ?thesis using assms(1) MemberErr \<open>n \<in> set want\<close> by simp
next
  case (NextErr e)
  then show ?thesis using assms(1) by simp
qed

lemma receive_members_missing:
  assumes "receive_members E dev items want b st = (Inr (want', b'), st')" "n \<in> set want"
    "\<forall>sz c. Member n sz c \<notin> set items" "set want \<subseteq> set required_members"
  shows "n \<in> set want'"
  using assms
proof (induction items arbitrary: want b st)
  case (Cons i items)
  from Cons.prems(1,4) show ?case
  proof (cases rule: receive_members_ConsE)
    case (1 m sz c)
    then show ?thesis using Cons by auto
  next
    case (2 m sz c b1 st1)
    then have "n \<noteq> m" using Cons.prems(3) by auto
    then show ?thesis using 2(4) Cons.prems by (intro Cons.IH [of "removeAll m want" b1 st1]) auto
  qed
qed simp

definition staging_path :: "'s update_service \<Rightarrow> string" where
  "staging_path u = path_join (up_StagingDir u) ''staging''"

definition initial_bundle :: "'s update_service \<Rightarrow> bundle_paths" where
  "initial_bundle u = \<lparr>bp_version = [], bp_kernelPath = path_join (staging_path u) ''vmlinuz'',
     bp_initramfsPath = path_join (staging_path u) ''initramfs''\<rparr>"

text \<open>The files of the staging directory and the inactive slot's device.\<close>

definition scratch_file :: "update_env \<Rightarrow> 's update_service \<Rightarrow> string \<Rightarrow> bool" where
  "scratch_file E u p \<longleftrightarrow> has_prefix p (staging_path u @ ''/'') \<or>
     ue_find E (slotPartitionNumber (otherSlot (up_ActiveSlot u))) = Inr p"

text \<open>The bundle reaches the boot partition only after it was read and verified.\<close>

definition unverified ::
  "update_env \<Rightarrow> 64 word \<Rightarrow> string \<Rightarrow> string list \<Rightarrow> go_error option \<Rightarrow> bool" where
  "unverified E expectSize expectSHA256Hex chunks rerr \<longleftrightarrow>
     rerr \<noteq> None \<or>
     expectSize \<noteq> 0 \<and> word_of_nat (length (concat chunks)) \<noteq> expectSize \<or>
     \<not> equal_fold (ue_sha256_hex E (concat chunks)) expectSHA256Hex \<or>
     (\<exists>n\<in>set required_members. \<forall>sz c. Member n sz c \<notin> set (ue_untar E (concat chunks) rerr))"

lemma ReceiveBundle_unfold:
  "ReceiveBundle E u expectSize sha chunks rerr st0 =
    (if up_ActiveSlot u = [] then (Inl (Errorf ''update service: ActiveSlot not set''), st0)
     else case ue_stage E of
       Some e \<Rightarrow> (Inl (Wrap ''clean staging'' e), st0)
     | None \<Rightarrow>
        (case ue_find E (slotPartitionNumber (otherSlot (up_ActiveSlot u))) of
          Inl e \<Rightarrow> (Inl (Wrap ''find slot partition'' e), clean_staging (staging_path u) st0)
        | Inr dev \<Rightarrow>
           (case receive_members E dev (ue_untar E (concat chunks) rerr) required_members
                   (initial_bundle u) (clean_staging (staging_path u) st0) of
              (Inl e, st2) \<Rightarrow> (Inl e, st2)
            | (Inr (want, bundle), st2) \<Rightarrow>
               (case verify_stream E expectSize sha chunks rerr want of
                  Inl e \<Rightarrow> (Inl e, st2)
                | Inr _ \<Rightarrow>
                   (case ue_find E 1 of
                      Inl e \<Rightarrow> (Inl (Wrap ''find boot partition'' e), st2)
                    | Inr bootPart \<Rightarrow>
                       (case withBootMount E u (install_boot_files E u (otherSlot (up_ActiveSlot u)) bundle) st2 of
                          (Inl e, st3) \<Rightarrow> (Inl e, st3)
                        | (Inr _, st3) \<Rightarrow>
                            arm_update E u (otherSlot (up_ActiveSlot u)) (bp_version bundle) st3))))))"
  unfolding ReceiveBundle_def Let_def staging_path_def initial_bundle_def by (rule refl)

lemma staged_prefix: "has_prefix (path_join d f) (d @ ''/'')"
  using has_prefix_append [of "d @ ''/''" f] by (simp add: path_join_def)

lemma frame_received:
  assumes "ue_find E (slotPartitionNumber (otherSlot (up_ActiveSlot u))) = Inr dev"
    and "receive_members E dev items want (initial_bundle u) (clean_staging (staging_path u) st0) = (r, st2)"
  shows "frame (scratch_file E u) st0 st2"
proof -
  have "frame (scratch_file E u) st0 (clean_staging (staging_path u) st0)"
    by (rule frame_clean) (simp add: scratch_file_def)
  also have "frame (scratch_file E u) \<dots> (snd (receive_members E dev items want (initial_bundle u) \<dots>))"
    by (rule frame_receive_members) (simp_all add: scratch_file_def assms(1) initial_bundle_def staged_prefix)
  finally show ?thesis using assms(2) by simp
qed

lemma ReceiveBundle_unverified:
  assumes "unverified E expectSize sha chunks rerr"
  shows "\<exists>e st'. ReceiveBundle E u expectSize sha chunks rerr st = (Inl e, st') \<and> frame (scratch_file E u) st st'"
proof -
  have clean: "frame (scratch_file E u) st (clean_staging (staging_path u) st)"
    by (rule frame_clean) (simp add: scratch_file_def)
  have refuse: "\<exists>e. verify_stream E expectSize sha chunks rerr want = Inl e"
    if "receive_members E dev (ue_untar E (concat chunks) rerr) required_members b s = (Inr (want, b'), s')"
    for dev b s want b' s'
    using assms receive_members_missing [OF that]
    by (fastforce simp: unverified_def verify_stream_def split: option.splits)
  show ?thesis
  proof (cases "ue_find E (slotPartitionNumber (otherSlot (up_ActiveSlot u)))")
    case (Inl e)
    then show ?thesis using clean by (simp add: ReceiveBundle_unfold split: option.splits)
  next
    case (Inr dev)
    obtain r st2 where m: "receive_members E dev (ue_untar E (concat chunks) rerr) required_members
        (initial_bundle u) (clean_staging (staging_path u) st) = (r, st2)"
      by fastforce
    have f: "frame (scratch_file E u) st st2" by (rule frame_received [OF Inr m])
    show ?thesis
    proof (cases r)
      case (Inr wb)
      then obtain want b' where r: "r = Inr (want, b')" by (cases wb) simp
      then obtain e where "verify_stream E expectSize sha chunks rerr want = Inl e"
        using refuse m by blast
      then show ?thesis
        using f m r \<open>ue_find E _ = Inr dev\<close> by (simp add: ReceiveBundle_unfold split: option.splits)
    qed (use f m Inr in \<open>simp add: ReceiveBundle_unfold split: option.splits\<close>)
  qed
qed

text \<open>C10: a bundle whose stream breaks, whose length or digest differs from what was announced, or
  which lacks a member is refused, and the refusal leaves the persistent record, the timer
  and every file other than the staging directory and the inactive slot's device as they
  were. In particular the boot default still starts the running slot.\<close>

theorem unverified_bundle_is_harmless:
  assumes "unverified E expectSize sha chunks rerr"
  shows "\<exists>e st'. ReceiveBundle E u expectSize sha chunks rerr st = (Inl e, st') \<and>
    us_store st' = us_store st \<and> us_timer st' = us_timer st \<and> us_rebooting st' = us_rebooting st \<and>
    (\<forall>p. \<not> scratch_file E u p \<longrightarrow> us_files st' p = us_files st p)"
  using ReceiveBundle_unverified [OF assms] by (simp add: frame_def)

theorem unverified_bundle_is_harmless_witness:
  "\<exists>e st'. ReceiveBundle example_update_env example_update_service 0 ''beef'' [''xy'', ''z''] None
       example_update_state = (Inl e, st') \<and> us_store st' = us_store example_update_state \<and>
     us_files st' (grub_cfg example_update_service) = Some ''set default=0''"
proof -
  have "unverified example_update_env 0 ''beef'' [''xy'', ''z''] None"
    by (simp add: unverified_def example_update_env_def equal_fold_def)
  note h = unverified_bundle_is_harmless [OF this, of example_update_service example_update_state]
  have "ue_find example_update_env 3 \<noteq> Inr (grub_cfg example_update_service)"
    by (simp add: example_update_env_def grub_cfg_def example_update_service_def update_New_def path_join_def)
  then have "\<not> scratch_file example_update_env example_update_service (grub_cfg example_update_service)"
    by (simp add: scratch_file_def staging_path_def grub_cfg_def example_update_service_def update_New_def
        path_join_def otherSlot_def slotPartitionNumber_def)
  moreover have "us_files example_update_state (grub_cfg example_update_service) = Some ''set default=0''"
    by (simp add: example_update_state_def grub_cfg_def example_update_service_def update_New_def path_join_def)
  ultimately show ?thesis using h by auto
qed

section \<open>A successful update\<close>

text \<open>What a run over the members leaves: every name that is no longer wanted was recorded, and
  the targets of names that were not wanted are untouched.\<close>

definition recorded ::
  "update_env \<Rightarrow> string \<Rightarrow> bundle_paths \<Rightarrow> bundle_paths \<Rightarrow> 's update_state \<Rightarrow> string \<Rightarrow> int \<Rightarrow> string \<Rightarrow> bool" where
  "recorded E dev b b' st' n sz c \<longleftrightarrow>
     (n = ''VERSION'' \<longrightarrow> bp_version b' = trim_space c) \<and>
     (\<forall>p. member_path dev b n = Some p \<longrightarrow> (\<exists>old. us_files st' p = Some (member_content n old c))) \<and>
     (n = ''rootfs.sqsh'' \<longrightarrow> (\<exists>cap. ue_size E dev = Inr cap \<and> sz \<le> cap))"

definition untouched ::
  "string \<Rightarrow> bundle_paths \<Rightarrow> bundle_paths \<Rightarrow> 's update_state \<Rightarrow> 's update_state \<Rightarrow> string \<Rightarrow> bool" where
  "untouched dev b b' st st' n \<longleftrightarrow> (n = ''VERSION'' \<longrightarrow> bp_version b' = bp_version b) \<and>
     (\<forall>p. member_path dev b n = Some p \<longrightarrow> us_files st' p = us_files st p)"

definition targets_distinct :: "string \<Rightarrow> bundle_paths \<Rightarrow> bool" where
  "targets_distinct dev b \<longleftrightarrow> dev \<noteq> bp_kernelPath b \<and> dev \<noteq> bp_initramfsPath b \<and>
     bp_kernelPath b \<noteq> bp_initramfsPath b"

lemma member_path_inj:
  "targets_distinct dev b \<Longrightarrow> member_path dev b n = Some p \<Longrightarrow> member_path dev b m = Some p \<Longrightarrow> m = n"
  by (auto simp: targets_distinct_def member_path_def split: if_splits)

lemma member_path_version: "member_path dev (b\<lparr>bp_version := v\<rparr>) n = member_path dev b n"
  by (simp add: member_path_def)

lemma receive_member_effect:
  assumes r: "receive_member E dev b m sz c None st = (Inr b1, st1)" "m \<in> set required_members"
    and d: "targets_distinct dev b"
  shows "recorded E dev b b1 st1 m sz c" "n \<noteq> m \<Longrightarrow> untouched dev b b1 st st1 n"
    "targets_distinct dev b1" "member_path dev b1 n = member_path dev b n"
proof -
  note ok = receive_member_ok [OF r]
  show "recorded E dev b b1 st1 m sz c"
    unfolding recorded_def
  proof (intro conjI allI impI)
    show "bp_version b1 = trim_space c" if "m = ''VERSION''" using ok(2) that by simp
    show "\<exists>old. us_files st1 p = Some (member_content m old c)" if "member_path dev b m = Some p" for p
      unfolding ok(3) that option.simps put_file_files by (intro exI) (simp only: if_True simp_thms)
  qed (rule ok(4))
  show "n \<noteq> m \<Longrightarrow> untouched dev b b1 st st1 n"
    unfolding untouched_def ok(2,3)
    using member_path_inj [OF d]
    by (cases "member_path dev b m") (auto simp only: put_file_files option.simps option.inject if_False split: if_splits)
  show "targets_distinct dev b1" "member_path dev b1 n = member_path dev b n"
    using d ok(2) by (auto simp: targets_distinct_def member_path_def)
qed

lemma recorded_later:
  assumes "recorded E dev b b1 st1 m sz c" "untouched dev b1 b' st1 st' m"
    "member_path dev b1 m = member_path dev b m"
  shows "recorded E dev b b' st' m sz c"
  using assms unfolding recorded_def untouched_def by simp

lemma recorded_cong:
  "member_path dev b1 n = member_path dev b n \<Longrightarrow> recorded E dev b1 b' st' n sz c = recorded E dev b b' st' n sz c"
  unfolding recorded_def by simp

lemma untouched_trans:
  assumes "untouched dev b b1 st st1 n" "untouched dev b1 b' st1 st' n"
    "member_path dev b1 n = member_path dev b n"
  shows "untouched dev b b' st st' n"
  using assms unfolding untouched_def by simp

lemma receive_members_recorded:
  assumes "receive_members E dev items want b st = (Inr (want', b'), st')"
    and "set want \<subseteq> set required_members" "targets_distinct dev b"
  shows "(\<forall>n. n \<notin> set want \<longrightarrow> untouched dev b b' st st' n) \<and>
     (\<forall>n. n \<in> set want \<longrightarrow> n \<notin> set want' \<longrightarrow>
       (\<exists>sz c. Member n sz c \<in> set items \<and> recorded E dev b b' st' n sz c)) \<and>
     bp_kernelPath b' = bp_kernelPath b \<and> bp_initramfsPath b' = bp_initramfsPath b"
  using assms
proof (induction items arbitrary: want b st)
  case Nil
  then show ?case by (simp add: untouched_def)
next
  case (Cons i items)
  note prems = Cons.prems
  from prems(1,2) show ?case
  proof (cases rule: receive_members_ConsE)
    case (1 m sz c)
    show ?thesis
      using Cons.IH [OF 1(3) prems(2,3)] by (metis list.set_intros(2))
  next
    case (2 m sz c b1 st1)
    have m: "m \<in> set required_members" using 2(2) prems(2) by blast
    note eff = receive_member_effect [OF 2(3) m prems(3)]
    have w: "set (removeAll m want) \<subseteq> set required_members" using prems(2) by auto
    note IH = Cons.IH [OF 2(4) w eff(3)]
    have tr: "untouched dev b b' st st' n" if "n \<notin> set want" for n
      by (rule untouched_trans [OF eff(2) _ eff(4)]) (use IH that 2(2) in auto)
    have keep: "recorded E dev b b' st' m sz c"
      by (rule recorded_later [OF eff(1) _ eff(4)]) (use IH in simp)
    have "\<exists>sz c. Member n sz c \<in> set (i # items) \<and> recorded E dev b b' st' n sz c"
      if nw: "n \<in> set want" "n \<notin> set want'" for n
    proof (cases "n = m")
      case True
      then show ?thesis using keep 2(1) by (meson list.set_intros(1))
    next
      case False
      then have "n \<in> set (removeAll m want)" using nw(1) by simp
      then obtain sz c where "Member n sz c \<in> set items" "recorded E dev b1 b' st' n sz c"
        using IH nw(2) by blast
      then show ?thesis using recorded_cong [OF eff(4)] by (meson list.set_intros(2))
    qed
    then show ?thesis using tr IH receive_member_paths [OF 2(3)] by simp
  qed
qed

text \<open>The boot mount, the staging directory and the inactive device do not overlap.\<close>

definition paths_apart :: "update_env \<Rightarrow> 's update_service \<Rightarrow> bool" where
  "paths_apart E u \<longleftrightarrow>
     \<not> has_prefix (up_BootMount u @ ''/'') (staging_path u @ ''/'') \<and>
     \<not> has_prefix (staging_path u @ ''/'') (up_BootMount u @ ''/'') \<and>
     (case ue_find E (slotPartitionNumber (otherSlot (up_ActiveSlot u))) of
        Inl _ \<Rightarrow> True
      | Inr dev \<Rightarrow> \<not> has_prefix dev (up_BootMount u @ ''/'') \<and> \<not> has_prefix dev (staging_path u @ ''/''))"

lemma boot_path_apart:
  assumes "paths_apart E u"
  shows "\<not> scratch_file E u (path_join (up_BootMount u) f)"
proof
  assume "scratch_file E u (path_join (up_BootMount u) f)"
  then consider "has_prefix (path_join (up_BootMount u) f) (staging_path u @ ''/'')"
    | "ue_find E (slotPartitionNumber (otherSlot (up_ActiveSlot u))) = Inr (path_join (up_BootMount u) f)"
    by (auto simp: scratch_file_def)
  then show False
  proof cases
    case 1
    then obtain t where t: "(up_BootMount u @ ''/'') @ f = (staging_path u @ ''/'') @ t"
      unfolding has_prefix_iff path_join_def append_assoc by (elim exE)
    obtain us where "up_BootMount u @ ''/'' = (staging_path u @ ''/'') @ us \<or>
        staging_path u @ ''/'' = (up_BootMount u @ ''/'') @ us"
      using t [THEN append_eq_append_conv2 [THEN iffD1]] by (metis (no_types))
    then have "has_prefix (up_BootMount u @ ''/'') (staging_path u @ ''/'') \<or>
        has_prefix (staging_path u @ ''/'') (up_BootMount u @ ''/'')"
      unfolding has_prefix_iff by blast
    then show False using assms unfolding paths_apart_def by blast
  next
    case 2
    then show False using assms staged_prefix [of "up_BootMount u" f] by (simp add: paths_apart_def)
  qed
qed

lemma path_join_inj [simp]: "path_join d f = path_join d g \<longleftrightarrow> f = g"
  by (simp add: path_join_def)

lemma copyIfChanged_ok:
  assumes "copyIfChanged E src dst st = (Inr (), st')" "src \<noteq> dst"
  obtains c c' where "us_files st src = Some c" "us_files st' dst = Some c'"
    "ue_sha256_hex E c' = ue_sha256_hex E c" "frame (\<lambda>p. p = dst) st st'"
proof -
  obtain c where c: "us_files st src = Some c"
    using assms(1) by (auto simp: copyIfChanged_def split: option.splits)
  have f: "frame (\<lambda>p. p = dst) st st'"
    using frame_copyIfChanged [of "\<lambda>p. p = dst" dst st E src] assms(1) by simp
  show ?thesis
  proof (cases "fileSHA256 E st dst = fileSHA256 E st src")
    case True
    then have "st' = st" using assms(1) c by (simp add: copyIfChanged_def)
    moreover obtain c' where "us_files st dst = Some c'" "ue_sha256_hex E c' = ue_sha256_hex E c"
      using True c by (auto simp: fileSHA256_def split: option.splits)
    ultimately show ?thesis using that c f by blast
  next
    case False
    then have "writeFile E dst c None st = (Inr (), st')" using assms(1) c by (simp add: copyIfChanged_def)
    then have "us_files st' dst = Some c" by (simp add: writeFile_ok put_file_files)
    then show ?thesis using that c f by blast
  qed
qed

lemma rewriteGrubDefault_ok:
  assumes "rewriteGrubDefault E path slot st = (Inr (), st')"
  obtains text' where "st' = put_file path text' st" "grub_slot text' = Some slot"
proof -
  obtain idx where idx: "slotIndex slot = Inr idx"
    using assms by (auto simp: rewriteGrubDefault_def split: sum.splits)
  have slot: "is_slot slot" using idx by (auto simp: slotIndex_def is_slot_def split: if_splits)
  obtain cfg where cfg: "us_files st path = Some cfg"
    using assms idx by (auto simp: rewriteGrubDefault_def split: option.splits)
  obtain lines where lines: "replace_default (''set default='' @ itoa idx) (split_on CHR 0x0A cfg) = Some lines"
    using assms idx cfg by (auto simp: rewriteGrubDefault_def split: option.splits)
  have "writeFile E path (join_with CHR 0x0A lines) None st = (Inr (), st')"
    using assms idx cfg lines by (simp add: rewriteGrubDefault_def)
  then have "st' = put_file path (join_with CHR 0x0A lines) st" by (simp add: writeFile_ok)
  moreover have "grub_slot (join_with CHR 0x0A lines) = Some slot"
    using replace_default_text [OF slot idx lines] by blast
  ultimately show ?thesis using that by blast
qed

lemma verify_stream_ok:
  "verify_stream E expectSize sha chunks rerr want = Inr () \<longleftrightarrow>
   rerr = None \<and> want = [] \<and> (expectSize = 0 \<or> word_of_nat (length (concat chunks)) = expectSize) \<and>
   equal_fold (ue_sha256_hex E (concat chunks)) sha"
  by (auto simp: verify_stream_def split: option.splits)

lemma withBootMount_ok: "withBootMount E u fn st = (Inr (), st') \<Longrightarrow> fn st = (Inr (), st')"
  by (auto simp: withBootMount_def split: option.splits if_splits)

lemma ReceiveBundle_okE:
  assumes "ReceiveBundle E u expectSize sha chunks rerr st = (Inr r, st')"
  obtains dev b st2 st3 where "ue_find E (slotPartitionNumber (otherSlot (up_ActiveSlot u))) = Inr dev"
    "receive_members E dev (ue_untar E (concat chunks) rerr) required_members (initial_bundle u)
       (clean_staging (staging_path u) st) = (Inr ([], b), st2)"
    "verify_stream E expectSize sha chunks rerr [] = Inr ()"
    "install_boot_files E u (otherSlot (up_ActiveSlot u)) b st2 = (Inr (), st3)"
    "arm_update E u (otherSlot (up_ActiveSlot u)) (bp_version b) st3 = (Inr r, st')"
proof -
  note run = assms [unfolded ReceiveBundle_unfold]
  obtain dev where dev: "ue_find E (slotPartitionNumber (otherSlot (up_ActiveSlot u))) = Inr dev"
    using run by (auto split: if_splits option.splits sum.splits)
  obtain want b st2 where mem: "receive_members E dev (ue_untar E (concat chunks) rerr) required_members
      (initial_bundle u) (clean_staging (staging_path u) st) = (Inr (want, b), st2)"
    using run dev by (auto split: if_splits option.splits sum.splits prod.splits)
  have ver: "verify_stream E expectSize sha chunks rerr want = Inr ()"
    using run dev mem by (auto split: if_splits option.splits sum.splits)
  then have w: "want = []" by (simp add: verify_stream_ok)
  obtain st3 where wb: "withBootMount E u (install_boot_files E u (otherSlot (up_ActiveSlot u)) b) st2 = (Inr (), st3)"
    using run dev mem ver by (auto split: if_splits option.splits sum.splits prod.splits)
  have "arm_update E u (otherSlot (up_ActiveSlot u)) (bp_version b) st3 = (Inr r, st')"
    using run dev mem ver wb by (auto split: if_splits option.splits sum.splits)
  then show ?thesis using that dev mem ver w withBootMount_ok [OF wb] by blast
qed

lemma install_boot_files_okE:
  assumes "install_boot_files E u slot b st2 = (Inr (), st3)"
  obtains s1 s2 text' where
    "copyIfChanged E (bp_kernelPath b) (path_join (up_BootMount u) (''vmlinuz_'' @ slotLetter slot)) st2 = (Inr (), s1)"
    "copyIfChanged E (bp_initramfsPath b) (path_join (up_BootMount u) (''initramfs_'' @ slotLetter slot)) s1 = (Inr (), s2)"
    "st3 = put_file (grub_cfg u) text' s2" "grub_slot text' = Some slot"
proof -
  obtain s1 where 1: "copyIfChanged E (bp_kernelPath b)
      (path_join (up_BootMount u) (''vmlinuz_'' @ slotLetter slot)) st2 = (Inr (), s1)"
    using assms by (auto simp: install_boot_files_def split: prod.splits sum.splits)
  obtain s2 where 2: "copyIfChanged E (bp_initramfsPath b)
      (path_join (up_BootMount u) (''initramfs_'' @ slotLetter slot)) s1 = (Inr (), s2)"
    using assms 1 by (auto simp: install_boot_files_def split: prod.splits sum.splits)
  have "rewriteGrubDefault E (grub_cfg u) slot s2 = (Inr (), st3)"
    using assms 1 2 by (simp add: install_boot_files_def)
  then show ?thesis using that 1 2 rewriteGrubDefault_ok by metis
qed

lemma arm_update_ok:
  assumes "arm_update E u slot version st3 = (Inr r, st')"
  shows "us_files st' = us_files st3" "r = (slot, version)"
  using assms by (auto simp: arm_update_def on_state_def split: prod.splits sum.splits)

lemma clean_keeps_distinct:
  assumes "paths_apart E u" "ue_find E (slotPartitionNumber (otherSlot (up_ActiveSlot u))) = Inr dev"
  shows "targets_distinct dev (initial_bundle u)"
  using assms staged_prefix [of "staging_path u"]
  by (auto simp: targets_distinct_def initial_bundle_def paths_apart_def)

lemma staged_not_boot:
  assumes "paths_apart E u"
  shows "path_join (staging_path u) f \<noteq> path_join (up_BootMount u) g"
  using boot_path_apart [OF assms, of g] staged_prefix [of "staging_path u" f]
  by (auto simp: scratch_file_def)

text \<open>What the staged files and the boot files of a slot hold after installation.\<close>

lemma install_boot_files_effect:
  assumes inst: "install_boot_files E u slot b st2 = (Inr (), st3)" and apart: "paths_apart E u"
    and b: "bp_kernelPath b = path_join (staging_path u) ''vmlinuz''"
      "bp_initramfsPath b = path_join (staging_path u) ''initramfs''"
    and k: "us_files st2 (bp_kernelPath b) = Some ck" and i: "us_files st2 (bp_initramfsPath b) = Some ci"
  shows "\<exists>c. us_files st3 (path_join (up_BootMount u) (''vmlinuz_'' @ slotLetter slot)) = Some c \<and>
      ue_sha256_hex E c = ue_sha256_hex E ck"
    and "\<exists>c. us_files st3 (path_join (up_BootMount u) (''initramfs_'' @ slotLetter slot)) = Some c \<and>
      ue_sha256_hex E c = ue_sha256_hex E ci"
    and "default_slot u st3 = Some slot"
    and "\<And>p. (\<And>f. p \<noteq> path_join (up_BootMount u) f) \<Longrightarrow> us_files st3 p = us_files st2 p"
proof -
  let ?vk = "path_join (up_BootMount u) (''vmlinuz_'' @ slotLetter slot)"
  let ?vi = "path_join (up_BootMount u) (''initramfs_'' @ slotLetter slot)"
  obtain s1 s2 text' where s: "copyIfChanged E (bp_kernelPath b) ?vk st2 = (Inr (), s1)"
    "copyIfChanged E (bp_initramfsPath b) ?vi s1 = (Inr (), s2)"
    "st3 = put_file (grub_cfg u) text' s2" "grub_slot text' = Some slot"
    by (rule install_boot_files_okE [OF inst])
  have nb: "bp_kernelPath b \<noteq> path_join (up_BootMount u) f" "bp_initramfsPath b \<noteq> path_join (up_BootMount u) f" for f
    using staged_not_boot [OF apart] by (simp_all only: b not_False_eq_True)
  obtain c1 c1' where c1: "us_files st2 (bp_kernelPath b) = Some c1" "us_files s1 ?vk = Some c1'"
    "ue_sha256_hex E c1' = ue_sha256_hex E c1" "frame (\<lambda>p. p = ?vk) st2 s1"
    by (rule copyIfChanged_ok [OF s(1) nb(1)])
  obtain c2 c2' where c2: "us_files s1 (bp_initramfsPath b) = Some c2" "us_files s2 ?vi = Some c2'"
    "ue_sha256_hex E c2' = ue_sha256_hex E c2" "frame (\<lambda>p. p = ?vi) s1 s2"
    by (rule copyIfChanged_ok [OF s(2) nb(2)])
  have dist: "?vk \<noteq> ?vi" "grub_cfg u \<noteq> ?vk" "grub_cfg u \<noteq> ?vi" by (simp_all add: grub_cfg_def)
  have f1: "p \<noteq> ?vk \<Longrightarrow> us_files s1 p = us_files st2 p" for p using c1(4) by (simp add: frame_def)
  have f2: "p \<noteq> ?vi \<Longrightarrow> us_files s2 p = us_files s1 p" for p using c2(4) by (simp add: frame_def)
  have "us_files st3 ?vk = Some c1'"
    using f2 [OF dist(1)] c1(2) dist(2) by (auto simp only: s(3) put_file_files split: if_split)
  then show "\<exists>c. us_files st3 ?vk = Some c \<and> ue_sha256_hex E c = ue_sha256_hex E ck"
    using c1(1,3) k by (metis option.inject)
  have "us_files st3 ?vi = Some c2'"
    using c2(2) dist(3) by (auto simp only: s(3) put_file_files split: if_split)
  moreover have "c2 = ci" using f1 [OF nb(2)] c2(1) i by (metis option.inject)
  ultimately show "\<exists>c. us_files st3 ?vi = Some c \<and> ue_sha256_hex E c = ue_sha256_hex E ci"
    using c2(3) by metis
  show "default_slot u st3 = Some slot"
    using s(4) by (simp add: default_slot_def s(3) put_file_files)
  show "us_files st3 p = us_files st2 p" if "\<And>f. p \<noteq> path_join (up_BootMount u) f" for p
    using f1 [OF that] f2 [OF that] that by (simp add: s(3) put_file_files grub_cfg_def)
qed


lemma example_received:
  "fst (ReceiveBundle example_update_env example_update_service 2 ''AA'' [''x'', ''y''] None example_update_state) =
     Inr (''slot_b'', ''v2'')"
  by code_simp


end
