(* ===== verification/Capsule_Disk.thy ===== *)
theory Capsule_Disk
  imports Capsule_Machine
begin

unbundle bit_operations_syntax

text \<open>
  The disk layout of an installation, \<^verbatim>\<open>src/core/install/disklayout.go\<close>: the
  partition table computed for a disk, the master boot record that holds it, and the
  copy of a partition in chunks. A device is the list of its bytes.
\<close>

section \<open>Layout\<close>

definition CapsuleMBRSig :: "32 word" where "CapsuleMBRSig = 0xb1a570ff"

definition sectorSize :: "64 word" where "sectorSize = 512"

definition bootPartStart :: "32 word" where "bootPartStart = 2048"

definition bootPartSizeMiB :: "32 word" where "bootPartSizeMiB = 256"

definition slotPartSizeMiB :: "32 word" where "slotPartSizeMiB = 2048"

definition minPermSizeMiB :: "32 word" where "minPermSizeMiB = 2048"

definition bootPartSectors :: "32 word" where "bootPartSectors = bootPartSizeMiB * 1024 * 2"

definition slotPartSectors :: "32 word" where "slotPartSectors = slotPartSizeMiB * 1024 * 2"

definition partTypeESP :: "8 word" where "partTypeESP = 0xEF"

definition partTypeLinux :: "8 word" where "partTypeLinux = 0x83"

definition partTypeLVM :: "8 word" where "partTypeLVM = 0x8E"

record layout =
  BootStart :: "32 word"
  BootSectors :: "32 word"
  SlotAStart :: "32 word"
  SlotASectors :: "32 word"
  SlotBStart :: "32 word"
  SlotBSectors :: "32 word"
  PermStart :: "32 word"
  PermSectors :: "32 word"

definition LayoutForDisk :: "64 word \<Rightarrow> layout result" where
  "LayoutForDisk sizeBytes =
    (let sectors = sizeBytes div sectorSize;
         totalSectors = (if sectors > 0xFFFFFFFF then 0xFFFFFFFF else sectors);
         slotAStart = bootPartStart + bootPartSectors;
         slotBStart = slotAStart + slotPartSectors;
         permStart = slotBStart + slotPartSectors
     in if ucast permStart \<ge> totalSectors then Inl (Errorf ''target too small for capsule layout'')
        else let permSectors = ucast (totalSectors - ucast permStart) in
          if permSectors < minPermSizeMiB * 1024 * 2 then Inl (Errorf ''target too small'')
          else Inr \<lparr>BootStart = bootPartStart, BootSectors = bootPartSectors,
            SlotAStart = slotAStart, SlotASectors = slotPartSectors,
            SlotBStart = slotBStart, SlotBSectors = slotPartSectors,
            PermStart = permStart, PermSectors = permSectors\<rparr>)"

section \<open>Master boot record\<close>



definition PutUint32 :: "nat \<Rightarrow> 32 word \<Rightarrow> device \<Rightarrow> device" where
  "PutUint32 off v m = m[off := ucast v, off + 1 := ucast (drop_bit 8 v),
     off + 2 := ucast (drop_bit 16 v), off + 3 := ucast (drop_bit 24 v)]"

record mbr_part =
  mp_typ :: "8 word"
  mp_start :: "32 word"
  mp_size :: "32 word"
  mp_bootable :: bool

definition mbr_parts :: "layout \<Rightarrow> mbr_part list" where
  "mbr_parts l =
    [\<lparr>mp_typ = partTypeESP, mp_start = BootStart l, mp_size = BootSectors l, mp_bootable = True\<rparr>,
     \<lparr>mp_typ = partTypeLinux, mp_start = SlotAStart l, mp_size = SlotASectors l, mp_bootable = False\<rparr>,
     \<lparr>mp_typ = partTypeLinux, mp_start = SlotBStart l, mp_size = SlotBSectors l, mp_bootable = False\<rparr>,
     \<lparr>mp_typ = partTypeLVM, mp_start = PermStart l, mp_size = PermSectors l, mp_bootable = False\<rparr>]"

definition put_part :: "nat \<Rightarrow> mbr_part \<Rightarrow> device \<Rightarrow> device" where
  "put_part off p m =
    (let m1 = (if mp_bootable p then m[off := 0x80] else m);
         m2 = m1[off + 1 := 0xFE, off + 2 := 0xFF, off + 3 := 0xFF, off + 4 := mp_typ p,
                 off + 5 := 0xFE, off + 6 := 0xFF, off + 7 := 0xFF]
     in PutUint32 (off + 12) (mp_size p) (PutUint32 (off + 8) (mp_start p) m2))"

fun put_parts :: "nat \<Rightarrow> mbr_part list \<Rightarrow> device \<Rightarrow> device" where
  "put_parts i [] m = m"
| "put_parts i (p # ps) m = put_parts (Suc i) ps (put_part (0x1BE + i * 16) p m)"

definition build_mbr :: "layout \<Rightarrow> device" where
  "build_mbr l = (put_parts 0 (mbr_parts l) (PutUint32 0x1B8 CapsuleMBRSig (replicate 512 0)))
     [0x1FE := 0x55, 0x1FF := 0xAA]"

definition healthy :: dev_io where
  "healthy = \<lparr>dv_open = None, dv_seek = None, dv_sync = None, dv_read = (\<lambda>_. None), dv_write = (\<lambda>_. None)\<rparr>"

definition ENOSPC :: go_error where "ENOSPC = Sentinel ''no space left on device''"

definition io_EOF :: go_error where "io_EOF = Sentinel ''EOF''"

definition io_ErrUnexpectedEOF :: go_error where "io_ErrUnexpectedEOF = Sentinel ''unexpected EOF''"

definition blit :: "nat \<Rightarrow> device \<Rightarrow> device \<Rightarrow> device" where
  "blit off bs d = take off d @ bs @ drop (off + length bs) d"

definition dev_write :: "dev_io \<Rightarrow> nat \<Rightarrow> device \<Rightarrow> device \<Rightarrow> go_error option \<times> device" where
  "dev_write io off bs d =
    (let room = length d - off in
     case dv_write io off of
       Some (k, e) \<Rightarrow> (Some e, blit off (take (min k room) bs) d)
     | None \<Rightarrow>
        if length bs \<le> room then (None, blit off bs d)
        else (Some ENOSPC, blit off (take room bs) d))"

text \<open>\<open>io.ReadFull\<close> of \<open>want\<close> bytes: the bytes read and the error when they are fewer.\<close>

definition read_full :: "dev_io \<Rightarrow> nat \<Rightarrow> nat \<Rightarrow> device \<Rightarrow> device \<times> go_error option" where
  "read_full io off want d =
    (let avail = take want (drop off d);
         whole = (avail, if length avail = want then None
                         else if avail = [] then Some io_EOF else Some io_ErrUnexpectedEOF)
     in case dv_read io off of
          Some (k, e) \<Rightarrow> if k < length avail then (take k avail, Some e) else whole
        | None \<Rightarrow> whole)"

definition WriteMBR :: "dev_io \<Rightarrow> layout \<Rightarrow> device \<Rightarrow> unit result \<times> device" where
  "WriteMBR io l d =
    (case dv_open io of
       Some e \<Rightarrow> (Inl (Wrap ''open'' e), d)
     | None \<Rightarrow>
        (case dev_write io 0 (build_mbr l) d of
           (Some e, d') \<Rightarrow> (Inl (Wrap ''write MBR to'' e), d')
         | (None, d') \<Rightarrow>
            (case dv_sync io of
               Some e \<Rightarrow> (Inl (Wrap ''sync MBR on'' e), d')
             | None \<Rightarrow> (Inr (), d'))))"

text \<open>The signature as the boot code reads it (\<open>readMBRDiskSig\<close> of \<^verbatim>\<open>src/boot/boot_linux.go\<close>).\<close>

definition readMBRDiskSig :: "device result \<Rightarrow> string result" where
  "readMBRDiskSig dev =
    (case dev of
       Inl e \<Rightarrow> Inl e
     | Inr d \<Rightarrow>
        if length d < 0x1BC then Inl (Errorf ''EOF'')
        else Inr (hex_byte (d ! 0x1BB) @ hex_byte (d ! 0x1BA) @ hex_byte (d ! 0x1B9) @ hex_byte (d ! 0x1B8)))"

section \<open>Reading the table back\<close>

definition le32 :: "nat \<Rightarrow> device \<Rightarrow> 32 word" where
  "le32 off m = ucast (m ! off) OR push_bit 8 (ucast (m ! (off + 1))) OR
     push_bit 16 (ucast (m ! (off + 2))) OR push_bit 24 (ucast (m ! (off + 3)))"

definition read_part :: "nat \<Rightarrow> device \<Rightarrow> mbr_part" where
  "read_part i m = (let off = 0x1BE + i * 16 in
     \<lparr>mp_typ = m ! (off + 4), mp_start = le32 (off + 8) m, mp_size = le32 (off + 12) m,
      mp_bootable = (m ! off = 0x80)\<rparr>)"

section \<open>The layout fits\<close>

lemma layout_constants:
  "unat (bootPartStart + bootPartSectors) = 526336"
  "unat (bootPartStart + bootPartSectors + slotPartSectors) = 4720640"
  "unat (bootPartStart + bootPartSectors + slotPartSectors + slotPartSectors) = 8914944"
  "minPermSizeMiB * 1024 * 2 = 4194304"
  by (simp_all add: bootPartStart_def bootPartSectors_def slotPartSectors_def bootPartSizeMiB_def
      slotPartSizeMiB_def minPermSizeMiB_def)

lemma LayoutForDisk_cases:
  "case LayoutForDisk sizeBytes of
     Inl _ \<Rightarrow> unat sizeBytes < 6711934976
   | Inr l \<Rightarrow> unat sizeBytes \<ge> 6711934976 \<and> unat (BootStart l) = 2048 \<and> unat (BootSectors l) = 256 * 2048 \<and>
       unat (SlotASectors l) = 2048 * 2048 \<and> unat (SlotBSectors l) = 2048 * 2048 \<and>
       unat (PermSectors l) \<ge> 2048 * 2048 \<and>
       unat (SlotAStart l) = unat (BootStart l) + unat (BootSectors l) \<and>
       unat (SlotBStart l) = unat (SlotAStart l) + unat (SlotASectors l) \<and>
       unat (PermStart l) = unat (SlotBStart l) + unat (SlotBSectors l) \<and>
       unat (PermStart l) + unat (PermSectors l) = min (unat sizeBytes div 512) (2 ^ 32 - 1)"
proof -
  let ?perm = "bootPartStart + bootPartSectors + slotPartSectors + slotPartSectors"
  define total :: "64 word" where
    "total = (if sizeBytes div sectorSize > 0xFFFFFFFF then 0xFFFFFFFF else sizeBytes div sectorSize)"
  have t: "unat total = min (unat sizeBytes div 512) (2 ^ 32 - 1)"
    by (simp add: total_def sectorSize_def word_less_nat_alt unat_div)
  have p: "unat (ucast ?perm :: 64 word) = 8914944"
    using layout_constants(3) by (simp add: unsigned_ucast_eq take_bit_nat_eq_self)
  have le: "ucast ?perm \<ge> total \<longleftrightarrow> unat total \<le> 8914944" unfolding word_le_nat_alt p by (rule refl)
  define perm :: "32 word" where "perm = ucast (total - ucast ?perm)"
  have u: "unat perm = unat total - 8914944" if "unat total > 8914944"
    using that t p by (simp add: perm_def unsigned_ucast_eq unat_sub word_le_nat_alt take_bit_nat_eq_self)
  have lt: "perm < minPermSizeMiB * 1024 * 2 \<longleftrightarrow> unat perm < 4194304"
    unfolding layout_constants(4) by (simp add: word_less_nat_alt)
  have L: "LayoutForDisk sizeBytes =
    (if ucast ?perm \<ge> total then Inl (Errorf ''target too small for capsule layout'')
     else if perm < minPermSizeMiB * 1024 * 2 then Inl (Errorf ''target too small'')
     else Inr \<lparr>BootStart = bootPartStart, BootSectors = bootPartSectors,
            SlotAStart = bootPartStart + bootPartSectors, SlotASectors = slotPartSectors,
            SlotBStart = bootPartStart + bootPartSectors + slotPartSectors, SlotBSectors = slotPartSectors,
            PermStart = ?perm, PermSectors = perm\<rparr>)"
    unfolding LayoutForDisk_def Let_def total_def perm_def by (rule refl)
  have small: "unat sizeBytes < 6711934976" if "unat total < 13109248"
    using that t div_less_iff_less_mult [of 512 "unat sizeBytes" 13109248] by (simp add: min_def split: if_splits)
  have big: "unat sizeBytes \<ge> 6711934976" if "unat total \<ge> 13109248"
    using that t less_eq_div_iff_mult_less_eq [of 512 13109248 "unat sizeBytes"] by (simp add: min_def split: if_splits)
  have sz: "unat bootPartStart = 2048" "unat bootPartSectors = 524288" "unat slotPartSectors = 4194304"
    by (simp_all add: bootPartStart_def bootPartSectors_def slotPartSectors_def bootPartSizeMiB_def slotPartSizeMiB_def)
  consider "unat total \<le> 8914944" | "unat total > 8914944" "unat perm < 4194304"
    | "unat total > 8914944" "unat perm \<ge> 4194304" by linarith
  then show ?thesis
  proof cases
    case 1
    then show ?thesis unfolding L le lt using small by simp
  next
    case 2
    then have "unat total < 13109248" using u by linarith
    then show ?thesis unfolding L le lt using 2 small by simp
  next
    case 3
    then have "unat total \<ge> 13109248" using u by linarith
    moreover have "8914944 + unat perm = min (unat sizeBytes div 512) (2 ^ 32 - 1)" using u 3 t by linarith
    ultimately show ?thesis unfolding L le lt using 3 big layout_constants(1-3) sz by simp
  qed
qed

text \<open>C20: the layout of a disk. It exists exactly for disks of at least 6711934976 bytes. The four
  partitions then follow each other without gap or overlap from sector 2048 on, the
  boot and slot partitions have 256 MiB and 2048 MiB, the last one at least 2048 MiB, and the
  table ends at the end of the disk or at the last sector that 32 bits can address.\<close>

theorem LayoutForDisk_fits:
  "case LayoutForDisk sizeBytes of
     Inl _ \<Rightarrow> unat sizeBytes < 6711934976
   | Inr l \<Rightarrow> unat sizeBytes \<ge> 6711934976 \<and> unat (BootStart l) = 2048 \<and> unat (BootSectors l) = 256 * 2048 \<and>
       unat (SlotASectors l) = 2048 * 2048 \<and> unat (SlotBSectors l) = 2048 * 2048 \<and>
       unat (PermSectors l) \<ge> 2048 * 2048 \<and>
       unat (SlotAStart l) = unat (BootStart l) + unat (BootSectors l) \<and>
       unat (SlotBStart l) = unat (SlotAStart l) + unat (SlotASectors l) \<and>
       unat (PermStart l) = unat (SlotBStart l) + unat (SlotBSectors l) \<and>
       unat (PermStart l) + unat (PermSectors l) = min (unat sizeBytes div 512) (2 ^ 32 - 1)"
  by (rule LayoutForDisk_cases)

section \<open>The master boot record reads back\<close>

lemma length_PutUint32 [simp]: "length (PutUint32 off v m) = length m"
  by (simp add: PutUint32_def)

lemma length_put_part [simp]: "length (put_part off p m) = length m"
  by (simp add: put_part_def Let_def)

lemma PutUint32_other: "j < off \<or> off + 3 < j \<Longrightarrow> PutUint32 off v m ! j = m ! j"
  by (auto simp: PutUint32_def)

lemma put_part_other: "j < off \<or> off + 15 < j \<Longrightarrow> put_part off p m ! j = m ! j"
  by (auto simp: put_part_def Let_def PutUint32_other)

lemma le32_cong:
  "m ! off = m' ! off \<Longrightarrow> m ! (off + 1) = m' ! (off + 1) \<Longrightarrow> m ! (off + 2) = m' ! (off + 2) \<Longrightarrow>
   m ! (off + 3) = m' ! (off + 3) \<Longrightarrow> le32 off m = le32 off m'"
  by (simp add: le32_def)

lemma bytes_of_word:
  "(ucast (ucast v :: 8 word) OR push_bit 8 (ucast (ucast (drop_bit 8 v) :: 8 word)) OR
    push_bit 16 (ucast (ucast (drop_bit 16 v) :: 8 word)) OR
    push_bit 24 (ucast (ucast (drop_bit 24 v) :: 8 word))) = (v :: 32 word)" (is "?l = v")
proof (rule bit_word_eqI)
  fix n assume "n < LENGTH(32)"
  then have n: "n < 32" by simp
  consider "n < 8" | "8 \<le> n" "n < 16" | "16 \<le> n" "n < 24" | "24 \<le> n" using n by linarith
  then show "bit ?l n = bit v n"
    using n by cases (auto simp: bit_or_iff bit_push_bit_iff bit_ucast_iff bit_drop_bit_eq)
qed

lemma le32_PutUint32: "off + 3 < length m \<Longrightarrow> le32 off (PutUint32 off v m) = v"
  by (simp add: le32_def PutUint32_def bytes_of_word)

definition part_at :: "nat \<Rightarrow> device \<Rightarrow> mbr_part" where
  "part_at off m = \<lparr>mp_typ = m ! (off + 4), mp_start = le32 (off + 8) m, mp_size = le32 (off + 12) m,
      mp_bootable = (m ! off = 0x80)\<rparr>"

lemma read_part_at: "read_part i m = part_at (0x1BE + i * 16) m"
  by (simp add: read_part_def part_at_def Let_def)

lemma part_at_cong: "(\<And>j. off \<le> j \<Longrightarrow> j \<le> off + 15 \<Longrightarrow> m ! j = m' ! j) \<Longrightarrow> part_at off m = part_at off m'"
  unfolding part_at_def by (intro mbr_part.equality) (auto intro!: le32_cong)

lemma part_at_put_part:
  assumes "off + 15 < length m" "m ! off = 0"
  shows "part_at off (put_part off p m) = p"
proof -
  define m2 where "m2 = (if mp_bootable p then m[off := 0x80] else m)[off + 1 := 0xFE, off + 2 := 0xFF,
      off + 3 := 0xFF, off + 4 := mp_typ p, off + 5 := 0xFE, off + 6 := 0xFF, off + 7 := 0xFF]"
  have l: "length m2 = length m" by (simp add: m2_def)
  have pp: "put_part off p m = PutUint32 (off + 12) (mp_size p) (PutUint32 (off + 8) (mp_start p) m2)"
    by (simp add: put_part_def Let_def m2_def)
  have "le32 (off + 8) (PutUint32 (off + 12) (mp_size p) (PutUint32 (off + 8) (mp_start p) m2)) = mp_start p"
    using assms(1) l le32_PutUint32 [of "off + 8" m2 "mp_start p"]
    by (subst le32_cong [where m' = "PutUint32 (off + 8) (mp_start p) m2"]) (simp_all add: PutUint32_other)
  moreover have "le32 (off + 12) (PutUint32 (off + 12) (mp_size p) (PutUint32 (off + 8) (mp_start p) m2)) = mp_size p"
    using assms(1) l by (simp add: le32_PutUint32)
  moreover have "m2 ! (off + 4) = mp_typ p" "m2 ! off = 0x80 \<longleftrightarrow> mp_bootable p"
    using assms by (simp_all add: m2_def)
  ultimately show ?thesis
    unfolding part_at_def pp by (intro mbr_part.equality) (simp_all add: PutUint32_other)
qed

lemma build_mbr_layers:
  "build_mbr l =
    (let m0 = PutUint32 0x1B8 CapsuleMBRSig (replicate 512 0);
         m1 = put_part 446 (mbr_parts l ! 0) m0; m2 = put_part 462 (mbr_parts l ! 1) m1;
         m3 = put_part 478 (mbr_parts l ! 2) m2; m4 = put_part 494 (mbr_parts l ! 3) m3
     in m4[510 := 0x55, 511 := 0xAA])"
  by (simp add: build_mbr_def mbr_parts_def Let_def)

lemma build_mbr_facts:
  "length (build_mbr l) = 512"
  "read_part 0 (build_mbr l) = mbr_parts l ! 0" "read_part 1 (build_mbr l) = mbr_parts l ! 1"
  "read_part 2 (build_mbr l) = mbr_parts l ! 2" "read_part 3 (build_mbr l) = mbr_parts l ! 3"
  "build_mbr l ! 0x1B8 = 0xff" "build_mbr l ! 0x1B9 = 0x70" "build_mbr l ! 0x1BA = 0xa5" "build_mbr l ! 0x1BB = 0xb1"
  "build_mbr l ! 510 = 0x55" "build_mbr l ! 511 = 0xAA"
proof -
  define m0 :: device where "m0 = PutUint32 0x1B8 CapsuleMBRSig (replicate 512 0)"
  define m1 where "m1 = put_part 446 (mbr_parts l ! 0) m0"
  define m2 where "m2 = put_part 462 (mbr_parts l ! 1) m1"
  define m3 where "m3 = put_part 478 (mbr_parts l ! 2) m2"
  define m4 where "m4 = put_part 494 (mbr_parts l ! 3) m3"
  have b: "build_mbr l = m4[510 := 0x55, 511 := 0xAA]"
    unfolding build_mbr_layers Let_def m4_def m3_def m2_def m1_def m0_def by (rule refl)
  have len: "length m0 = 512" "length m1 = 512" "length m2 = 512" "length m3 = 512" "length m4 = 512"
    by (simp_all add: m0_def m1_def m2_def m3_def m4_def)
  have z: "m0 ! j = 0" if "444 \<le> j" "j < 512" for j using that by (simp add: m0_def PutUint32_other)
  have o1: "m1 ! j = m0 ! j" if "j < 446 \<or> 461 < j" for j using that by (simp add: m1_def put_part_other)
  have o2: "m2 ! j = m1 ! j" if "j < 462 \<or> 477 < j" for j using that by (simp add: m2_def put_part_other)
  have o3: "m3 ! j = m2 ! j" if "j < 478 \<or> 493 < j" for j using that by (simp add: m3_def put_part_other)
  have o4: "m4 ! j = m3 ! j" if "j < 494 \<or> 509 < j" for j using that by (simp add: m4_def put_part_other)
  have p1: "part_at 446 m1 = mbr_parts l ! 0"
    unfolding m1_def by (rule part_at_put_part) (simp_all add: len z)
  have p2: "part_at 462 m2 = mbr_parts l ! 1"
    unfolding m2_def by (rule part_at_put_part) (simp_all add: len o1 z)
  have p3: "part_at 478 m3 = mbr_parts l ! 2"
    unfolding m3_def by (rule part_at_put_part) (simp_all add: len o1 o2 z)
  have p4: "part_at 494 m4 = mbr_parts l ! 3"
    unfolding m4_def by (rule part_at_put_part) (simp_all add: len o1 o2 o3 z)
  show "length (build_mbr l) = 512" by (simp add: b len)
  show "read_part 0 (build_mbr l) = mbr_parts l ! 0"
    unfolding p1 [symmetric] read_part_at b by simp (rule part_at_cong, simp add: o2 o3 o4)
  show "read_part 1 (build_mbr l) = mbr_parts l ! 1"
    unfolding p2 [symmetric] read_part_at b by simp (rule part_at_cong, simp add: o3 o4)
  show "read_part 2 (build_mbr l) = mbr_parts l ! 2"
    unfolding p3 [symmetric] read_part_at b by simp (rule part_at_cong, simp add: o4)
  show "read_part 3 (build_mbr l) = mbr_parts l ! 3"
    unfolding p4 [symmetric] read_part_at b by simp (rule part_at_cong, simp)
  show "build_mbr l ! 0x1B8 = 0xff" "build_mbr l ! 0x1B9 = 0x70" "build_mbr l ! 0x1BA = 0xa5" "build_mbr l ! 0x1BB = 0xb1"
    by (simp_all add: b o1 o2 o3 o4) (simp_all add: m0_def PutUint32_def CapsuleMBRSig_def)
  show "build_mbr l ! 510 = 0x55" "build_mbr l ! 511 = 0xAA" by (simp_all add: b len)
qed

lemma hex_example:
  "hex_byte 0xb1 = ''b1''" "hex_byte 0xa5 = ''a5''" "hex_byte 0x70 = ''70''" "hex_byte 0xff = ''ff''"
  by code_simp+

text \<open>C21: the partition table written to a disk reads back. On a healthy disk of at least 512 bytes the write
  succeeds and changes only the first sector. The four entries hold type, start, size and boot flag of the
  layout's partitions, the sector ends with the boot signature, and the disk signature is the one
  by which the boot code recognises an installed disk.\<close>

theorem WriteMBR_reads_back:
  assumes "512 \<le> length d"
  shows "\<exists>d'. WriteMBR healthy l d = (Inr (), d') \<and> length d' = length d \<and> drop 512 d' = drop 512 d \<and>
    read_part 0 d' = \<lparr>mp_typ = 0xEF, mp_start = BootStart l, mp_size = BootSectors l, mp_bootable = True\<rparr> \<and>
    read_part 1 d' = \<lparr>mp_typ = 0x83, mp_start = SlotAStart l, mp_size = SlotASectors l, mp_bootable = False\<rparr> \<and>
    read_part 2 d' = \<lparr>mp_typ = 0x83, mp_start = SlotBStart l, mp_size = SlotBSectors l, mp_bootable = False\<rparr> \<and>
    read_part 3 d' = \<lparr>mp_typ = 0x8E, mp_start = PermStart l, mp_size = PermSectors l, mp_bootable = False\<rparr> \<and>
    d' ! 510 = 0x55 \<and> d' ! 511 = 0xAA \<and> readMBRDiskSig (Inr d') = Inr ''b1a570ff''"
proof -
  let ?d = "build_mbr l @ drop 512 d"
  note f = build_mbr_facts [of l]
  have w: "WriteMBR healthy l d = (Inr (), ?d)"
    using assms by (simp add: WriteMBR_def dev_write_def blit_def healthy_def f(1))
  have n: "?d ! j = build_mbr l ! j" if "j < 512" for j using that by (simp add: nth_append f(1))
  have r: "read_part i ?d = read_part i (build_mbr l)" if "i < 4" for i
    unfolding read_part_at by (rule part_at_cong) (use that in \<open>simp add: n\<close>)
  have sig: "readMBRDiskSig (Inr ?d) = Inr ''b1a570ff''"
    using assms hex_example by (simp add: readMBRDiskSig_def f n)
  show ?thesis
    using f r [of 0] r [of 1] r [of 2] r [of 3] n [of 510] n [of 511] sig assms w
    by (intro exI [of _ ?d]) (simp add: mbr_parts_def partTypeESP_def partTypeLinux_def partTypeLVM_def)
qed

definition example_layout :: layout where
  "example_layout = \<lparr>BootStart = 2048, BootSectors = 524288, SlotAStart = 526336, SlotASectors = 4194304,
     SlotBStart = 4720640, SlotBSectors = 4194304, PermStart = 8914944, PermSectors = 4194304\<rparr>"

theorem WriteMBR_reads_back_witness:
  "\<exists>d'. WriteMBR healthy example_layout (replicate 1024 7) = (Inr (), d') \<and> readMBRDiskSig (Inr d') = Inr ''b1a570ff'' \<and>
     mp_start (read_part 3 d') = 8914944"
  using WriteMBR_reads_back [of "replicate 1024 7" example_layout] by (auto simp: example_layout_def)

section \<open>Copying a partition\<close>

definition chunkBytes :: nat where "chunkBytes = 4 * 1024 * 1024"

text \<open>A full read without an error delivers what was asked for.\<close>

lemma read_full_complete: "read_full io off want d = (bs, None) \<Longrightarrow> length bs = want"
  unfolding read_full_def Let_def by (auto split: option.splits if_splits)

text \<open>The loop: the bytes copied so far, the count at the last progress report, the target and the
  reports made.\<close>

function copy_loop ::
  "dev_io \<Rightarrow> device \<Rightarrow> nat \<Rightarrow> dev_io \<Rightarrow> nat \<Rightarrow> nat \<Rightarrow> nat \<Rightarrow> nat \<Rightarrow> device \<Rightarrow> (nat \<times> nat) list \<Rightarrow>
   nat result \<times> device \<times> (nat \<times> nat) list" where
  "copy_loop sio src sOff dio dOff totalBytes copied tick dst prog =
    (if copied < totalBytes then
       let remaining = totalBytes - copied;
           want = (if remaining < chunkBytes then remaining else chunkBytes)
       in case read_full sio (sOff + copied) want src of (bs, rerr) \<Rightarrow>
          (case (if bs = [] then (None, dst) else dev_write dio (dOff + copied) bs dst) of
             (Some werr, dst') \<Rightarrow> (Inl (Wrap ''write dst'' werr), dst', prog)
           | (None, dst') \<Rightarrow>
              let copied' = copied + length bs;
                  report = (bs \<noteq> [] \<and> copied' - tick \<ge> 16 * 1024 * 1024);
                  prog' = (if report then prog @ [(copied', totalBytes)] else prog);
                  tick' = (if report then copied' else tick)
              in case rerr of
                   None \<Rightarrow> copy_loop sio src sOff dio dOff totalBytes copied' tick' dst' prog'
                 | Some e \<Rightarrow>
                    if e = io_EOF \<or> e = io_ErrUnexpectedEOF then (Inr copied', dst', prog')
                    else (Inl (Wrap ''read src'' e), dst', prog'))
     else (Inr copied, dst, prog))"
  by pat_completeness auto

termination
proof (relation "measure (\<lambda>(sio, src, sOff, dio, dOff, totalBytes, copied, tick, dst, prog). totalBytes - copied)", goal_cases)
  case (2 sio src sOff dio dOff totalBytes copied tick dst prog remaining want bs rerr werr dst' copied' report prog' tick')
  then have "length bs = want" using read_full_complete [of sio "sOff + copied" want src bs] by simp
  moreover have "0 < want" using 2(1-3) by (simp add: chunkBytes_def)
  ultimately have "totalBytes - copied' < totalBytes - copied" using 2(1,7) by linarith
  then show ?case by (simp only: in_measure prod.case)
qed simp

declare copy_loop.simps [simp del]

definition CopyPartition ::
  "dev_io \<Rightarrow> device \<Rightarrow> 32 word \<Rightarrow> dev_io \<Rightarrow> 32 word \<Rightarrow> 32 word \<Rightarrow> device \<Rightarrow>
   unit result \<times> device \<times> (nat \<times> nat) list" where
  "CopyPartition sio src srcStart dio dstStart cnt dst =
    (case dv_open sio of
       Some e \<Rightarrow> (Inl (Wrap ''open src'' e), dst, [])
     | None \<Rightarrow>
    (case dv_open dio of
       Some e \<Rightarrow> (Inl (Wrap ''open dst'' e), dst, [])
     | None \<Rightarrow>
    (case dv_seek sio of
       Some e \<Rightarrow> (Inl (Wrap ''seek src'' e), dst, [])
     | None \<Rightarrow>
    (case dv_seek dio of
       Some e \<Rightarrow> (Inl (Wrap ''seek dst'' e), dst, [])
     | None \<Rightarrow>
    (let totalBytes = unat cnt * 512 in
     case copy_loop sio src (unat srcStart * 512) dio (unat dstStart * 512) totalBytes 0 0 dst [] of
       (Inl e, dst', prog) \<Rightarrow> (Inl e, dst', prog)
     | (Inr copied, dst', prog) \<Rightarrow>
        (case dv_sync dio of
           Some e \<Rightarrow> (Inl (Wrap ''sync dst'' e), dst', prog)
         | None \<Rightarrow> (Inr (), dst', prog @ [(copied, totalBytes)])))))))"

text \<open>One round of the loop on healthy devices.\<close>

lemma copy_loop_step:
  assumes "copied < totalBytes" "dOff + totalBytes \<le> length dst"
    and want: "want = min chunkBytes (totalBytes - copied)" and bs: "bs = take want (drop (sOff + copied) src)"
  shows "\<exists>tick' prog'. copy_loop healthy src sOff healthy dOff totalBytes copied tick dst prog =
    (if length bs < want then (Inr (copied + length bs), blit (dOff + copied) bs dst, prog')
     else copy_loop healthy src sOff healthy dOff totalBytes (copied + length bs) tick' (blit (dOff + copied) bs dst) prog')"
proof -
  have w: "(if totalBytes - copied < chunkBytes then totalBytes - copied else chunkBytes) = want"
    using want by auto
  have le: "length bs \<le> length dst - (dOff + copied)" using assms(1,2) bs want by auto
  then have wr: "(if bs = [] then (None, dst) else dev_write healthy (dOff + copied) bs dst) =
      (None, blit (dOff + copied) bs dst)"
    by (simp add: dev_write_def healthy_def blit_def)
  have rd: "read_full healthy (sOff + copied) want src = (bs, if length bs = want then None
      else if bs = [] then Some io_EOF else Some io_ErrUnexpectedEOF)"
    by (simp add: read_full_def healthy_def bs Let_def)
  have ne: "length bs \<le> want" by (simp add: bs)
  show ?thesis
    apply (subst copy_loop.simps)
    unfolding w Let_def rd prod.case wr option.simps
    using assms(1) ne by (cases "length bs = want"; cases "bs = []") auto
qed

lemma length_blit: "off + length bs \<le> length d \<Longrightarrow> length (blit off bs d) = length d"
  by (simp add: blit_def)

lemma blit_blit: "off + length xs \<le> length d \<Longrightarrow>
   blit (off + length xs) ys (blit off xs d) = blit off (xs @ ys) d"
  by (simp add: blit_def ac_simps)

text \<open>The loop computes the copy of the whole segment.\<close>

lemma copy_loop_copies:
  assumes room: "dOff + totalBytes \<le> length d"
    and seg: "seg = take totalBytes (drop sOff src)" and c: "copied \<le> length seg"
  shows "\<exists>prog'. copy_loop healthy src sOff healthy dOff totalBytes copied tick (blit dOff (take copied seg) d) prog =
     (Inr (length seg), blit dOff seg d, prog')"
  using c
proof (induction "totalBytes - copied" arbitrary: copied tick prog rule: less_induct)
  case less
  let ?dst = "blit dOff (take copied seg) d"
  define want where "want = min chunkBytes (totalBytes - copied)"
  define bs where "bs = take want (drop (sOff + copied) src)"
  have ls: "length seg \<le> totalBytes" by (simp add: seg)
  have ld: "dOff + totalBytes \<le> length ?dst" using room ls by (simp add: length_blit)
  have bs': "bs = take want (drop copied seg)"
    by (simp add: bs_def seg drop_take want_def min.absorb2 add.commute)
  have next_seg: "take copied seg @ bs = take (copied + length bs) seg"
    unfolding bs' by (metis append_take_drop_id append_eq_conv_conj length_append length_take min.absorb2 less.prems take_add take_take min.commute take_all_iff linear)
  have bl: "blit (dOff + copied) bs ?dst = blit dOff (take (copied + length bs) seg) d"
    using blit_blit [of dOff "take copied seg" d bs] less.prems ls room next_seg by simp
  show ?case
  proof (cases "copied < totalBytes")
    case False
    then have "copied = length seg" using less.prems ls by simp
    then show ?thesis using False by (subst copy_loop.simps) simp
  next
    case True
    have cb: "0 < want" using True by (simp add: want_def chunkBytes_def)
    obtain tick' prog' where step: "copy_loop healthy src sOff healthy dOff totalBytes copied tick ?dst prog =
      (if length bs < want then (Inr (copied + length bs), blit (dOff + copied) bs ?dst, prog')
       else copy_loop healthy src sOff healthy dOff totalBytes (copied + length bs) tick' (blit (dOff + copied) bs ?dst) prog')"
      using copy_loop_step [OF True ld want_def bs_def] by blast
    have lb: "length bs = min want (length seg - copied)" by (simp add: bs')
    show ?thesis
    proof (cases "length bs < want")
      case True
      then have "copied + length bs = length seg" using lb less.prems by simp
      then show ?thesis using step bl True by auto
    next
      case False
      then have "bs \<noteq> []" "length bs = want" using cb lb by auto
      then show ?thesis
        using step bl less.hyps [of "copied + length bs" tick' prog'] True cb lb less.prems
        by (simp add: False)
    qed
  qed
qed

text \<open>copying a partition in chunks is one block copy. On healthy devices with room for the
  requested sectors the copy succeeds, the target holds the source's sectors (all there are, when
  the source is shorter) at the target offset and is otherwise unchanged, and the last
  progress report has the number of bytes copied.\<close>

theorem CopyPartition_copies:
  assumes room: "unat dstStart * 512 + unat cnt * 512 \<le> length dst"
    and seg: "seg = take (unat cnt * 512) (drop (unat srcStart * 512) src)"
  shows "\<exists>prog. CopyPartition healthy src srcStart healthy dstStart cnt dst =
    (Inr (), take (unat dstStart * 512) dst @ seg @ drop (unat dstStart * 512 + length seg) dst,
     prog @ [(length seg, unat cnt * 512)])"
proof -
  have "blit (unat dstStart * 512) (take 0 seg) dst = dst" by (simp add: blit_def)
  then obtain prog where "copy_loop healthy src (unat srcStart * 512) healthy (unat dstStart * 512) (unat cnt * 512) 0 0 dst [] =
      (Inr (length seg), blit (unat dstStart * 512) seg dst, prog)"
    using copy_loop_copies [OF room seg, of 0 0 "[]"] by auto
  moreover have "dv_open healthy = None" "dv_seek healthy = None" "dv_sync healthy = None"
    by (simp_all add: healthy_def)
  ultimately show ?thesis by (simp add: CopyPartition_def Let_def blit_def)
qed

theorem CopyPartition_copies_witness:
  "\<exists>prog. CopyPartition healthy (replicate 700 3) 0 healthy 1 2 (replicate 1600 0) =
    (Inr (), replicate 512 0 @ replicate 700 3 @ replicate 388 0, prog @ [(700, 1024)])"
  using CopyPartition_copies [of 1 2 "replicate 1600 0" _ 0 "replicate 700 3", OF _ refl] by simp

end
