(* ===== verification/Capsule_Boot.thy ===== *)
theory Capsule_Boot
  imports Capsule_Disk
begin

text \<open>
  Duties of process 1, \<^verbatim>\<open>src/boot/boot.go\<close>, \<^verbatim>\<open>src/boot/boot_linux.go\<close> and
  \<^verbatim>\<open>src/boot/install_linux.go\<close>: which disk the machine booted from and where its partitions are,
  whether it should install, the volume group behind \<^verbatim>\<open>/perm\<close>, the network, the host name,
  the console banner, and the order of all this in \<open>initPlatform\<close>.
\<close>

section \<open>The boot disk\<close>

text \<open>\<open>strings.SplitN(s, sep, 2)\<close> at a character: at most two pieces.\<close>

definition split_2 :: "char \<Rightarrow> string \<Rightarrow> string list" where
  "split_2 c s = (let a = takeWhile (\<lambda>x. x \<noteq> c) s in if a = s then [s] else [a, drop (Suc (length a)) s])"

fun find_signature :: "string list \<Rightarrow> string result" where
  "find_signature [] = Inl (Errorf ''no root=PARTUUID in /proc/cmdline'')"
| "find_signature (f # fs) =
    (if has_prefix f ''root=PARTUUID='' then
       (case split_2 CHR ''-'' (trim_prefix f ''root=PARTUUID='') of
          [a, b] \<Rightarrow> Inr (map to_lower a)
        | _ \<Rightarrow> Inl (Errorf ''malformed PARTUUID''))
     else find_signature fs)"

definition bootDiskSignature :: "sysfs \<Rightarrow> string result" where
  "bootDiskSignature S =
    (case sy_cmdline S of
       Inl e \<Rightarrow> Inl (Wrap ''read /proc/cmdline'' e)
     | Inr cmdline \<Rightarrow> find_signature (str_fields cmdline))"

text \<open>The name of the disk that holds a partition: the directory above the partition's.\<close>

definition parent_disk :: "string \<Rightarrow> string" where
  "parent_disk target = path_base (path_dir target)"

fun find_partition :: "sysfs \<Rightarrow> string \<Rightarrow> string \<Rightarrow> string list \<Rightarrow> string result" where
  "find_partition S want wantSig [] = Inl (Errorf ''no partition found with disk signature'')"
| "find_partition S want wantSig (e # es) =
    (case sy_partition S e of
       None \<Rightarrow> find_partition S want wantSig es
     | Some num \<Rightarrow>
        if trim_space num \<noteq> want then find_partition S want wantSig es
        else (case sy_target S e of
           None \<Rightarrow> find_partition S want wantSig es
         | Some target \<Rightarrow>
            (case readMBRDiskSig (sy_dev S (''/dev/'' @ parent_disk target)) of
               Inl _ \<Rightarrow> find_partition S want wantSig es
             | Inr gotSig \<Rightarrow>
                if gotSig = wantSig then Inr (''/dev/'' @ e) else find_partition S want wantSig es)))"

definition FindPartitionByNumber :: "nat \<Rightarrow> sysfs \<Rightarrow> string result" where
  "FindPartitionByNumber partNum S =
    (case bootDiskSignature S of
       Inl e \<Rightarrow> Inl e
     | Inr wantSig \<Rightarrow>
        (case sy_blocks S of
           Inl e \<Rightarrow> Inl e
         | Inr entries \<Rightarrow> find_partition S (itoa partNum) wantSig entries))"

definition findPermPartition :: "sysfs \<Rightarrow> string result" where
  "findPermPartition = FindPartitionByNumber 4"

fun find_disk :: "sysfs \<Rightarrow> string \<Rightarrow> string list \<Rightarrow> string result" where
  "find_disk S wantSig [] = Inl (Errorf ''no whole disk found with signature'')"
| "find_disk S wantSig (e # es) =
    (if sy_partition S e \<noteq> None then find_disk S wantSig es
     else (case readMBRDiskSig (sy_dev S (''/dev/'' @ e)) of
        Inl _ \<Rightarrow> find_disk S wantSig es
      | Inr gotSig \<Rightarrow> if gotSig = wantSig then Inr (''/dev/'' @ e) else find_disk S wantSig es))"

definition BootDisk :: "sysfs \<Rightarrow> string result" where
  "BootDisk S =
    (case bootDiskSignature S of
       Inl e \<Rightarrow> Inl e
     | Inr wantSig \<Rightarrow>
        (case sy_blocks S of
           Inl e \<Rightarrow> Inl e
         | Inr entries \<Rightarrow> find_disk S wantSig entries))"

fun slot_marker :: "string list \<Rightarrow> string" where
  "slot_marker [] = []"
| "slot_marker (f # fs) =
    (if f = ''capsule.slot=a'' then ''slot_a''
     else if f = ''capsule.slot=b'' then ''slot_b''
     else slot_marker fs)"

definition detectActiveSlot :: "sysfs \<Rightarrow> string" where
  "detectActiveSlot S = (case sy_cmdline S of Inl _ \<Rightarrow> [] | Inr t \<Rightarrow> slot_marker (str_fields t))"

section \<open>Installer mode\<close>

definition boot_CapsuleMBRSig :: string where "boot_CapsuleMBRSig = ''b1a570ff''"

definition minTargetSizeBytes :: "64 word" where "minTargetSizeBytes = 16 * 1024 * 1024 * 1024"

record target_disk =
  td_Path :: string
  td_SizeBytes :: "64 word"
  td_Reinstall :: bool

definition cmdlineHasInstallerFlag :: "sysfs \<Rightarrow> bool" where
  "cmdlineHasInstallerFlag S =
    (case sy_cmdline S of Inl _ \<Rightarrow> False | Inr t \<Rightarrow> list_ex (\<lambda>tok. tok = ''capsule.mode=installer'') (str_fields t))"

definition isRemovableBlock :: "sysfs \<Rightarrow> string \<Rightarrow> bool" where
  "isRemovableBlock S name = (case sy_removable S name of None \<Rightarrow> False | Some b \<Rightarrow> trim_space b = ''1'')"

definition isVirtualBlock :: "sysfs \<Rightarrow> string \<Rightarrow> bool" where
  "isVirtualBlock S name =
    (case sy_target S name of None \<Rightarrow> False | Some target \<Rightarrow> str_contains target ''/devices/virtual/'')"

definition blockSizeBytes :: "sysfs \<Rightarrow> string \<Rightarrow> 64 word option" where
  "blockSizeBytes S name =
    (case sy_size S name of
       None \<Rightarrow> None
     | Some b \<Rightarrow> map_option (\<lambda>n. word_of_nat n * 512) (parse_uint 64 (trim_space b)))"

definition hasCapsuleMBR :: "sysfs \<Rightarrow> string \<Rightarrow> bool" where
  "hasCapsuleMBR S devPath = (readMBRDiskSig (sy_dev S devPath) = Inr boot_CapsuleMBRSig)"

fun scan_targets :: "sysfs \<Rightarrow> string \<Rightarrow> string list \<Rightarrow> target_disk list" where
  "scan_targets S bootBase [] = []"
| "scan_targets S bootBase (name # es) =
    (if name = bootBase \<or> sy_partition S name \<noteq> None \<or> isVirtualBlock S name \<or> isRemovableBlock S name
     then scan_targets S bootBase es
     else (case blockSizeBytes S name of
        None \<Rightarrow> scan_targets S bootBase es
      | Some sz \<Rightarrow>
         if sz < minTargetSizeBytes then scan_targets S bootBase es
         else \<lparr>td_Path = ''/dev/'' @ name, td_SizeBytes = sz, td_Reinstall = hasCapsuleMBR S (''/dev/'' @ name)\<rparr>
              # scan_targets S bootBase es))"

definition scanTargetDisks :: "bool \<Rightarrow> sysfs \<Rightarrow> target_disk list" where
  "scanTargetDisks skipBootDisk S =
    (let bootBase = (if skipBootDisk then (case BootDisk S of Inl _ \<Rightarrow> [] | Inr dev \<Rightarrow> path_base dev) else [])
     in case sy_blocks S of Inl _ \<Rightarrow> [] | Inr entries \<Rightarrow> scan_targets S bootBase entries)"

definition DetectInstallerMode :: "sysfs \<Rightarrow> bool \<times> target_disk list" where
  "DetectInstallerMode S =
    (if cmdlineHasInstallerFlag S then (True, scanTargetDisks False S)
     else (case BootDisk S of
        Inl _ \<Rightarrow> (False, [])
      | Inr bootDev \<Rightarrow>
         if \<not> isRemovableBlock S (path_base bootDev) then (False, [])
         else let targets = scanTargetDisks True S in
              if targets = [] then (False, []) else (True, targets)))"

subsection \<open>What the scans return\<close>

text \<open>Whether an entry is partition \<open>want\<close> of a disk with the given signature.\<close>

definition partition_of :: "sysfs \<Rightarrow> string \<Rightarrow> string \<Rightarrow> string \<Rightarrow> string \<Rightarrow> bool" where
  "partition_of S want wantSig disk e \<longleftrightarrow>
     (\<exists>num target. sy_partition S e = Some num \<and> trim_space num = want \<and>
        sy_target S e = Some target \<and> parent_disk target = disk) \<and>
     readMBRDiskSig (sy_dev S (''/dev/'' @ disk)) = Inr wantSig"

definition whole_disk :: "sysfs \<Rightarrow> string \<Rightarrow> string \<Rightarrow> bool" where
  "whole_disk S wantSig d \<longleftrightarrow>
     sy_partition S d = None \<and> readMBRDiskSig (sy_dev S (''/dev/'' @ d)) = Inr wantSig"

text \<open>Both loops return the first entry that fits.\<close>

lemma find_partition_find:
  "find_partition S want wantSig es =
    (case List.find (\<lambda>e. \<exists>disk. partition_of S want wantSig disk e) es of
       None \<Rightarrow> Inl (Errorf ''no partition found with disk signature'') | Some e \<Rightarrow> Inr (''/dev/'' @ e))"
proof (induction es)
  case (Cons e es)
  have "find_partition S want wantSig (e # es) =
    (if \<exists>disk. partition_of S want wantSig disk e then Inr (''/dev/'' @ e) else find_partition S want wantSig es)"
    by (auto simp: partition_of_def split: option.split sum.split)
  then show ?case unfolding Cons by simp
qed simp

lemma find_disk_find:
  "find_disk S wantSig es =
    (case List.find (whole_disk S wantSig) es of
       None \<Rightarrow> Inl (Errorf ''no whole disk found with signature'') | Some e \<Rightarrow> Inr (''/dev/'' @ e))"
proof (induction es)
  case (Cons e es)
  have "find_disk S wantSig (e # es) =
    (if whole_disk S wantSig e then Inr (''/dev/'' @ e) else find_disk S wantSig es)"
    by (auto simp: whole_disk_def split: sum.split)
  then show ?case unfolding Cons by simp
qed simp

text \<open>the partitions are looked up on the boot disk. When one disk carries the signature of the kernel
  command line and partitions lie below whole disks, that disk is the boot disk, and
  looking up a partition number returns the partition of this number on it, or fails when it has none,
  whatever the names of the devices and the order of the listing.\<close>

theorem FindPartitionByNumber_on_boot_disk:
  assumes sig: "bootDiskSignature S = Inr sig" and names: "sy_blocks S = Inr names"
    and disk: "disk \<in> set names" "whole_disk S sig disk" "\<forall>d. whole_disk S sig d \<longrightarrow> d = disk"
    and tree: "\<forall>e\<in>set names. \<forall>t. sy_partition S e \<noteq> None \<and> sy_target S e = Some t \<longrightarrow>
      sy_partition S (parent_disk t) = None"
  shows "BootDisk S = Inr (''/dev/'' @ disk) \<and>
    (case FindPartitionByNumber n S of
       Inr p \<Rightarrow> \<exists>e\<in>set names. p = ''/dev/'' @ e \<and> partition_of S (itoa n) sig disk e
     | Inl _ \<Rightarrow> \<not> (\<exists>e\<in>set names. partition_of S (itoa n) sig disk e))"
proof -
  have "List.find (whole_disk S sig) names = Some disk"
  proof (cases "List.find (whole_disk S sig) names")
    case None
    then show ?thesis using disk(1,2) by (auto simp: find_None_iff)
  next
    case (Some d)
    then have "whole_disk S sig d" by (auto simp: find_Some_iff)
    then show ?thesis using disk(3) Some by simp
  qed
  then have B: "BootDisk S = Inr (''/dev/'' @ disk)"
    using sig names by (simp add: BootDisk_def find_disk_find)
  have only: "d = disk" if "e \<in> set names" "partition_of S (itoa n) sig d e" for d e
  proof -
    have "whole_disk S sig d" using that tree by (auto simp: partition_of_def whole_disk_def)
    then show ?thesis using disk(3) by simp
  qed
  have F: "FindPartitionByNumber n S =
    (case List.find (\<lambda>e. \<exists>d. partition_of S (itoa n) sig d e) names of
       None \<Rightarrow> Inl (Errorf ''no partition found with disk signature'') | Some e \<Rightarrow> Inr (''/dev/'' @ e))"
    using sig names by (simp add: FindPartitionByNumber_def find_partition_find)
  show ?thesis
  proof (cases "List.find (\<lambda>e. \<exists>d. partition_of S (itoa n) sig d e) names")
    case None
    then have "\<not> (\<exists>e\<in>set names. partition_of S (itoa n) sig disk e)" by (auto simp: find_None_iff)
    then show ?thesis unfolding F None option.case sum.case using B by blast
  next
    case (Some e)
    then obtain d where "e \<in> set names" "partition_of S (itoa n) sig d e"
      by (auto simp: find_Some_iff)
    then have "\<exists>e'\<in>set names. ''/dev/'' @ e = ''/dev/'' @ e' \<and> partition_of S (itoa n) sig disk e'"
      using only by blast
    then show ?thesis unfolding F Some option.case sum.case using B by blast
  qed
qed

text \<open>A machine with a data disk and an NVMe disk with the four partitions of a capsule.\<close>

definition example_disk_with :: "string \<Rightarrow> 8 word list \<Rightarrow> device result" where
  "example_disk_with d sig = Inr (replicate 440 0 @ sig @ replicate 68 0)"

definition example_sysfs :: sysfs where
  "example_sysfs =
    \<lparr>sy_cmdline = Inr ''root=PARTUUID=B1A570FF-02 ro capsule.slot=a'', sy_mounts = Inr [],
     sy_blocks = Inr [''nvme0n1'', ''nvme0n1p2'', ''nvme0n1p4'', ''sda'', ''sda1''],
     sy_partition = (\<lambda>e. map_of [(''nvme0n1p2'', ''2''), (''nvme0n1p4'', ''4''), (''sda1'', ''1'')] e),
     sy_target = (\<lambda>e. map_of [(''nvme0n1p2'', ''/sys/devices/pci0/nvme0n1/nvme0n1p2''),
       (''nvme0n1p4'', ''/sys/devices/pci0/nvme0n1/nvme0n1p4''), (''sda1'', ''/sys/devices/pci0/sda/sda1'')] e),
     sy_removable = (\<lambda>_. Some ''0''), sy_size = (\<lambda>_. Some ''50000000''),
     sy_dev = (\<lambda>p. if p = ''/dev/nvme0n1'' then example_disk_with p [0xff, 0x70, 0xa5, 0xb1]
       else if p = ''/dev/sda'' then example_disk_with p [1, 2, 3, 4] else Inl (Errorf ''no such device'')),
     sy_nets = Inr [''eth0'', ''lo''], sy_address = (\<lambda>_. None)\<rparr>"

lemma example_sysfs_sigs:
  "bootDiskSignature example_sysfs = Inr ''b1a570ff''"
  "readMBRDiskSig (sy_dev example_sysfs p) =
    (if p = ''/dev/nvme0n1'' then Inr ''b1a570ff'' else if p = ''/dev/sda'' then Inr ''04030201''
     else Inl (Errorf ''no such device''))"
proof -
  show "bootDiskSignature example_sysfs = Inr ''b1a570ff''" by code_simp
  have "readMBRDiskSig (example_disk_with p [0xff, 0x70, 0xa5, 0xb1]) = Inr ''b1a570ff''"
    "readMBRDiskSig (example_disk_with p [1, 2, 3, 4]) = Inr ''04030201''" for p
    by code_simp+
  then show "readMBRDiskSig (sy_dev example_sysfs p) =
    (if p = ''/dev/nvme0n1'' then Inr ''b1a570ff'' else if p = ''/dev/sda'' then Inr ''04030201''
     else Inl (Errorf ''no such device''))"
    by (simp add: example_sysfs_def readMBRDiskSig_def)
qed

lemma example_sysfs_fields:
  "sy_blocks example_sysfs = Inr [''nvme0n1'', ''nvme0n1p2'', ''nvme0n1p4'', ''sda'', ''sda1'']"
  "sy_partition example_sysfs ''nvme0n1'' = None" "sy_partition example_sysfs ''nvme0n1p2'' = Some ''2''"
  "sy_partition example_sysfs ''nvme0n1p4'' = Some ''4''"
  "sy_target example_sysfs ''nvme0n1p4'' = Some ''/sys/devices/pci0/nvme0n1/nvme0n1p4''"
  "parent_disk ''/sys/devices/pci0/nvme0n1/nvme0n1p4'' = ''nvme0n1''"
  "trim_space ''2'' = ''2''" "trim_space ''4'' = ''4''" "itoa 4 = ''4''"
  by code_simp+

lemma example_sysfs_disk:
  "whole_disk example_sysfs ''b1a570ff'' d \<longleftrightarrow> d = ''nvme0n1''"
  by (auto simp: whole_disk_def example_sysfs_sigs) (simp_all add: example_sysfs_def)

theorem FindPartitionByNumber_on_boot_disk_witness:
  "BootDisk example_sysfs = Inr ''/dev/nvme0n1'' \<and> FindPartitionByNumber 4 example_sysfs = Inr ''/dev/nvme0n1p4'' \<and>
   partition_of example_sysfs (itoa 4) ''b1a570ff'' ''nvme0n1'' ''nvme0n1p4''"
proof -
  have "sy_blocks example_sysfs = Inr [''nvme0n1'', ''nvme0n1p2'', ''nvme0n1p4'', ''sda'', ''sda1'']"
    by (simp add: example_sysfs_def)
  note T = FindPartitionByNumber_on_boot_disk [OF example_sysfs_sigs(1) this, of "''nvme0n1''" 4]
  have tree: "\<forall>e\<in>set [''nvme0n1'', ''nvme0n1p2'', ''nvme0n1p4'', ''sda'', ''sda1'']. \<forall>t.
      sy_partition example_sysfs e \<noteq> None \<and> sy_target example_sysfs e = Some t \<longrightarrow>
      sy_partition example_sysfs (parent_disk t) = None"
    by (simp add: example_sysfs_def) code_simp
  have F: "FindPartitionByNumber 4 example_sysfs = Inr ''/dev/nvme0n1p4''"
    unfolding FindPartitionByNumber_def example_sysfs_sigs(1)
    by (simp add: example_sysfs_sigs(2) example_sysfs_fields)
  have "BootDisk example_sysfs = Inr (''/dev/'' @ ''nvme0n1'') \<and>
    (\<exists>e\<in>set [''nvme0n1'', ''nvme0n1p2'', ''nvme0n1p4'', ''sda'', ''sda1'']. ''/dev/nvme0n1p4'' = ''/dev/'' @ e \<and>
       partition_of example_sysfs (itoa 4) ''b1a570ff'' ''nvme0n1'' e)"
    by (rule T [OF _ _ _ tree, unfolded F sum.case]) (simp_all add: example_sysfs_disk)
  then show ?thesis using F by simp
qed

subsection \<open>Installation targets\<close>

lemma scan_targets_mem:
  "t \<in> set (scan_targets S b es) \<Longrightarrow>
   \<exists>name\<in>set es. td_Path t = ''/dev/'' @ name \<and> name \<noteq> b \<and> sy_partition S name = None \<and> \<not> isVirtualBlock S name \<and>
     \<not> isRemovableBlock S name \<and> blockSizeBytes S name = Some (td_SizeBytes t) \<and>
     td_SizeBytes t \<ge> minTargetSizeBytes \<and> td_Reinstall t = hasCapsuleMBR S (td_Path t)"
proof (induction es)
  case (Cons name es)
  show ?case
  proof (cases "t \<in> set (scan_targets S b es)")
    case True
    then show ?thesis using Cons.IH by auto
  next
    case False
    then show ?thesis using Cons.prems by (auto simp: not_less split: if_splits option.splits)
  qed
qed simp

text \<open>what may be installed onto. In installer mode every candidate is a listed whole disk that is
  neither virtual nor removable, its recorded size is the kernel's and at least 16 GiB, and it is marked for
  reinstallation exactly when it carries a capsule's signature. Without the installer flag on the
  command line the machine moreover runs from a removable disk that is no candidate.\<close>

theorem DetectInstallerMode_targets:
  assumes detect: "DetectInstallerMode S = (True, targets)" and t: "t \<in> set targets"
  shows "\<exists>names name. sy_blocks S = Inr names \<and> name \<in> set names \<and> td_Path t = ''/dev/'' @ name \<and>
    sy_partition S name = None \<and> \<not> isVirtualBlock S name \<and> \<not> isRemovableBlock S name \<and>
    blockSizeBytes S name = Some (td_SizeBytes t) \<and> 2 ^ 34 \<le> unat (td_SizeBytes t) \<and>
    (td_Reinstall t \<longleftrightarrow> readMBRDiskSig (sy_dev S (td_Path t)) = Inr ''b1a570ff'') \<and>
    (cmdlineHasInstallerFlag S \<or>
     (\<exists>bootDev. BootDisk S = Inr bootDev \<and> isRemovableBlock S (path_base bootDev) \<and> path_base bootDev \<noteq> name))"
proof -
  obtain skip where s: "targets = scanTargetDisks skip S"
    "cmdlineHasInstallerFlag S \<or> skip \<and> (\<exists>bootDev. BootDisk S = Inr bootDev \<and> isRemovableBlock S (path_base bootDev))"
    using detect by (auto simp: DetectInstallerMode_def Let_def split: if_splits sum.splits)
  obtain names where names: "sy_blocks S = Inr names"
    using s t by (cases "sy_blocks S") (auto simp: scanTargetDisks_def)
  define b where "b = (if skip then (case BootDisk S of Inl _ \<Rightarrow> [] | Inr dev \<Rightarrow> path_base dev) else [])"
  have "t \<in> set (scan_targets S b names)"
    using s(1) t names by (simp add: scanTargetDisks_def b_def)
  then obtain name where n: "name \<in> set names" "td_Path t = ''/dev/'' @ name" "name \<noteq> b"
    "sy_partition S name = None" "\<not> isVirtualBlock S name" "\<not> isRemovableBlock S name"
    "blockSizeBytes S name = Some (td_SizeBytes t)" "td_SizeBytes t \<ge> minTargetSizeBytes"
    "td_Reinstall t = hasCapsuleMBR S (td_Path t)"
    using scan_targets_mem by blast
  have "unat minTargetSizeBytes = 2 ^ 34" by (simp add: minTargetSizeBytes_def)
  then have "2 ^ 34 \<le> unat (td_SizeBytes t)" using n(8) by (simp add: word_le_nat_alt)
  moreover have "td_Reinstall t \<longleftrightarrow> readMBRDiskSig (sy_dev S (td_Path t)) = Inr ''b1a570ff''"
    unfolding n(9) hasCapsuleMBR_def boot_CapsuleMBRSig_def by (rule refl)
  moreover have "cmdlineHasInstallerFlag S \<or>
     (\<exists>bootDev. BootDisk S = Inr bootDev \<and> isRemovableBlock S (path_base bootDev) \<and> path_base bootDev \<noteq> name)"
    using s(2) n(3) by (auto simp: b_def)
  ultimately show ?thesis using names n(1,2,4-7) by blast
qed

text \<open>The same machine started from a removable disk.\<close>

definition example_usb :: sysfs where
  "example_usb = example_sysfs\<lparr>sy_removable := (\<lambda>e. Some (if e = ''nvme0n1'' then ''1'' else ''0'')),
     sy_size := (\<lambda>_. Some (itoa 50000000))\<rparr>"

lemma trim_itoa [simp]: "trim_space (itoa n) = itoa n"
proof (rule trim_space_id, rule ballI)
  fix c assume "c \<in> set (itoa n)"
  then have "digit_val c \<noteq> None" by (rule itoa_digits)
  then show "\<not> is_space c" by (auto simp: digit_val_def is_space_def Let_def split: if_splits)
qed

lemma example_usb_views:
  "sy_cmdline example_usb = sy_cmdline example_sysfs" "sy_partition example_usb = sy_partition example_sysfs"
  "sy_dev example_usb = sy_dev example_sysfs" "sy_blocks example_usb = sy_blocks example_sysfs"
  by (simp_all add: example_usb_def)

lemma example_usb_boot: "BootDisk example_usb = Inr ''/dev/nvme0n1''" "\<not> cmdlineHasInstallerFlag example_usb"
proof -
  have "bootDiskSignature example_usb = Inr ''b1a570ff''"
    using example_sysfs_sigs(1) by (simp add: bootDiskSignature_def example_usb_views)
  moreover have "whole_disk example_usb = whole_disk example_sysfs"
    by (intro ext) (simp add: whole_disk_def example_usb_views)
  ultimately show "BootDisk example_usb = Inr ''/dev/nvme0n1''"
    by (simp add: BootDisk_def find_disk_find example_usb_views example_sysfs_fields example_sysfs_disk)
  have "\<not> cmdlineHasInstallerFlag example_sysfs" by code_simp
  then show "\<not> cmdlineHasInstallerFlag example_usb" by (simp add: cmdlineHasInstallerFlag_def example_usb_views)
qed

lemma example_usb_scan: "scan_targets example_usb ''nvme0n1''
     [''nvme0n1'', ''nvme0n1p2'', ''nvme0n1p4'', ''sda'', ''sda1''] =
   [\<lparr>td_Path = ''/dev/sda'', td_SizeBytes = 25600000000, td_Reinstall = False\<rparr>]"
  "isRemovableBlock example_usb ''nvme0n1''"
proof -
  have t: "trim_space ''1'' = ''1''" "trim_space ''0'' = ''0''" "sy_partition example_sysfs ''sda'' = None"
    "sy_target example_sysfs ''sda'' = None"
    "sy_partition example_sysfs ''sda1'' = Some ''1''"
    by code_simp+
  have "blockSizeBytes example_usb ''sda'' = Some 25600000000"
    by (simp add: blockSizeBytes_def example_usb_def parse_uint_itoa)
  moreover have "\<not> hasCapsuleMBR example_usb ''/dev/sda''"
    by (simp add: hasCapsuleMBR_def example_usb_views example_sysfs_sigs boot_CapsuleMBRSig_def)
  moreover have "\<not> isVirtualBlock example_usb ''sda''" "\<not> isRemovableBlock example_usb ''sda''"
    "isRemovableBlock example_usb ''nvme0n1''"
    using t by (simp_all add: isVirtualBlock_def isRemovableBlock_def example_usb_def)
  ultimately show "scan_targets example_usb ''nvme0n1''
     [''nvme0n1'', ''nvme0n1p2'', ''nvme0n1p4'', ''sda'', ''sda1''] =
     [\<lparr>td_Path = ''/dev/sda'', td_SizeBytes = 25600000000, td_Reinstall = False\<rparr>]"
    "isRemovableBlock example_usb ''nvme0n1''"
    using t by (simp_all add: example_usb_views minTargetSizeBytes_def example_sysfs_fields)
qed

lemma example_usb_detect: "DetectInstallerMode example_usb =
   (True, [\<lparr>td_Path = ''/dev/sda'', td_SizeBytes = 25600000000, td_Reinstall = False\<rparr>])"
proof -
  have p: "path_base ''/dev/nvme0n1'' = ''nvme0n1''" by code_simp
  then have "scanTargetDisks True example_usb =
      [\<lparr>td_Path = ''/dev/sda'', td_SizeBytes = 25600000000, td_Reinstall = False\<rparr>]"
    using example_usb_scan(1)
    by (simp add: scanTargetDisks_def example_usb_boot(1) p example_usb_views example_sysfs_fields(1) del: scan_targets.simps)
  then show ?thesis
    using example_usb_boot example_usb_scan(2) p by (simp add: DetectInstallerMode_def)
qed

theorem DetectInstallerMode_targets_witness:
  "\<exists>name. ''/dev/sda'' = ''/dev/'' @ name \<and> sy_partition example_usb name = None \<and>
     \<not> isRemovableBlock example_usb name \<and> isRemovableBlock example_usb (path_base ''/dev/nvme0n1'')"
  using DetectInstallerMode_targets [OF example_usb_detect list.set_intros(1)] example_usb_boot by auto

text \<open>Two installed disks; both carry the signature that every installation writes.\<close>

definition example_two :: sysfs where
  "example_two = example_sysfs\<lparr>
     sy_blocks := Inr [''sda'', ''sda4'', ''sdb'', ''sdb4''],
     sy_partition := (\<lambda>e. map_of [(''sda4'', ''4''), (''sdb4'', ''4'')] e),
     sy_target := (\<lambda>e. map_of [(''sda4'', ''/sys/devices/pci0/sda/sda4''), (''sdb4'', ''/sys/devices/pci0/sdb/sdb4'')] e),
     sy_dev := (\<lambda>p. example_disk_with p [0xff, 0x70, 0xa5, 0xb1])\<rparr>"

lemma example_two_sig: "bootDiskSignature example_two = Inr ''b1a570ff''"
  "readMBRDiskSig (sy_dev example_two p) = Inr ''b1a570ff''"
  using example_sysfs_sigs(1) example_sysfs_sigs(2) [of "''/dev/nvme0n1''"]
  by (simp_all add: bootDiskSignature_def example_two_def example_sysfs_def example_disk_with_def)

text \<open>the signature does not tell two installed disks apart. With the same kernel command line the lookup
  returns the partition of whichever disk is listed first, so the data partition that gets mounted
  need not be on the disk the kernel was started from.\<close>

theorem same_signature_first_listed_wins:
  "FindPartitionByNumber 4 example_two = Inr ''/dev/sda4'' \<and>
   FindPartitionByNumber 4 (example_two\<lparr>sy_blocks := Inr [''sdb'', ''sdb4'', ''sda'', ''sda4'']\<rparr>) = Inr ''/dev/sdb4''"
proof -
  have t: "trim_space ''4'' = ''4''" "itoa 4 = ''4''" by code_simp+
  let ?T = "example_two\<lparr>sy_blocks := Inr [''sdb'', ''sdb4'', ''sda'', ''sda4'']\<rparr>"
  have f: "sy_partition ?T = sy_partition example_two" "sy_target ?T = sy_target example_two" "sy_dev ?T = sy_dev example_two"
    "sy_cmdline ?T = sy_cmdline example_two" by simp_all
  have g: "sy_blocks example_two = Inr [''sda'', ''sda4'', ''sdb'', ''sdb4'']"
    "sy_partition example_two ''sda'' = None" "sy_partition example_two ''sdb'' = None"
    "sy_partition example_two ''sda4'' = Some ''4''" "sy_partition example_two ''sdb4'' = Some ''4''"
    "sy_target example_two ''sda4'' \<noteq> None" "sy_target example_two ''sdb4'' \<noteq> None"
    by (simp_all add: example_two_def)
  have "bootDiskSignature ?T = Inr ''b1a570ff''" using example_two_sig(1) by (simp add: bootDiskSignature_def)
  then show ?thesis using g example_two_sig
    by (auto simp: FindPartitionByNumber_def f t)
qed

section \<open>The volume group behind /perm\<close>

text \<open>\<open>runLVM\<close> runs a command; its output only goes into the error's text.\<close>

definition runLVM :: "'w host_ops \<Rightarrow> string \<Rightarrow> string list \<Rightarrow> ('w, unit) action" where
  "runLVM H bin args w =
    (case mo_exec H bin args w of (oc, w1) \<Rightarrow>
      (case exec_error oc of None \<Rightarrow> (Inr (), w1) | Some e \<Rightarrow> (Inl (Wrap bin e), w1)))"

definition pvExists :: "'w host_ops \<Rightarrow> string \<Rightarrow> 'w \<Rightarrow> bool \<times> 'w" where
  "pvExists H dev w = (case mo_exec H ''/sbin/pvs'' [''--noheadings'', dev] w of (oc, w1) \<Rightarrow> (exec_error oc = None, w1))"

text \<open>\<open>uint64\<close> of \<open>strconv.ParseFloat\<close> on the number that \<open>vgs\<close> prints: digits, optionally followed by a
  point and digits. A size in MiB has far fewer digits than a double holds, so the integer
  part is exact.\<close>

definition float_floor :: "string \<Rightarrow> nat option" where
  "float_floor s =
    (case split_on CHR ''.'' s of
       [a] \<Rightarrow> if a = [] then None else parse_digits 0 a
     | [a, b] \<Rightarrow>
        if a = [] \<and> b = [] then None
        else (case (parse_digits 0 a, parse_digits 0 b) of (Some n, Some _) \<Rightarrow> Some n | _ \<Rightarrow> None)
     | _ \<Rightarrow> None)"

definition meta_size :: "64 word \<Rightarrow> 64 word" where
  "meta_size vgMiB = (let meta = vgMiB div 4; meta1 = (if meta < 1024 then 1024 else meta)
     in if meta1 > 32 * 1024 then 32 * 1024 else meta1)"

definition computeMetaMiB :: "'w host_ops \<Rightarrow> string \<Rightarrow> ('w, 64 word) action" where
  "computeMetaMiB H vg w =
    (case mo_exec H ''/sbin/vgs'' [''--noheadings'', ''--units'', ''m'', ''--nosuffix'', ''-o'', ''vg_size'', vg] w of
       (oc, w1) \<Rightarrow>
        (case exec_error oc of
           Some e \<Rightarrow> (Inl (Wrap ''vgs'' e), w1)
         | None \<Rightarrow>
            (case float_floor (trim_space (exec_output oc)) of
               None \<Rightarrow> (Inl (Errorf ''parse vg_size''), w1)
             | Some n \<Rightarrow> (Inr (meta_size (word_of_nat n)), w1))))"

definition mkfs_meta :: "'w host_ops \<Rightarrow> ('w, unit) action" where
  "mkfs_meta H w =
    (case runLVM H ''/usr/sbin/mkfs.ext4'' [''-q'', ''-F'', ''/dev/capsule/meta''] w of
       (Inr _, w1) \<Rightarrow> (Inr (), w1)
     | (Inl e, w1) \<Rightarrow>
        (case runLVM H ''/sbin/mkfs.ext4'' [''-q'', ''-F'', ''/dev/capsule/meta''] w1 of
           (Inr _, w2) \<Rightarrow> (Inr (), w2)
         | (Inl e2, w2) \<Rightarrow> (Inl (Wrap ''mkfs.ext4 /dev/capsule/meta'' e), w2)))"

definition initializeCapsuleVG :: "'w host_ops \<Rightarrow> string \<Rightarrow> ('w, unit) action" where
  "initializeCapsuleVG H dev =
    bind_action (runLVM H ''/sbin/pvcreate'' [''-ff'', ''-y'', dev]) (\<lambda>_.
    bind_action (runLVM H ''/sbin/vgcreate'' [''capsule'', dev]) (\<lambda>_.
    bind_action (computeMetaMiB H ''capsule'') (\<lambda>metaMiB.
    bind_action (runLVM H ''/sbin/lvcreate'' [''-L'', itoa (unat metaMiB) @ ''M'', ''-n'', ''meta'', ''capsule'']) (\<lambda>_.
    bind_action (mkfs_meta H) (\<lambda>_.
    runLVM H ''/sbin/lvcreate'' [''--monitor'', ''n'', ''-l'', ''95%FREE'', ''--thinpool'', ''thinpool'', ''capsule''])))))"

definition activateVG :: "'w host_ops \<Rightarrow> string \<Rightarrow> ('w, unit) action" where
  "activateVG H vg w =
    (case runLVM H ''/sbin/vgscan'' [''--mknodes''] w of
       (_, w1) \<Rightarrow> runLVM H ''/sbin/vgchange'' [''--monitor'', ''n'', ''-ay'', vg] w1)"

definition waitForBlockDevice :: "'w host_ops \<Rightarrow> string \<Rightarrow> ('w, unit) action" where
  "waitForBlockDevice H path w =
    (if ho_appears H path w then Inr () else Inl (Errorf ''block device not present''), w)"

definition mkdir_ok :: "'w host_ops \<Rightarrow> string \<Rightarrow> ('w, unit) action" where
  "mkdir_ok H d w =
    (case ho_mkdir H d w of
       (Inl e, w1) \<Rightarrow> if errors_is e os_ErrExist then (Inr (), w1) else (Inl e, w1)
     | (Inr _, w1) \<Rightarrow> (Inr (), w1))"

definition ensurePermDirs :: "'w host_ops \<Rightarrow> string \<Rightarrow> ('w, unit) action" where
  "ensurePermDirs H root =
    bind_action (mkdir_ok H (root @ ''/capsule'')) (\<lambda>_.
    bind_action (mkdir_ok H (root @ ''/containerd'')) (\<lambda>_.
    bind_action (mkdir_ok H (root @ ''/containerd/root'')) (\<lambda>_.
    mkdir_ok H (root @ ''/tls''))))"

definition boot_isMounted :: "sysfs \<Rightarrow> string \<Rightarrow> bool" where
  "boot_isMounted S path =
    (case sy_mounts S of
       Inl _ \<Rightarrow> False
     | Inr data \<Rightarrow>
        list_ex (\<lambda>line. case str_fields line of _ # f # _ \<Rightarrow> f = path | _ \<Rightarrow> False) (split_on CHR 0x0A data))"

text \<open>Mapping the error of an action, as \<open>fmt.Errorf("...: %w", err)\<close> does.\<close>

definition mountPerm :: "'w host_ops \<Rightarrow> ('w, unit) action" where
  "mountPerm H w =
    (case ho_stat H ''/perm'' w of
       Some e \<Rightarrow> (Inl (Wrap ''mount point /perm missing'' e), w)
     | None \<Rightarrow>
        if boot_isMounted (ho_sys H w) ''/perm'' then ensurePermDirs H ''/perm'' w
        else (case findPermPartition (ho_sys H w) of
           Inl e \<Rightarrow> (Inl (Wrap ''locate PERM partition'' e), w)
         | Inr permDev \<Rightarrow>
            (case pvExists H permDev w of (exists, w1) \<Rightarrow>
              bind_action (if exists then (\<lambda>v. (Inr (), v))
                           else wrap_action ''initialize VG'' (initializeCapsuleVG H permDev)) (\<lambda>_.
              bind_action (wrap_action ''activate vg'' (activateVG H ''capsule'')) (\<lambda>_.
              bind_action (wrap_action ''waiting for'' (waitForBlockDevice H ''/dev/capsule/meta'')) (\<lambda>_.
              bind_action (wrap_action ''mount'' (ho_mount H
                \<lparr>ms_source = ''/dev/capsule/meta'', ms_target = ''/perm'', ms_fstype = ''ext4'',
                 ms_flags = [], ms_data = [], ms_required = True\<rparr>)) (\<lambda>_.
              ensurePermDirs H ''/perm'')))) w1)))"

subsection \<open>What a boot keeps\<close>

lemma keeps_runLVM: "keeps_exec P H bin args \<Longrightarrow> keeps P (runLVM H bin args)"
  unfolding keeps_def keeps_exec_def runLVM_def by (auto split: prod.splits option.splits)

lemma keeps_mkdir_ok: "keeps P (ho_mkdir H d) \<Longrightarrow> keeps P (mkdir_ok H d)"
  unfolding keeps_def mkdir_ok_def by (auto split: prod.splits sum.splits)

lemma keeps_wait: "keeps P (waitForBlockDevice H path)"
  by (simp add: keeps_def waitForBlockDevice_def)

definition perm_dirs :: "string list" where
  "perm_dirs = [''/perm/capsule'', ''/perm/containerd'', ''/perm/containerd/root'', ''/perm/tls'']"

definition perm_mount :: mount_spec where
  "perm_mount = \<lparr>ms_source = ''/dev/capsule/meta'', ms_target = ''/perm'', ms_fstype = ''ext4'',
     ms_flags = [], ms_data = [], ms_required = True\<rparr>"

lemma keeps_ensurePermDirs:
  assumes "\<forall>d\<in>set perm_dirs. keeps P (ho_mkdir H d)"
  shows "keeps P (ensurePermDirs H ''/perm'')"
  using assms unfolding ensurePermDirs_def perm_dirs_def
  by (intro keeps_bind keeps_mkdir_ok) simp_all

lemma keeps_activateVG:
  assumes "keeps_exec P H ''/sbin/vgscan'' [''--mknodes'']"
    "keeps_exec P H ''/sbin/vgchange'' [''--monitor'', ''n'', ''-ay'', vg]"
  shows "keeps P (activateVG H vg)"
  using keeps_runLVM [OF assms(1)] keeps_runLVM [OF assms(2)]
  unfolding keeps_def activateVG_def by (auto split: prod.splits)

text \<open>an initialised \<^verbatim>\<open>/perm\<close> is not initialised again. When \<open>pvs\<close> finds the physical volume on the
  partition, a boot runs no command but \<open>pvs\<close>, \<open>vgscan\<close> and \<open>vgchange\<close> and otherwise only mounts the meta
  volume and creates the four directories: whatever these keep is kept, be the result
  a success or an error.\<close>

theorem mountPerm_keeps_initialised:
  assumes P: "P w" and dev: "findPermPartition (ho_sys H w) = Inr dev"
    and pv: "exec_error (fst (mo_exec H ''/sbin/pvs'' [''--noheadings'', dev] w)) = None"
    and keep: "keeps_exec P H ''/sbin/pvs'' [''--noheadings'', dev]"
      "keeps_exec P H ''/sbin/vgscan'' [''--mknodes'']"
      "keeps_exec P H ''/sbin/vgchange'' [''--monitor'', ''n'', ''-ay'', ''capsule'']"
      "keeps P (ho_mount H perm_mount)" "\<forall>d\<in>set perm_dirs. keeps P (ho_mkdir H d)"
  shows "P (snd (mountPerm H w))"
proof -
  note dirs = keeps_ensurePermDirs [OF keep(5)]
  obtain w1 where w1: "pvExists H dev w = (True, w1)" "P w1"
    using pv keep(1) P by (cases "mo_exec H ''/sbin/pvs'' [''--noheadings'', dev] w")
      (auto simp: pvExists_def keeps_exec_def)
  have "keeps P (bind_action (\<lambda>v. (Inr (), v)) (\<lambda>_ :: unit.
      bind_action (wrap_action ''activate vg'' (activateVG H ''capsule'')) (\<lambda>_.
      bind_action (wrap_action ''waiting for'' (waitForBlockDevice H ''/dev/capsule/meta'')) (\<lambda>_.
      bind_action (wrap_action ''mount'' (ho_mount H perm_mount)) (\<lambda>_. ensurePermDirs H ''/perm'')))))"
    by (intro keeps_bind keeps_wrap keeps_activateVG keeps_wait keep dirs) (simp add: keeps_def)
  then show ?thesis
    using w1 keepsD [OF dirs P] P dev unfolding mountPerm_def perm_mount_def [symmetric]
    by (auto simp: keeps_def split: option.split)
qed

section \<open>An example host\<close>

text \<open>The volume group of one partition, the commands that fail the next time they run, and a file system.\<close>

record toy_host =
  th_pv :: bool
  th_vg :: bool
  th_meta :: bool
  th_pool :: bool
  th_fail :: "string list"
  th_files :: "(string \<times> string) list"

definition toy_lvm :: "string \<Rightarrow> string list \<Rightarrow> toy_host \<Rightarrow> exec_outcome \<times> toy_host" where
  "toy_lvm bin args w =
    (let ok = (\<lambda>b w'. if b then (ExecOk [], w') else (ExecExit 5 [], w)) in
     if bin \<in> set (th_fail w) then (ExecExit 5 [], w\<lparr>th_fail := removeAll bin (th_fail w)\<rparr>)
     else if bin = ''/sbin/pvs'' then ok (th_pv w) w
     else if bin = ''/sbin/pvcreate'' then ok (\<not> th_vg w) (w\<lparr>th_pv := True\<rparr>)
     else if bin = ''/sbin/vgcreate'' then ok (th_pv w \<and> \<not> th_vg w) (w\<lparr>th_vg := True\<rparr>)
     else if bin = ''/sbin/vgremove'' then
       ok (th_vg w \<and> last args = ''capsule'') (w\<lparr>th_vg := False, th_meta := False, th_pool := False\<rparr>)
     else if bin = ''/sbin/pvremove'' then ok (th_pv w \<and> \<not> th_vg w) (w\<lparr>th_pv := False\<rparr>)
     else if bin = ''/sbin/vgs'' then (if th_vg w then (ExecOk ''  2044.00'', w) else (ExecExit 5 [], w))
     else if bin = ''/sbin/vgchange'' then ok (th_vg w) w
     else if bin = ''/sbin/lvcreate'' then
       (if ''--thinpool'' \<in> set args then ok (th_vg w) (w\<lparr>th_pool := True\<rparr>)
        else if ''-T'' \<in> set args then ok (th_vg w \<and> th_pool w) w
        else ok (th_vg w \<and> \<not> th_meta w) (w\<lparr>th_meta := True\<rparr>))
     else (ExecOk [], w))"

definition toy_hops :: "toy_host host_ops" where
  "toy_hops = \<lparr>mo_exec = toy_lvm, mo_blk = (\<lambda>_ _. BlkNoDevice), ho_sys = (\<lambda>_. example_sysfs),
     ho_read = (\<lambda>p w. case map_of (th_files w) p of None \<Rightarrow> Inl os_ErrNotExist | Some c \<Rightarrow> Inr c),
     ho_write = (\<lambda>p c w. (Inr (), w\<lparr>th_files := AList.update p c (th_files w)\<rparr>)),
     ho_mkdir = (\<lambda>_ w. (Inr (), w)),
     ho_remove = (\<lambda>p w. (Inr (), w\<lparr>th_files := AList.delete p (th_files w)\<rparr>)),
     ho_rename = (\<lambda>p q w. (Inr (), w\<lparr>th_files := AList.delete p (case map_of (th_files w) p of
        None \<Rightarrow> th_files w | Some c \<Rightarrow> AList.update q c (th_files w))\<rparr>)),
     ho_symlink = (\<lambda>_ _ w. (Inr (), w)),
     ho_stat = (\<lambda>p w. if p = ''/perm'' \<or> map_of (th_files w) p \<noteq> None then None else Some os_ErrNotExist),
     ho_appears = (\<lambda>p w. if p = ''/dev/capsule/meta'' then th_meta w else True),
     ho_mount = (\<lambda>_ w. (Inr (), w)), ho_sethostname = (\<lambda>_ w. (Inr (), w)), ho_settle = (\<lambda>w. w),
     ho_io = (\<lambda>_ _. healthy), ho_set = (\<lambda>_ _ w. w),
     ho_rand = (\<lambda>n w. (Inr (replicate n 0), w))\<rparr>"

definition toy_blank :: toy_host where
  "toy_blank = \<lparr>th_pv = False, th_vg = False, th_meta = False, th_pool = False, th_fail = [], th_files = []\<rparr>"

definition toy_installed :: toy_host where
  "toy_installed = \<lparr>th_pv = True, th_vg = True, th_meta = True, th_pool = True, th_fail = [], th_files = []\<rparr>"

lemma toy_perm: "findPermPartition (ho_sys toy_hops w) = Inr ''/dev/nvme0n1p4''"
proof -
  have "FindPartitionByNumber 4 example_sysfs = Inr ''/dev/nvme0n1p4''"
    unfolding FindPartitionByNumber_def example_sysfs_sigs(1)
    by (simp add: example_sysfs_sigs(2) example_sysfs_fields)
  then show ?thesis by (simp add: findPermPartition_def toy_hops_def)
qed

theorem mountPerm_keeps_initialised_witness:
  "th_pool (snd (mountPerm toy_hops toy_installed)) \<and> th_meta (snd (mountPerm toy_hops toy_installed))"
  by (rule mountPerm_keeps_initialised [where P = "\<lambda>w. th_pool w \<and> th_meta w", OF _ toy_perm])
    (auto simp: toy_hops_def toy_installed_def toy_lvm_def keeps_def keeps_exec_def exec_error_def Let_def)

lemma toy_mountPerm:
  "mountPerm toy_hops w =
    (if th_pv w \<and> ''/sbin/pvs'' \<notin> set (th_fail w) then
       bind_action (wrap_action ''activate vg'' (activateVG toy_hops ''capsule'')) (\<lambda>_.
         bind_action (wrap_action ''waiting for'' (waitForBlockDevice toy_hops ''/dev/capsule/meta'')) (\<lambda>_ w. (Inr (), w))) w
     else bind_action (wrap_action ''initialize VG'' (initializeCapsuleVG toy_hops ''/dev/nvme0n1p4'')) (\<lambda>_.
       bind_action (wrap_action ''activate vg'' (activateVG toy_hops ''capsule'')) (\<lambda>_.
         bind_action (wrap_action ''waiting for'' (waitForBlockDevice toy_hops ''/dev/capsule/meta'')) (\<lambda>_ w. (Inr (), w))))
       (snd (pvExists toy_hops ''/dev/nvme0n1p4'' w)))"
proof -
  have s: "ho_stat toy_hops ''/perm'' w = None" "\<not> boot_isMounted (ho_sys toy_hops w) ''/perm''"
    by (simp_all add: toy_hops_def boot_isMounted_def example_sysfs_def str_fields_def)
  have d: "ensurePermDirs toy_hops ''/perm'' = (\<lambda>w. (Inr (), w))"
    by (intro ext) (simp add: ensurePermDirs_def bind_action_def mkdir_ok_def toy_hops_def)
  have m: "bind_action (wrap_action ''mount'' (ho_mount toy_hops ms)) (\<lambda>_. ensurePermDirs toy_hops ''/perm'') = (\<lambda>w. (Inr (), w))" for ms
    unfolding d by (intro ext) (simp add: bind_action_def wrap_action_def toy_hops_def)
  have p: "pvExists toy_hops ''/dev/nvme0n1p4'' w = (th_pv w \<and> ''/sbin/pvs'' \<notin> set (th_fail w), snd (pvExists toy_hops ''/dev/nvme0n1p4'' w))"
    "th_pv w \<Longrightarrow> ''/sbin/pvs'' \<notin> set (th_fail w) \<Longrightarrow> snd (pvExists toy_hops ''/dev/nvme0n1p4'' w) = w"
    by (auto simp: pvExists_def toy_hops_def toy_lvm_def exec_error_def)
  show ?thesis
    unfolding mountPerm_def s(1) option.case toy_perm sum.case m
    apply (subst p(1)) using s(2) p(2) by (simp add: bind_action_def)
qed


section \<open>Host name\<close>

text \<open>The insertion sort over the interface names: moving entry \<open>j\<close> down, for every index from 1 on.\<close>

fun sift :: "string list \<Rightarrow> nat \<Rightarrow> string list" where
  "sift names 0 = names"
| "sift names (Suc j) =
    (if names ! Suc j < names ! j then sift (names[Suc j := names ! j, j := names ! Suc j]) j else names)"

definition sort_names :: "string list \<Rightarrow> string list" where
  "sort_names names = fold (\<lambda>i ns. sift ns i) [1..<length names] names"

definition mac_suffix :: "string \<Rightarrow> string option" where
  "mac_suffix mac =
    (let s = trim_space mac in
     if s = [] \<or> s = ''00:00:00:00:00:00'' then None
     else (case split_on CHR '':'' s of
        [_, _, _, p3, p4, p5] \<Rightarrow> Some (''capsule-'' @ map to_lower (p3 @ p4 @ p5))
      | _ \<Rightarrow> None))"

fun first_mac :: "sysfs \<Rightarrow> string list \<Rightarrow> string" where
  "first_mac S [] = []"
| "first_mac S (n # ns) =
    (case sy_address S n of
       None \<Rightarrow> first_mac S ns
     | Some mac \<Rightarrow> (case mac_suffix mac of None \<Rightarrow> first_mac S ns | Some h \<Rightarrow> h))"

definition macDerivedHostname :: "sysfs \<Rightarrow> string" where
  "macDerivedHostname S =
    (case sy_nets S of
       Inl _ \<Rightarrow> []
     | Inr entries \<Rightarrow> first_mac S (sort_names (filter (\<lambda>n. n \<noteq> ''lo'') entries)))"

definition readHostnameFile :: "'w host_ops \<Rightarrow> string \<Rightarrow> 'w \<Rightarrow> string option" where
  "readHostnameFile H path w =
    (case ho_read H path w of
       Inl _ \<Rightarrow> None
     | Inr b \<Rightarrow> let name = trim_space b in if name = [] then None else Some name)"

definition resolveHostname :: "'w host_ops \<Rightarrow> bool \<Rightarrow> 'w \<Rightarrow> string" where
  "resolveHostname H permMounted w =
    (case (if permMounted then readHostnameFile H ''/perm/capsule/hostname'' w else None) of
       Some name \<Rightarrow> name
     | None \<Rightarrow>
        (let name = macDerivedHostname (ho_sys H w) in
         if name \<noteq> [] then name
         else (case readHostnameFile H ''/etc/capsule/hostname'' w of Some name \<Rightarrow> name | None \<Rightarrow> ''capsule'')))"

definition applyResolvedHostname :: "'w host_ops \<Rightarrow> bool \<Rightarrow> ('w, unit) action" where
  "applyResolvedHostname H permMounted w =
    (let name = resolveHostname H permMounted w in
     if name = [] then (Inr (), w) else wrap_action ''sethostname'' (ho_sethostname H name) w)"

text \<open>Moving one entry down is an insertion into the sorted part before it.\<close>

lemma insort_snoc_less: "x < y \<Longrightarrow> insort x (xs @ [y]) = insort x xs @ [y :: string]"
  by (induction xs) auto

lemma insort_snoc_ge: "sorted (xs @ [y]) \<Longrightarrow> \<not> x < y \<Longrightarrow> insort x (xs @ [y]) = xs @ [y, x :: string]"
proof -
  assume a: "sorted (xs @ [y])" "\<not> x < y"
  have "sort (xs @ [y, x]) = xs @ [y, x]"
    using a by (intro sorted_sort_id) (auto simp: sorted_append not_less intro: order_trans)
  moreover have "sort (xs @ [y, x]) = insort x (xs @ [y])"
    using a(1) by (intro properties_for_sort) (simp_all add: sorted_insort)
  ultimately show ?thesis by simp
qed

lemma sift_insort: "sorted xs \<Longrightarrow> sift (xs @ x # ys) (length xs) = insort x xs @ ys"
proof (induction xs arbitrary: ys rule: rev_induct)
  case (snoc y xs)
  let ?names = "xs @ y # x # ys"
  have nth: "?names ! Suc (length xs) = x" "?names ! length xs = y" by (simp_all add: nth_append)
  have upd: "?names[Suc (length xs) := y, length xs := x] = xs @ x # y # ys" by (simp add: list_update_append)
  have s: "sift ?names (Suc (length xs)) = (if x < y then insort x xs @ y # ys else ?names)"
    using snoc.IH [of "y # ys"] snoc.prems by (simp add: nth upd sorted_append)
  show ?case
    using s insort_snoc_less [of x y xs] insort_snoc_ge [OF snoc.prems, of x] by simp
qed simp

lemma sort_names_sort: "sort_names names = sort names"
proof -
  have "i \<le> length names \<Longrightarrow> fold (\<lambda>i ns. sift ns i) [1..<i] names = sort (take i names) @ drop i names" if "1 \<le> i \<or> i = 0" for i
  proof (induction i)
    case (Suc i)
    show ?case
    proof (cases "i = 0")
      case True
      then show ?thesis using Suc.prems by (cases names) simp_all
    next
      case False
      have d: "drop i names = names ! i # drop (Suc i) names" using Suc.prems by (simp add: Cons_nth_drop_Suc)
      have "fold (\<lambda>i ns. sift ns i) [1..<Suc i] names = sift (sort (take i names) @ drop i names) i"
        using Suc False by simp
      also have "\<dots> = insort (names ! i) (sort (take i names)) @ drop (Suc i) names"
        unfolding d using sift_insort [of "sort (take i names)" "names ! i" "drop (Suc i) names"] Suc.prems by simp
      also have "insort (names ! i) (sort (take i names)) = sort (take (Suc i) names)"
      proof (rule properties_for_sort [symmetric])
        show "mset (insort (names ! i) (sort (take i names))) = mset (take (Suc i) names)"
          using Suc.prems by (simp add: take_Suc_conv_app_nth)
      qed (simp add: sorted_insort)
      finally show ?thesis .
    qed
  qed simp
  from this [of "length names"] show ?thesis by (cases names) (simp_all add: sort_names_def)
qed

lemma first_mac_find:
  "first_mac S ns =
    (case List.find (\<lambda>n. Option.bind (sy_address S n) mac_suffix \<noteq> None) ns of
       None \<Rightarrow> [] | Some n \<Rightarrow> the (Option.bind (sy_address S n) mac_suffix))"
  by (induction ns) (auto split: option.split)

text \<open>the derived host name is a function of the hardware. It comes from the first usable interface in
  alphabetical order and does not depend on the order in which the kernel lists the interfaces.\<close>

theorem macDerivedHostname_order:
  assumes nets: "sy_nets S = Inr names" and names': "sy_nets S' = Inr names'" "mset names' = mset names"
    and same: "sy_address S' = sy_address S"
  shows "macDerivedHostname S' = macDerivedHostname S \<and>
    macDerivedHostname S =
      (case List.find (\<lambda>n. Option.bind (sy_address S n) mac_suffix \<noteq> None) (sort (filter (\<lambda>n. n \<noteq> ''lo'') names)) of
         None \<Rightarrow> [] | Some n \<Rightarrow> the (Option.bind (sy_address S n) mac_suffix))"
proof -
  have "mset (filter (\<lambda>n. n \<noteq> ''lo'') names') = mset (filter (\<lambda>n. n \<noteq> ''lo'') names)"
    using names'(2) by (simp add: mset_filter)
  then have "sort (filter (\<lambda>n. n \<noteq> ''lo'') names') = sort (filter (\<lambda>n. n \<noteq> ''lo'') names)"
    by (intro properties_for_sort) simp_all
  then have "macDerivedHostname S' = first_mac S' (sort (filter (\<lambda>n. n \<noteq> ''lo'') names))"
    using names'(1) by (simp add: macDerivedHostname_def sort_names_sort)
  moreover have "macDerivedHostname S = first_mac S (sort (filter (\<lambda>n. n \<noteq> ''lo'') names))"
    using nets by (simp add: macDerivedHostname_def sort_names_sort)
  ultimately show ?thesis unfolding first_mac_find same by (simp only: simp_thms)
qed

definition example_macs :: sysfs where
  "example_macs = example_sysfs\<lparr>sy_nets := Inr [''lo'', ''wlan0'', ''enp1s0''],
     sy_address := (\<lambda>n. if n = ''enp1s0'' then Some ''AA:BB:CC:01:2F:3e'' else Some ''00:00:00:00:00:00'')\<rparr>"

theorem macDerivedHostname_order_witness:
  "macDerivedHostname (example_macs\<lparr>sy_nets := Inr [''enp1s0'', ''lo'', ''wlan0'']\<rparr>) = ''capsule-012f3e''"
proof -
  have "macDerivedHostname example_macs = ''capsule-012f3e''" by code_simp
  moreover have "macDerivedHostname (example_macs\<lparr>sy_nets := Inr [''enp1s0'', ''lo'', ''wlan0'']\<rparr>) =
      macDerivedHostname example_macs"
    by (rule conjunct1 [OF macDerivedHostname_order [of example_macs "[''lo'', ''wlan0'', ''enp1s0'']" _
          "[''enp1s0'', ''lo'', ''wlan0'']"]]) (simp_all add: example_macs_def)
  ultimately show ?thesis by simp
qed

section \<open>Network\<close>

definition linkUp :: "'w host_ops \<Rightarrow> string \<Rightarrow> ('w, unit) action" where
  "linkUp H name w =
    (case mo_exec H ''/sbin/ip'' [''link'', ''set'', name, ''up''] w of (oc, w1) \<Rightarrow>
      (case exec_error oc of None \<Rightarrow> (Inr (), w1) | Some e \<Rightarrow> (Inl e, w1)))"

definition boot_modules :: "string list" where
  "boot_modules = [''virtio_net'', ''virtio_rng'', ''igc'', ''e1000e'', ''e1000'', ''igb'', ''r8169'', ''r8125'',
     ''bridge'', ''br_netfilter'', ''veth'', ''nf_nat'', ''kvm'', ''kvm_intel'', ''kvm_amd'',
     ''dm_mod'', ''dm-thin-pool'', ''tun'']"

definition loadBridgeModules :: "'w host_ops \<Rightarrow> 'w \<Rightarrow> 'w" where
  "loadBridgeModules H w = fold (\<lambda>m v. snd (mo_exec H ''/sbin/modprobe'' [m] v)) boot_modules w"

definition enableIPForward :: "'w host_ops \<Rightarrow> ('w, unit) action" where
  "enableIPForward H = ho_write H ''/proc/sys/net/ipv4/ip_forward'' (''1'' @ [CHR 0x0A])"

definition firstEthIface :: "sysfs \<Rightarrow> string result" where
  "firstEthIface S =
    (case sy_nets S of
       Inl e \<Rightarrow> Inl e
     | Inr entries \<Rightarrow>
        (case filter (\<lambda>n. n \<noteq> ''lo'') entries of
           [] \<Rightarrow> Inl (Errorf ''no non-loopback interface found'')
         | n # _ \<Rightarrow> Inr n))"

definition firstEthIfaceWait :: "'w host_ops \<Rightarrow> ('w, string) action" where
  "firstEthIfaceWait H w = (let w1 = ho_settle H w in (firstEthIface (ho_sys H w1), w1))"

text \<open>The clock is set by its own goroutine; here it runs where it is started.\<close>

definition syncTimeOnce :: "'w host_ops \<Rightarrow> 'w \<Rightarrow> 'w" where
  "syncTimeOnce H w = snd (mo_exec H ''/usr/sbin/ntpd''
     [''-d'', ''-n'', ''-q'', ''-p'', ''pool.ntp.org'', ''-p'', ''time.cloudflare.com'', ''-p'', ''time.google.com''] w)"

definition bringUpDefaultEth :: "'w host_ops \<Rightarrow> ('w, unit) action" where
  "bringUpDefaultEth H =
    bind_action (firstEthIfaceWait H) (\<lambda>name.
    bind_action (wrap_action ''link up'' (linkUp H name)) (\<lambda>_ w.
      case mo_exec H ''/sbin/udhcpc'' [''-i'', name, ''-q'', ''-n'', ''-t'', ''4'', ''-A'', ''2''] w of (oc, w1) \<Rightarrow>
        (case exec_error oc of
           Some e \<Rightarrow> (Inr (), w1)
         | None \<Rightarrow> (Inr (), syncTimeOnce H w1))))"

definition permClientIDFile :: string where "permClientIDFile = ''/perm/capsule/dhcp-clientid''"

definition permLastIPFile :: string where "permLastIPFile = ''/perm/capsule/last-ip''"

definition nonempty_file :: "string result \<Rightarrow> string option" where
  "nonempty_file r = (case r of Inl _ \<Rightarrow> None | Inr b \<Rightarrow> let s = trim_space b in if s = [] then None else Some s)"

definition ensureDHCPClientID :: "'w host_ops \<Rightarrow> 'w \<Rightarrow> string \<times> 'w" where
  "ensureDHCPClientID H w =
    (case nonempty_file (ho_read H permClientIDFile w) of
       Some s \<Rightarrow> (s, w)
     | None \<Rightarrow>
        (case mkdir_ok H ''/perm/capsule'' w of
           (Inl e, w1) \<Rightarrow> ([], w1)
         | (Inr _, w1) \<Rightarrow>
            (case ho_rand H 8 w1 of
               (Inl e, w2) \<Rightarrow> ([], w2)
             | (Inr raw, w2) \<Rightarrow>
                (let s = concat (map hex_byte (0 # raw)); tmp = permClientIDFile @ ''.tmp'' in
                 case ho_write H tmp (s @ [CHR 0x0A]) w2 of
                   (Inl e, w3) \<Rightarrow> ([], w3)
                 | (Inr _, w3) \<Rightarrow>
                    (case ho_rename H tmp permClientIDFile w3 of
                       (Inl e, w4) \<Rightarrow> ([], snd (ho_remove H tmp w4))
                     | (Inr _, w4) \<Rightarrow> (s, w4))))))"

definition reclaimStickyIP :: "'w host_ops \<Rightarrow> 'w \<Rightarrow> 'w" where
  "reclaimStickyIP H w =
    (case firstEthIface (ho_sys H w) of
       Inl e \<Rightarrow> w
     | Inr name \<Rightarrow>
        (case ensureDHCPClientID H w of (cid, w1) \<Rightarrow>
          (let args = [''-i'', name, ''-q'', ''-n'', ''-t'', ''4'', ''-A'', ''2'', ''-s'', ''/usr/share/capsule/udhcpc.script''] @
                (if cid \<noteq> [] then [''-x'', ''0x3d:'' @ cid] else []) @
                (case nonempty_file (ho_read H permLastIPFile w1) of None \<Rightarrow> [] | Some ip \<Rightarrow> [''-r'', ip])
           in snd (mo_exec H ''/sbin/udhcpc'' args w1))))"

definition installResolvConf :: "'w host_ops \<Rightarrow> string \<Rightarrow> string \<Rightarrow> ('w, unit) action" where
  "installResolvConf H src dst w =
    (case ho_read H src w of
       Inl e \<Rightarrow> if errors_is e os_ErrNotExist then (Inr (), w) else (Inl e, w)
     | Inr data \<Rightarrow> ho_write H dst data w)"

section \<open>The order of the boot\<close>

definition earlyMounts :: "mount_spec list" where
  "earlyMounts =
    [\<lparr>ms_source = ''proc'', ms_target = ''/proc'', ms_fstype = ''proc'',
       ms_flags = [''MS_NOSUID'', ''MS_NODEV'', ''MS_NOEXEC''], ms_data = [], ms_required = True\<rparr>,
     \<lparr>ms_source = ''sysfs'', ms_target = ''/sys'', ms_fstype = ''sysfs'',
       ms_flags = [''MS_NOSUID'', ''MS_NODEV'', ''MS_NOEXEC''], ms_data = [], ms_required = True\<rparr>,
     \<lparr>ms_source = ''devtmpfs'', ms_target = ''/dev'', ms_fstype = ''devtmpfs'',
       ms_flags = [''MS_NOSUID''], ms_data = ''mode=0755'', ms_required = True\<rparr>,
     \<lparr>ms_source = ''devpts'', ms_target = ''/dev/pts'', ms_fstype = ''devpts'',
       ms_flags = [''MS_NOSUID'', ''MS_NOEXEC''], ms_data = ''newinstance,ptmxmode=0666,mode=0620,gid=5'', ms_required = False\<rparr>,
     \<lparr>ms_source = ''tmpfs'', ms_target = ''/run'', ms_fstype = ''tmpfs'',
       ms_flags = [''MS_NOSUID'', ''MS_NODEV''], ms_data = ''mode=0755'', ms_required = False\<rparr>,
     \<lparr>ms_source = ''tmpfs'', ms_target = ''/tmp'', ms_fstype = ''tmpfs'',
       ms_flags = [''MS_NOSUID'', ''MS_NODEV''], ms_data = ''mode=1777'', ms_required = False\<rparr>,
     \<lparr>ms_source = ''cgroup2'', ms_target = ''/sys/fs/cgroup'', ms_fstype = ''cgroup2'',
       ms_flags = [''MS_NOSUID'', ''MS_NODEV'', ''MS_NOEXEC''], ms_data = [], ms_required = False\<rparr>]"

definition mountOne :: "'w host_ops \<Rightarrow> mount_spec \<Rightarrow> ('w, unit) action" where
  "mountOne H m =
    bind_action (mkdir_ok H (ms_target m)) (\<lambda>_ w.
      case ho_mount H m w of
        (Inl e, w1) \<Rightarrow> if errors_is e unix_EBUSY then (Inr (), w1) else (Inl e, w1)
      | (Inr _, w1) \<Rightarrow> (Inr (), w1))"

fun mount_early :: "'w host_ops \<Rightarrow> mount_spec list \<Rightarrow> ('w, unit) action" where
  "mount_early H [] w = (Inr (), w)"
| "mount_early H (m # ms) w =
    (case mountOne H m w of
       (Inl e, w1) \<Rightarrow> if ms_required m then (Inl (Wrap ''mount'' e), w1) else mount_early H ms w1
     | (Inr _, w1) \<Rightarrow> mount_early H ms w1)"

record boot_result =
  br_MountedPerm :: bool
  br_MountPermErr :: string
  br_ActiveSlot :: string
  br_InstallerMode :: bool
  br_Targets :: "target_disk list"

definition link_ptmx :: "'w host_ops \<Rightarrow> 'w \<Rightarrow> 'w" where
  "link_ptmx H w =
    (case ho_stat H ''/dev/ptmx'' w of
       Some e \<Rightarrow> if errors_is e os_ErrNotExist then snd (ho_symlink H ''/dev/pts/ptmx'' ''/dev/ptmx'' w) else w
     | None \<Rightarrow> w)"

text \<open>Failures after the required mounts are logged; the boot goes on.\<close>

definition bring_up :: "'w host_ops \<Rightarrow> 'w \<Rightarrow> 'w" where
  "bring_up H w =
    (let w1 = snd (installResolvConf H ''/etc/capsule/resolv.conf'' ''/etc/resolv.conf'' w);
         w2 = snd (linkUp H ''lo'' w1);
         w3 = loadBridgeModules H w2;
         w4 = snd (enableIPForward H w3)
     in snd (bringUpDefaultEth H w4))"

definition mount_state :: "'w host_ops \<Rightarrow> string \<Rightarrow> 'w \<Rightarrow> boot_result \<times> 'w" where
  "mount_state H slot w =
    (case DetectInstallerMode (ho_sys H w) of
       (True, targets) \<Rightarrow>
         (\<lparr>br_MountedPerm = False, br_MountPermErr = [], br_ActiveSlot = slot, br_InstallerMode = True, br_Targets = targets\<rparr>, w)
     | (False, _) \<Rightarrow>
         (case mountPerm H w of
            (Inl e, w1) \<Rightarrow>
              (\<lparr>br_MountedPerm = False, br_MountPermErr = error_text e, br_ActiveSlot = slot, br_InstallerMode = False, br_Targets = []\<rparr>, w1)
          | (Inr _, w1) \<Rightarrow>
              (\<lparr>br_MountedPerm = True, br_MountPermErr = [], br_ActiveSlot = slot, br_InstallerMode = False, br_Targets = []\<rparr>, w1)))"

definition initPlatform :: "'w host_ops \<Rightarrow> ('w, boot_result) action" where
  "initPlatform H w =
    (case mount_early H earlyMounts w of
       (Inl e, w1) \<Rightarrow> (Inl e, w1)
     | (Inr _, w1) \<Rightarrow>
        (let w2 = link_ptmx H w1;
             slot = detectActiveSlot (ho_sys H w2);
             w3 = bring_up H w2
         in case mount_state H slot w3 of (res, w4) \<Rightarrow>
              (let w5 = (if br_MountedPerm res then reclaimStickyIP H w4 else w4);
                   w6 = snd (applyResolvedHostname H (br_MountedPerm res) w5)
               in (Inr res, w6))))"

lemma slot_marker_range: "slot_marker fs \<in> {'''', ''slot_a'', ''slot_b''}"
  by (induction fs) simp_all

text \<open>what a boot reports. The active slot is one of the two slots or unknown. In installer mode
  \<^verbatim>\<open>/perm\<close> is not mounted and the targets are the detected ones; otherwise there are no targets, and
  \<^verbatim>\<open>/perm\<close> counts as mounted exactly when mounting it succeeded, with an error text otherwise.\<close>

theorem initPlatform_reports:
  assumes "initPlatform H w = (Inr res, w')"
  shows "br_ActiveSlot res \<in> {'''', ''slot_a'', ''slot_b''} \<and>
    (\<exists>v. DetectInstallerMode (ho_sys H v) = (br_InstallerMode res, br_Targets res) \<and>
       (if br_InstallerMode res then \<not> br_MountedPerm res \<and> br_MountPermErr res = []
        else br_Targets res = [] \<and> br_MountedPerm res = is_ok (fst (mountPerm H v)) \<and>
          (\<not> br_MountedPerm res \<longrightarrow> (\<exists>e. fst (mountPerm H v) = Inl e \<and> br_MountPermErr res = error_text e))))"
proof -
  obtain w1 where e: "mount_early H earlyMounts w = (Inr (), w1)"
    using assms by (auto simp: initPlatform_def split: prod.splits sum.splits)
  define slot where "slot = detectActiveSlot (ho_sys H (link_ptmx H w1))"
  define v where "v = bring_up H (link_ptmx H w1)"
  obtain w4 where m: "mount_state H slot v = (res, w4)"
    using assms e by (auto simp: initPlatform_def slot_def v_def Let_def split: prod.splits)
  have s: "slot \<in> {'''', ''slot_a'', ''slot_b''}"
    using slot_marker_range by (auto simp: slot_def detectActiveSlot_def split: sum.split)
  obtain inst targets where d: "DetectInstallerMode (ho_sys H v) = (inst, targets)" by fastforce
  have t: "targets = []" if "\<not> inst"
    using d that by (auto simp: DetectInstallerMode_def Let_def split: if_splits sum.splits)
  have "br_ActiveSlot res = slot \<and> br_InstallerMode res = inst \<and> br_Targets res = targets \<and>
    (if inst then \<not> br_MountedPerm res \<and> br_MountPermErr res = []
     else br_MountedPerm res = is_ok (fst (mountPerm H v)) \<and>
       (\<not> br_MountedPerm res \<longrightarrow> (\<exists>e. fst (mountPerm H v) = Inl e \<and> br_MountPermErr res = error_text e)))"
    using m d t by (cases inst) (auto simp: mount_state_def split: prod.splits sum.splits)
  then show ?thesis using s d t by (intro conjI exI [of _ v]) auto
qed

theorem initPlatform_reports_witness:
  "\<exists>res w'. initPlatform toy_hops toy_installed = (Inr res, w') \<and> br_ActiveSlot res \<in> {'''', ''slot_a'', ''slot_b''}"
proof -
  have ex: "\<exists>w'. mount_early toy_hops ms w = (Inr (), w')" for ms w
    by (induction ms arbitrary: w) (simp_all add: mountOne_def bind_action_def mkdir_ok_def toy_hops_def)
  obtain w1 where w1: "mount_early toy_hops earlyMounts toy_installed = (Inr (), w1)" using ex by blast
  obtain r w4 where "mount_state toy_hops (detectActiveSlot (ho_sys toy_hops (link_ptmx toy_hops w1)))
      (bring_up toy_hops (link_ptmx toy_hops w1)) = (r, w4)" by fastforce
  then obtain res w' where "initPlatform toy_hops toy_installed = (Inr res, w')"
    using w1 by (simp add: initPlatform_def Let_def)
  moreover from this have "br_ActiveSlot res \<in> {'''', ''slot_a'', ''slot_b''}"
    by (rule conjunct1 [OF initPlatform_reports])
  ultimately show ?thesis by blast
qed

section \<open>The console banner\<close>

record banner_info =
  bi_GRPCPort :: nat
  bi_TLSFingerprint :: string
  bi_ShortID :: string
  bi_ClaimOpen :: bool
  bi_EnrolledKeys :: nat
  bi_InstallerMode :: bool
  bi_TargetDisk :: string
  bi_TargetSize :: string
  bi_StoreBroken :: bool
  bi_StoreError :: string

definition newline :: string where "newline = [CHR 0x0A]"

text \<open>The dash of the messages, in UTF-8.\<close>

definition em_dash :: string where "em_dash = [CHR 0xE2, CHR 0x80, CHR 0x94]"

definition ipForCmd :: "string \<Rightarrow> string" where
  "ipForCmd ip = (if has_prefix ip ''('' then ''<capsule-ip>'' else ip)"

fun fingerprint_rows :: "nat \<Rightarrow> string \<Rightarrow> string" where
  "fingerprint_rows col (a # b # rest) =
    (if col = 8 then newline @ ''    '' @ [a, b] @ fingerprint_rows 1 rest
     else (if col > 0 then '':'' else []) @ [a, b] @ fingerprint_rows (Suc col) rest)"
| "fingerprint_rows col _ = []"

definition formatFingerprintForBanner :: "string \<Rightarrow> string" where
  "formatFingerprintForBanner hex =
    (if hex = [] then ''    (none)''
     else if length hex mod 2 \<noteq> 0 then ''    '' @ hex
     else ''    '' @ fingerprint_rows 0 hex)"

datatype ip_addr = IPNet "8 word list" | OtherAddr

record net_iface =
  ni_loopback :: bool
  ni_up :: bool
  ni_addrs :: "ip_addr list result"

definition to4 :: "8 word list \<Rightarrow> (8 word list) option" where
  "to4 ip = (if length ip = 4 then Some ip
     else if length ip = 16 \<and> take 12 ip = replicate 10 0 @ [255, 255] then Some (drop 12 ip) else None)"

definition dotted :: "8 word list \<Rightarrow> string" where
  "dotted ip = join_with CHR ''.'' (map (\<lambda>b. itoa (unat b)) ip)"

fun first_ipv4 :: "ip_addr list \<Rightarrow> string option" where
  "first_ipv4 [] = None"
| "first_ipv4 (OtherAddr # as) = first_ipv4 as"
| "first_ipv4 (IPNet ip # as) =
    (case to4 ip of
       None \<Rightarrow> first_ipv4 as
     | Some ipv4 \<Rightarrow> if hd ipv4 = 127 then first_ipv4 as else Some (dotted ipv4))"

fun ipv4_of :: "net_iface list \<Rightarrow> string" where
  "ipv4_of [] = []"
| "ipv4_of (i # is) =
    (if ni_loopback i \<or> \<not> ni_up i then ipv4_of is
     else (case ni_addrs i of
        Inl _ \<Rightarrow> ipv4_of is
      | Inr addrs \<Rightarrow> (case first_ipv4 addrs of None \<Rightarrow> ipv4_of is | Some s \<Rightarrow> s)))"

definition defaultIPv4 :: "net_iface list result \<Rightarrow> string" where
  "defaultIPv4 ifaces = (case ifaces of Inl _ \<Rightarrow> [] | Inr is \<Rightarrow> ipv4_of is)"

definition banner_status :: "banner_info \<Rightarrow> string \<Rightarrow> string" where
  "banner_status info ip =
    (if bi_StoreBroken info then
       (let errMsg = (if bi_StoreError info = [] then ''(see capsuled logs)'' else bi_StoreError info) in
        ''  status: STATE UNREADABLE '' @ em_dash @ '' refusing adoption'' @ newline @ ''  error:  '' @ errMsg @ newline @
        ''  recover: restore /perm/capsule/state.db, or touch /perm/capsule/RESET_AUTH and reboot'' @ newline)
     else if bi_InstallerMode info then
       (let disk = (if bi_TargetDisk info = [] then ''(no target disk detected)'' else bi_TargetDisk info);
            tgt = (if bi_TargetSize info \<noteq> [] then disk @ ''  ('' @ bi_TargetSize info @ '')'' else disk) in
        ''  status: INSTALLER  ready to flash internal disk'' @ newline @ ''  target: '' @ tgt @ newline @
        ''  capsulectl install '' @ bi_ShortID info @ '' --name <name>'' @ newline)
     else if bi_ClaimOpen info then
       ''  status: AWAITING ADOPTION'' @ newline @ ''  capsulectl adopt --capsule '' @ ipForCmd ip @ '':'' @
       itoa (bi_GRPCPort info) @ newline
     else
       ''  status: adopted ('' @ itoa (bi_EnrolledKeys info) @ '' enrolled key(s))'' @ newline @
       ''  capsulectl --capsule '' @ ipForCmd ip @ '':'' @ itoa (bi_GRPCPort info) @ '' capsule info'' @ newline)"

definition banner_text :: "banner_info \<Rightarrow> net_iface list result \<Rightarrow> string" where
  "banner_text info ifaces =
    (let found = defaultIPv4 ifaces;
         ip = (if found = [] then ''(no IP '' @ em_dash @ '' DHCP failed?)'' else found);
         id = (if bi_ShortID info = [] then ''(short_id pending '' @ em_dash @ '' reboot to generate)'' else bi_ShortID info)
     in newline @
        ''   ____    _    ____  ____  _   _ _     _____'' @ newline @
        ''  / ___|  / '' @ [CHR 0x5C] @ ''  |  _ '' @ [CHR 0x5C] @ ''/ ___|| | | | |   | ____|'' @ newline @
        '' | |     / _ '' @ [CHR 0x5C] @ '' | |_) '' @ [CHR 0x5C] @ ''___ '' @ [CHR 0x5C] @ ''| | | | |   |  _|'' @ newline @
        '' | |___ / ___ '' @ [CHR 0x5C] @ ''|  __/ ___) | |_| | |___| |___'' @ newline @
        ''  '' @ [CHR 0x5C] @ ''____/_/   '' @ [CHR 0x5C] @ ''_'' @ [CHR 0x5C] @ ''_|   |____/ '' @ [CHR 0x5C] @ ''___/|_____|_____|'' @ newline @
        newline @ ''  '' @ id @ ''  '' @ ip @ '':'' @ itoa (bi_GRPCPort info) @ newline @
        banner_status info ip @ ''  tls fingerprint (sha256):'' @ newline @
        formatFingerprintForBanner (bi_TLSFingerprint info) @ newline @ newline)"

definition PrintBanner :: "'w host_ops \<Rightarrow> banner_info \<Rightarrow> net_iface list result \<Rightarrow> 'w \<Rightarrow> 'w" where
  "PrintBanner H info ifaces w =
    fold (\<lambda>p v. snd (ho_write H p (banner_text info ifaces) v)) [''/dev/tty0'', ''/dev/console''] w"

text \<open>The grouped fingerprint is the fingerprint once separators and line breaks are removed.\<close>

lemma fingerprint_rows_plain:
  "even (length hex) \<Longrightarrow> \<forall>c\<in>set hex. c \<notin> {CHR '':'', CHR '' '', CHR 0x0A} \<Longrightarrow>
   filter (\<lambda>c. c \<notin> {CHR '':'', CHR '' '', CHR 0x0A}) (fingerprint_rows col hex) = hex"
  by (induction col hex rule: fingerprint_rows.induct) (auto simp: newline_def)

end
