(* ===== verification/Capsule_Controllers.thy ===== *)
theory Capsule_Controllers
  imports Capsule_Path Capsule_Workload Capsule_Update Capsule_Boot
begin

text \<open>
  The request handlers for workloads, files of workloads and the capsule itself (\<^verbatim>\<open>src/controllers/workload.go\<close>,
  \<^verbatim>\<open>workload_copy.go\<close>, \<^verbatim>\<open>capsule.go\<close>, \<^verbatim>\<open>capsule_linux.go\<close>) and the router that exposes them (\<^verbatim>\<open>src/router/router.go\<close>).
  Streams are the lists of their events: what a client sends, what a reader returns.
\<close>

section \<open>Workloads\<close>

definition workload_not_found :: "go_error \<Rightarrow> go_error" where
  "workload_not_found e = (if errors_is e ErrNotFound then Status NotFound ''workload not found'' else Status Internal (error_text e))"

text \<open>A handler answers with the value of the service's call, or with its error translated to a status.\<close>

definition answer :: "(go_error \<Rightarrow> go_error) \<Rightarrow> ('w, 'a) action \<Rightarrow> ('w, 'a) action" where
  "answer status m st = (case m st of (Inl e, st1) \<Rightarrow> (Inl (status e), st1) | (Inr x, st1) \<Rightarrow> (Inr x, st1))"

definition WorkloadController_Apply :: "('s, 'r) service \<Rightarrow> workload option \<Rightarrow> (('s, 'r) wstate, workload) action" where
  "WorkloadController_Apply svc w st =
    (if w = None then (Inl (Status InvalidArgument ''workload is required''), st)
     else answer (\<lambda>e. Status InvalidArgument (error_text e)) (workload_Apply svc w) st)"

definition WorkloadController_Get :: "('s, 'r) service \<Rightarrow> string \<Rightarrow> (('s, 'r) wstate, workload) action" where
  "WorkloadController_Get svc name = answer workload_not_found (workload_Get svc name)"

definition WorkloadController_List :: "('s, 'r) service \<Rightarrow> (('s, 'r) wstate, workload list) action" where
  "WorkloadController_List svc = answer (\<lambda>e. Status Internal (error_text e)) (workload_List svc)"

definition WorkloadController_Delete :: "('s, 'r) service \<Rightarrow> string \<Rightarrow> (('s, 'r) wstate, unit) action" where
  "WorkloadController_Delete svc name = answer (\<lambda>e. Status Internal (error_text e)) (workload_Delete svc name)"

definition WorkloadController_Restart :: "('s, 'r) service \<Rightarrow> string \<Rightarrow> (('s, 'r) wstate, unit) action" where
  "WorkloadController_Restart svc name = answer workload_not_found (workload_Restart svc name)"

definition WorkloadController_Stop :: "('s, 'r) service \<Rightarrow> string \<Rightarrow> (('s, 'r) wstate, unit) action" where
  "WorkloadController_Stop svc name = answer workload_not_found (workload_Stop svc name)"

definition WorkloadController_Start :: "('s, 'r) service \<Rightarrow> string \<Rightarrow> (('s, 'r) wstate, unit) action" where
  "WorkloadController_Start svc name = answer workload_not_found (workload_Start svc name)"

section \<open>Tails of log files\<close>

text \<open>An open file: its size, reads at an offset, and the position after a seek. A file that was just opened is at 0.\<close>

record log_file =
  lf_Stat :: "nat result"
  lf_ReadAt :: "nat \<Rightarrow> nat \<Rightarrow> string result"
  lf_Seek :: "nat \<Rightarrow> nat result"

text \<open>The scan of one block from its end: the position of the newline that completes the count, or the count so far.\<close>

fun scan_block :: "string \<Rightarrow> nat \<Rightarrow> nat \<Rightarrow> nat \<Rightarrow> nat + nat" where
  "scan_block buf want found 0 = Inl found"
| "scan_block buf want found (Suc i) =
    (if buf ! i = CHR 0x0A
     then (if found + 1 = want then Inr i else scan_block buf want (found + 1) i)
     else scan_block buf want found i)"

definition tail_block :: nat where "tail_block = 4096"

function tail_loop :: "log_file \<Rightarrow> nat \<Rightarrow> nat \<Rightarrow> nat \<Rightarrow> nat result" where
  "tail_loop F want off found =
    (if off = 0 then lf_Seek F 0
     else let chunk = (if off < tail_block then off else tail_block); off1 = off - chunk
          in case lf_ReadAt F off1 chunk of
               Inl e \<Rightarrow> Inl e
             | Inr buf \<Rightarrow>
                (case scan_block buf want found chunk of
                   Inr i \<Rightarrow> lf_Seek F (off1 + i + 1)
                 | Inl found1 \<Rightarrow> tail_loop F want off1 found1))"
  by pat_completeness auto
termination
  by (relation "measure (\<lambda>(F, want, off, found). off)") (auto simp: tail_block_def)

declare tail_loop.simps [simp del]

definition seekTail :: "log_file \<Rightarrow> int \<Rightarrow> nat result" where
  "seekTail F lines =
    (case lf_Stat F of
       Inl e \<Rightarrow> Inl e
     | Inr sz \<Rightarrow> if sz = 0 \<or> lines \<le> 0 then Inr 0 else tail_loop F (nat lines + 1) sz 0)"

section \<open>Streaming logs\<close>

text \<open>What one read returns: bytes, and whether it ended with end of file or an error; with it what the send of those bytes, the check
  for the end of the workload and the wait return.\<close>

datatype read_end = ReadMore | ReadEOF | ReadErr go_error

record log_turn =
  lt_data :: string
  lt_end :: read_end
  lt_send :: "go_error option"
  lt_stop :: bool
  lt_done :: bool

text \<open>The outcome and the chunks sent; \<open>None\<close> when the stream still runs after the given turns.\<close>

fun streamReaderToLogs :: "bool \<Rightarrow> log_turn list \<Rightarrow> unit result option \<times> string list" where
  "streamReaderToLogs follow [] = (None, [])"
| "streamReaderToLogs follow (t # ts) =
    (let rest = (let (r, out) = streamReaderToLogs follow ts
                 in (r, if lt_data t = [] then out else lt_data t # out));
         here = (if lt_data t = [] then [] else [lt_data t])
     in if lt_data t \<noteq> [] \<and> lt_send t \<noteq> None then (Some (Inl (the (lt_send t))), [])
        else (case lt_end t of
                ReadMore \<Rightarrow> rest
              | ReadErr e \<Rightarrow> (Some (Inl (Status Internal (error_text e))), here)
              | ReadEOF \<Rightarrow>
                  if \<not> follow \<or> lt_stop t \<or> lt_done t then (Some (Inr ()), here) else rest))"

text \<open>The closure of \<open>makeLogsShouldStop\<close> with its two captured variables; \<open>now\<close> is the clock in nanoseconds and \<open>lastCheck\<close> the zero time
  before the first lookup, which is long ago.\<close>

record stop_check =
  sk_lastCheck :: "int option"
  sk_lastResult :: bool

definition phase_ends_logs :: "workload option \<Rightarrow> bool" where
  "phase_ends_logs w =
    (case w of None \<Rightarrow> True
     | Some w \<Rightarrow>
        (case wl_status w of None \<Rightarrow> True
         | Some s \<Rightarrow> st_phase s \<noteq> WORKLOAD_PHASE_RUNNING \<and> st_phase s \<noteq> WORKLOAD_PHASE_PENDING))"

definition logsShouldStop ::
  "('s, 'r) service \<Rightarrow> string \<Rightarrow> int \<Rightarrow> stop_check \<times> ('s, 'r) wstate \<Rightarrow> bool \<times> stop_check \<times> ('s, 'r) wstate" where
  "logsShouldStop svc name now = (\<lambda>(k, st).
    if (case sk_lastCheck k of Some t \<Rightarrow> now - t < 2000000000 | None \<Rightarrow> False) then (sk_lastResult k, k, st)
    else (case workload_Get svc name st of (r, st1) \<Rightarrow>
      let stop = phase_ends_logs (case r of Inl _ \<Rightarrow> None | Inr w \<Rightarrow> Some w)
      in (stop, \<lparr>sk_lastCheck = Some now, sk_lastResult = stop\<rparr>, st1)))"

text \<open>What \<open>Logs\<close> streams from: a file from a position on, or a reader of the service.\<close>

datatype log_origin = FromFile log_file nat | FromReader reader

definition ErrNotExist :: go_error where
  "ErrNotExist = Sentinel ''file does not exist''"

definition logs_from_service ::
  "(string \<Rightarrow> reader result) \<Rightarrow> ('s, 'r) service \<Rightarrow> string \<Rightarrow> bool \<Rightarrow> int \<Rightarrow> log_source \<Rightarrow> (('s, 'r) wstate, log_origin) action" where
  "logs_from_service open_file svc name follow tail_lines source st =
    (case workload_OpenLogs open_file svc name follow tail_lines source st of
       (Inl e, st1) \<Rightarrow> (Inl (if errors_is e ErrNotExist then Status NotFound ''no logs yet'' else Status Internal (error_text e)), st1)
     | (Inr rc, st1) \<Rightarrow> (Inr (FromReader rc), st1))"

text \<open>\<open>os_open\<close> opens a path for seeking; a path that cannot be opened falls through to the service.\<close>

definition WorkloadController_Logs ::
  "(string \<Rightarrow> log_file result) \<Rightarrow> (string \<Rightarrow> reader result) \<Rightarrow> ('s, 'r) service \<Rightarrow> string \<Rightarrow> bool \<Rightarrow> int \<Rightarrow> bool \<Rightarrow>
   (('s, 'r) wstate, log_origin) action" where
  "WorkloadController_Logs os_open open_file svc name follow tail_lines serial st =
    (if name = [] then (Inl (Status InvalidArgument ''name is required''), st)
     else
       let source = (if serial then LogSourceSerial else LogSourcePayload);
           path = workload_LogPath svc name;
           service = logs_from_service open_file svc name follow tail_lines source
       in if source = LogSourcePayload \<and> tail_lines > 0 \<and> path \<noteq> []
          then (case os_open path of
                  Inl _ \<Rightarrow> service st
                | Inr f \<Rightarrow>
                   (case seekTail f tail_lines of
                      Inl e \<Rightarrow> (Inl (Status Internal (error_text e)), st)
                    | Inr pos \<Rightarrow> (Inr (FromFile f pos), st)))
          else service st)"

section \<open>Commands and files in workloads\<close>

record exec_config =
  xc_name :: string
  xc_command :: "string list"
  xc_env :: "(string \<times> string) list"
  xc_tty :: bool

datatype exec_client_message = ExecConfig exec_config | ExecStdin string | ExecResize "32 word" "32 word"

text \<open>The chunks a pump forwards, from what each read of the pipe returns and what its send returns; it stops at the first error.\<close>

fun pumpReaderToStream :: "(string \<times> read_end \<times> go_error option) list \<Rightarrow> string list" where
  "pumpReaderToStream [] = []"
| "pumpReaderToStream ((b, stop, serr) # rs) =
    (if b \<noteq> [] \<and> serr \<noteq> None then []
     else (if b = [] then [] else [b]) @ (if stop = ReadMore then pumpReaderToStream rs else []))"

record exec_answer =
  ea_stdout :: "string list"
  ea_stderr :: "string list"
  ea_exit :: "32 word"

text \<open>\<open>out\<close> and \<open>err\<close> are what the pipes of the process deliver, and \<open>send\<close> the outcome of the last message, which carries the exit code as
  an \<open>int32\<close>. With a terminal the error stream is not forwarded. The answer to a failed call leaves out the chunks sent before the failure.\<close>

definition WorkloadController_Exec ::
  "('s, 'r) service \<Rightarrow> exec_client_message result \<Rightarrow> (string \<times> read_end \<times> go_error option) list \<Rightarrow>
   (string \<times> read_end \<times> go_error option) list \<Rightarrow> go_error option \<Rightarrow> (('s, 'r) wstate, exec_answer) action" where
  "WorkloadController_Exec svc first out err send st =
    (case first of
       Inl e \<Rightarrow> (Inl e, st)
     | Inr (ExecConfig cfg) \<Rightarrow>
         if xc_name cfg = [] then (Inl (Status InvalidArgument ''config.name is required''), st)
         else if xc_command cfg = [] then (Inl (Status InvalidArgument ''config.command is required''), st)
         else (case workload_Exec svc \<lparr>er_Name = xc_name cfg, er_Command = xc_command cfg, er_Env = xc_env cfg, er_TTY = xc_tty cfg\<rparr> st of
                 (Inl e, st1) \<Rightarrow> (Inl (Status Internal (error_text e)), st1)
               | (Inr code, st1) \<Rightarrow>
                  (case send of
                     Some e \<Rightarrow> (Inl e, st1)
                   | None \<Rightarrow> (Inr \<lparr>ea_stdout = pumpReaderToStream out,
                        ea_stderr = (if xc_tty cfg then [] else pumpReaderToStream err), ea_exit = word_of_int code\<rparr>, st1)))
     | Inr _ \<Rightarrow> (Inl (Status InvalidArgument ''first Exec message must carry config''), st))"

text \<open>The receiving loop of \<open>Exec\<close>: the bytes written to the process and the outcome; resize events do not write.\<close>

datatype 'm recv_event = Recv 'm "go_error option" | RecvEOF | RecvErr go_error

fun exec_recv :: "exec_client_message recv_event list \<Rightarrow> string \<times> unit result" where
  "exec_recv [] = ([], Inr ())"
| "exec_recv (RecvEOF # _) = ([], Inr ())"
| "exec_recv (RecvErr e # _) = ([], Inl e)"
| "exec_recv (Recv (ExecStdin b) werr # es) =
    (case werr of Some e \<Rightarrow> ([], Inl e) | None \<Rightarrow> (let (bs, r) = exec_recv es in (b @ bs, r)))"
| "exec_recv (Recv (ExecResize _ _) _ # es) = exec_recv es"
| "exec_recv (Recv (ExecConfig _) _ # es) = exec_recv es"

definition copyTrim :: "string \<Rightarrow> string" where
  "copyTrim out = (let s = trim_space out in if length s > 1024 then take 1024 s @ [CHR 0xE2, CHR 0x80, CHR 0xA6] else s)"

text \<open>The shell helper of \<open>CopyTo\<close>, line by line.\<close>

definition copyToScript :: string where
  "copyToScript = join_with CHR 0x0A
    [''set -e'',
     ''DEST=\"$CAPSULE_CP_DEST\"'',
     ''case \"$DEST\" in'',
     ''    */)'',
     ''        D=\"${DEST%/}\"'',
     ''        [ -z \"$D\" ] && D=/'',
     ''        mkdir -p \"$D\"'',
     ''        exec tar x -C \"$D\"'',
     ''        ;;'',
     ''esac'',
     ''if [ -d \"$DEST\" ]; then'',
     ''    exec tar x -C \"$DEST\"'',
     ''fi'',
     ''parent=$(dirname \"$DEST\")'',
     ''mkdir -p \"$parent\"'',
     ''tmp=$(mktemp -d \"${parent%/}/.capsule-cp.XXXXXX\")'',
     ''trap 'rm -rf \"$tmp\"' EXIT'',
     ''tar x -C \"$tmp\"'',
     ''nentries=$(ls -A \"$tmp\" | wc -l)'',
     ''if [ \"$nentries\" -ne 1 ]; then'',
     ''    echo \"capsule cp: expected 1 top-level archive entry, got $nentries\" >&2'',
     ''    exit 1'',
     ''fi'',
     ''entry=$(ls -A \"$tmp\")'',
     ''[ -e \"$DEST\" ] && rm -rf \"$DEST\"'',
     ''mv \"$tmp/$entry\" \"$DEST\"'',
     []]"

text \<open>The receiving loop of \<open>CopyTo\<close>: the bytes written and the outcome. A message is its chunk, with what the write returns; empty
  chunks are skipped and a failing write has written \<open>n\<close> bytes.\<close>

datatype copy_event = CopyChunk string | CopyShort nat go_error | CopyEOF | CopyErr go_error

fun copy_recv :: "copy_event list \<Rightarrow> int \<times> unit result" where
  "copy_recv [] = (0, Inr ())"
| "copy_recv (CopyEOF # _) = (0, Inr ())"
| "copy_recv (CopyErr e # _) = (0, Inl e)"
| "copy_recv (CopyShort n e # _) = (int n, Inl e)"
| "copy_recv (CopyChunk c # es) = (let (n, r) = copy_recv es in (int (length c) + n, r))"

record copy_metadata =
  cm_name :: string
  cm_dest_path :: string

text \<open>\<open>stderr\<close> is what the command printed to its error stream.\<close>

definition CopyTo ::
  "('s, 'r) service \<Rightarrow> (('s, 'r) wstate \<Rightarrow> string) \<Rightarrow> copy_metadata option result \<Rightarrow> copy_event list \<Rightarrow> go_error option \<Rightarrow>
   (('s, 'r) wstate, int) action" where
  "CopyTo svc stderr first msgs send st =
    (case first of
       Inl e \<Rightarrow> (Inl e, st)
     | Inr None \<Rightarrow> (Inl (Status InvalidArgument ''first CopyTo message must carry metadata''), st)
     | Inr (Some md) \<Rightarrow>
         if cm_name md = [] then (Inl (Status InvalidArgument ''metadata.name is required''), st)
         else if cm_dest_path md = [] \<or> \<not> path_is_abs (cm_dest_path md)
         then (Inl (Status InvalidArgument ''metadata.dest_path must be an absolute path''), st)
         else
           (case workload_Exec svc \<lparr>er_Name = cm_name md, er_Command = [''/bin/sh'', ''-c'', copyToScript],
                    er_Env = [(''CAPSULE_CP_DEST'', cm_dest_path md)], er_TTY = False\<rparr> st of
              (Inl e, st1) \<Rightarrow> (Inl (Status Internal (''exec tar x: '' @ error_text e)), st1)
            | (Inr code, st1) \<Rightarrow>
                if code \<noteq> 0 then (Inl (Status Internal (''tar x exited: '' @ copyTrim (stderr st1))), st1)
                else (case copy_recv msgs of
                        (_, Inl e) \<Rightarrow> (Inl (Status Internal (''receive: '' @ error_text e)), st1)
                      | (n, Inr _) \<Rightarrow> (case send of Some e \<Rightarrow> (Inl e, st1) | None \<Rightarrow> (Inr n, st1)))))"

text \<open>The forwarding loop of \<open>CopyFrom\<close>, with what each read of the archive returns and what its send returns.\<close>

fun copy_send :: "(string \<times> read_end \<times> go_error option) list \<Rightarrow> string list \<times> unit result" where
  "copy_send [] = ([], Inr ())"
| "copy_send ((b, stop, serr) # rs) =
    (if b \<noteq> [] \<and> serr \<noteq> None then ([], Inl (the serr))
     else let here = (if b = [] then [] else [b])
          in case stop of
               ReadEOF \<Rightarrow> (here, Inr ())
             | ReadErr e \<Rightarrow> (here, Inl e)
             | ReadMore \<Rightarrow> (let (out, r) = copy_send rs in (here @ out, r)))"

definition CopyFrom ::
  "('s, 'r) service \<Rightarrow> (('s, 'r) wstate \<Rightarrow> string) \<Rightarrow> string \<Rightarrow> string \<Rightarrow>
   (string \<times> read_end \<times> go_error option) list \<Rightarrow> (('s, 'r) wstate, string list) action" where
  "CopyFrom svc stderr name src reads st =
    (if name = [] then (Inl (Status InvalidArgument ''name is required''), st)
     else if src = [] \<or> \<not> path_is_abs src then (Inl (Status InvalidArgument ''src_path must be an absolute path''), st)
     else
       (case workload_Exec svc \<lparr>er_Name = name,
                er_Command = [''/bin/sh'', ''-c'', ''exec tar c -C \"$CAPSULE_CP_PARENT\" -- \"$CAPSULE_CP_BASE\"''],
                er_Env = [(''CAPSULE_CP_PARENT'', go_path_Dir src), (''CAPSULE_CP_BASE'', go_path_Base src)], er_TTY = False\<rparr> st of
          (Inl e, st1) \<Rightarrow> (Inl (Status Internal (''exec tar c: '' @ error_text e)), st1)
        | (Inr code, st1) \<Rightarrow>
            if code \<noteq> 0 then (Inl (Status Internal (''tar c exited: '' @ copyTrim (stderr st1))), st1)
            else (case copy_send reads of (_, Inl e) \<Rightarrow> (Inl e, st1) | (out, Inr _) \<Rightarrow> (Inr out, st1))))"

section \<open>The tail of a file\<close>

abbreviation nl :: char where "nl \<equiv> CHR 0x0A"

abbreviation newlines :: "string \<Rightarrow> nat" where "newlines s \<equiv> count_list s nl"

text \<open>A file with given contents that can be read.\<close>

definition readable :: "log_file \<Rightarrow> string \<Rightarrow> bool" where
  "readable F s \<longleftrightarrow>
    lf_Stat F = Inr (length s) \<and>
    (\<forall>off n. off + n \<le> length s \<longrightarrow> lf_ReadAt F off n = Inr (take n (drop off s))) \<and>
    (\<forall>p. lf_Seek F p = Inr p)"

lemma length_split_nl: "length (split_on nl s) = newlines s + 1"
  by (induction s) (auto split: list.splits)

text \<open>What a scan of the first \<open>i\<close> bytes finds.\<close>

definition scanned :: "string \<Rightarrow> nat \<Rightarrow> nat \<Rightarrow> nat \<Rightarrow> nat + nat \<Rightarrow> bool" where
  "scanned buf want found i r =
    (case r of
       Inl f \<Rightarrow> f = found + newlines (take i buf) \<and> f < want
     | Inr j \<Rightarrow> j < i \<and> buf ! j = nl \<and> found + newlines (drop j (take i buf)) = want)"

lemma newlines_step: "newlines (xs @ [c]) = newlines xs + newlines [c]"
  by (rule count_list_append)

lemma scanned_step:
  assumes "scanned buf want (found + newlines [c]) i r" "Suc i \<le> length buf" "buf ! i = c"
  shows "scanned buf want found (Suc i) r"
proof -
  have t: "take (Suc i) buf = take i buf @ [c]" using assms(2,3) by (simp add: take_Suc_conv_app_nth)
  show ?thesis
  proof (cases r)
    case (Inl f)
    from assms(1) have "f = found + newlines [c] + newlines (take i buf) \<and> f < want" unfolding scanned_def Inl sum.case .
    then show ?thesis unfolding scanned_def t newlines_step Inl sum.case by linarith
  next
    case (Inr j)
    from assms(1) have j: "j < i" "buf ! j = nl" "found + newlines [c] + newlines (drop j (take i buf)) = want"
      unfolding scanned_def Inr sum.case by blast+
    have d: "drop j (take i buf @ [c]) = drop j (take i buf) @ [c]" using j(1) assms(2) by simp
    show ?thesis unfolding scanned_def t Inr sum.case d newlines_step using j by linarith
  qed
qed

lemma scan_block_spec: "i \<le> length buf \<Longrightarrow> found < want \<Longrightarrow> scanned buf want found i (scan_block buf want found i)"
proof (induction buf want found i rule: scan_block.induct)
  case (2 buf want found i)
  consider (hit) "buf ! i = nl" "found + 1 = want" | (nl) "buf ! i = nl" "found + 1 \<noteq> want" | (other) "buf ! i \<noteq> nl" by blast
  then show ?case
  proof cases
    case hit
    then have "scanned buf want found (Suc i) (Inr i)" using 2(3) by (simp add: scanned_def take_Suc_conv_app_nth)
    then show ?thesis using hit by simp
  next
    case nl
    have "scanned buf want (found + newlines [nl]) i (scan_block buf want (found + 1) i)" using 2(1) [OF nl] 2(3,4) nl(2) by simp
    from scanned_step [OF this 2(3) nl(1)] show ?thesis using nl by simp
  next
    case other
    have "scanned buf want (found + newlines [buf ! i]) i (scan_block buf want found i)" using 2(2) [OF other] 2(3,4) other by simp
    from scanned_step [OF this 2(3) refl] show ?thesis using other by simp
  qed
qed (simp add: scanned_def)

text \<open>The last \<open>k\<close> pieces between newlines.\<close>

definition last_pieces :: "nat \<Rightarrow> string \<Rightarrow> string list" where
  "last_pieces k s = drop (length (split_on nl s) - k) (split_on nl s)"

lemma pieces_after_newline:
  assumes "p < length s" "s ! p = nl" "newlines (drop p s) = want"
  shows "split_on nl (drop (p + 1) s) = last_pieces want s"
proof -
  have s: "s = take p s @ nl # drop (p + 1) s" using assms(1,2) by (metis Suc_eq_plus1 id_take_nth_drop)
  have d: "drop p s = nl # drop (p + 1) s" using assms(1,2) by (metis Cons_nth_drop_Suc Suc_eq_plus1)
  have sp: "split_on nl s = split_on nl (take p s) @ split_on nl (drop (p + 1) s)" by (subst s) (rule split_on_sep)
  have len: "length (split_on nl (drop (p + 1) s)) = want" using assms(3) by (simp add: d length_split_nl)
  show ?thesis unfolding last_pieces_def sp using len by simp
qed

lemma tail_loop_spec:
  assumes "readable F s" "off \<le> length s" "newlines (drop off s) = found" "found < want"
  shows "\<exists>p. tail_loop F want off found = Inr p \<and> p \<le> length s \<and> split_on nl (drop p s) = last_pieces want s"
  using assms(2-4)
proof (induction off arbitrary: found rule: less_induct)
  case (less off)
  show ?case
  proof (cases "off = 0")
    case True
    then have "length (split_on nl s) \<le> want" using less(3,4) by (simp add: length_split_nl)
    then show ?thesis using True assms(1) by (subst tail_loop.simps) (simp add: readable_def last_pieces_def)
  next
    case False
    define chunk where "chunk = (if off < tail_block then off else tail_block)"
    define buf where "buf = take chunk (drop (off - chunk) s)"
    have c: "0 < chunk" "chunk \<le> off" using False by (simp_all add: chunk_def tail_block_def)
    have r: "lf_ReadAt F (off - chunk) chunk = Inr buf" using assms(1) less(2) c by (simp add: readable_def buf_def)
    have lb: "length buf = chunk" using less(2) c by (simp add: buf_def)
    have "drop off s = drop chunk (drop (off - chunk) s)" using c by simp
    then have cat: "drop (off - chunk) s = buf @ drop off s" unfolding buf_def by (simp only: append_take_drop_id)
    have sk: "lf_Seek F p = Inr p" for p using assms(1) by (simp add: readable_def)
    have step: "tail_loop F want off found = (case scan_block buf want found chunk of
        Inr i \<Rightarrow> Inr (off - chunk + i + 1) | Inl f \<Rightarrow> tail_loop F want (off - chunk) f)"
      by (subst tail_loop.simps) (simp only: Let_def chunk_def [symmetric] False if_False r sum.case sk)
    have spec: "scanned buf want found chunk (scan_block buf want found chunk)"
      using less(4) lb by (intro scan_block_spec) simp_all
    show ?thesis
    proof (cases "scan_block buf want found chunk")
      case (Inl f)
      then have "f = newlines (drop (off - chunk) s)" "f < want" using spec lb less(3) by (simp_all add: cat scanned_def)
      then show ?thesis using less(1) [of "off - chunk" f] c less(2) by (simp add: step Inl)
    next
      case (Inr j)
      let ?p = "off - chunk + j"
      have j: "j < chunk" "buf ! j = nl" "found + newlines (drop j buf) = want" using spec lb by (simp_all add: Inr scanned_def)
      have "drop ?p s = drop j (drop (off - chunk) s)" by (simp add: add.commute)
      then have d: "drop ?p s = drop j buf @ drop off s" using j(1) lb by (simp add: cat)
      have p: "?p < length s" using j(1) c less(2) by simp
      have "s ! ?p = drop (off - chunk) s ! j" using less(2) by (subst nth_drop) simp_all
      then have "s ! ?p = nl" using j(1,2) lb by (simp add: cat nth_append)
      moreover have "newlines (drop ?p s) = want" using j(3) less(3) by (simp add: d)
      ultimately have "split_on nl (drop (?p + 1) s) = last_pieces want s" by (intro pieces_after_newline p)
      then show ?thesis using p by (simp add: step Inr)
    qed
  qed
qed

text \<open>C28: asking for the last lines of a log positions the stream exactly there: the backward scan in blocks of 4096
  bytes ends on every readable file, and what is read from its position is, cut at newlines, the last \<open>lines + 1\<close> pieces of the file,
  that is the last \<open>lines\<close> complete lines and the unfinished one after them; a shorter file is read from its start.\<close>

theorem seekTail_last_lines:
  assumes "readable F s" "0 < lines"
  shows "\<exists>p. seekTail F lines = Inr p \<and> p \<le> length s \<and>
    split_on nl (drop p s) = drop (length (split_on nl s) - (nat lines + 1)) (split_on nl s)"
proof (cases "s = []")
  case True
  then show ?thesis using assms by (simp add: seekTail_def readable_def)
next
  case False
  then show ?thesis using assms tail_loop_spec [OF assms(1), of "length s" 0 "nat lines + 1"]
    by (simp add: seekTail_def readable_def last_pieces_def)
qed

definition memory_file :: "string \<Rightarrow> log_file" where
  "memory_file s = \<lparr>lf_Stat = Inr (length s), lf_ReadAt = (\<lambda>off n. Inr (take n (drop off s))), lf_Seek = Inr\<rparr>"

theorem seekTail_last_lines_witness:
  "\<exists>p. seekTail (memory_file (''a'' @ [nl] @ ''b'' @ [nl] @ ''c'' @ [nl])) 2 = Inr p \<and> p \<le> length (''a'' @ [nl] @ ''b'' @ [nl] @ ''c'' @ [nl]) \<and>
     split_on nl (drop p (''a'' @ [nl] @ ''b'' @ [nl] @ ''c'' @ [nl])) = [''b'', ''c'', []]"
  using seekTail_last_lines [of "memory_file (''a'' @ [nl] @ ''b'' @ [nl] @ ''c'' @ [nl])" "''a'' @ [nl] @ ''b'' @ [nl] @ ''c'' @ [nl]" 2]
  by (simp add: readable_def memory_file_def)

section \<open>The capsule\<close>

record capsule_controller =
  cp_CapsuleVersion :: string
  cp_ActiveSlot :: string
  cp_ShortID :: string
  cp_LogPath :: string

definition StreamLogs_open :: "(string \<Rightarrow> log_file result) \<Rightarrow> capsule_controller \<Rightarrow> int \<Rightarrow> (log_file \<times> nat) result" where
  "StreamLogs_open os_open c tail_lines =
    (if cp_LogPath c = [] then Inl (Status FailedPrecondition ''capsuled log path not configured'')
     else case os_open (cp_LogPath c) of
       Inl e \<Rightarrow> Inl (if e = ErrNotExist then Status NotFound ''no capsule logs yet'' else Status Internal (error_text e))
     | Inr f \<Rightarrow>
        if tail_lines > 0
        then (case seekTail f tail_lines of Inl e \<Rightarrow> Inl (Status Internal (error_text e)) | Inr p \<Rightarrow> Inr (f, p))
        else Inr (f, 0))"

text \<open>The loop of \<open>StreamLogs\<close> is the one of \<open>Logs\<close> with no check for an end.\<close>

definition StreamLogs ::
  "(string \<Rightarrow> log_file result) \<Rightarrow> capsule_controller \<Rightarrow> bool \<Rightarrow> int \<Rightarrow> (log_file \<Rightarrow> nat \<Rightarrow> log_turn list) \<Rightarrow>
   unit result option \<times> string list" where
  "StreamLogs os_open c follow tail_lines turns =
    (case StreamLogs_open os_open c tail_lines of
       Inl e \<Rightarrow> (Some (Inl e), [])
     | Inr (f, p) \<Rightarrow> streamReaderToLogs follow (map (\<lambda>t. t\<lparr>lt_stop := False\<rparr>) (turns f p)))"

text \<open>\<open>strconv.ParseUint\<close> returns a value with its error: zero for bad syntax, the largest number for one out of range.\<close>

definition parse_uint_value :: "string \<Rightarrow> 64 word" where
  "parse_uint_value s =
    (if s = [] then 0
     else case parse_digits 0 s of None \<Rightarrow> 0 | Some n \<Rightarrow> if n < 2 ^ 64 then word_of_nat n else - 1)"

definition meminfoKB :: "string \<Rightarrow> 64 word" where
  "meminfoKB line = (case str_fields line of _ # v # _ \<Rightarrow> parse_uint_value v | _ \<Rightarrow> 0)"

definition read_meminfo :: "64 word \<times> 64 word \<Rightarrow> string \<Rightarrow> 64 word \<times> 64 word" where
  "read_meminfo m line =
    (if has_prefix line ''MemTotal:'' then (meminfoKB line * 1024, snd m)
     else if has_prefix line ''MemAvailable:'' then (fst m, meminfoKB line * 1024)
     else m)"

definition memInfo :: "string result \<Rightarrow> 64 word \<times> 64 word" where
  "memInfo meminfo = (case meminfo of Inl _ \<Rightarrow> (0, 0) | Inr s \<Rightarrow> foldl read_meminfo (0, 0) (split_on CHR 0x0A s))"

definition read_cpuinfo :: "string \<Rightarrow> string \<Rightarrow> string" where
  "read_cpuinfo model line =
    (if model = [] \<and> has_prefix line ''model name'' \<and> CHR '':'' \<in> set line
     then trim_space (drop 1 (dropWhile (\<lambda>c. c \<noteq> CHR '':'') line)) else model)"

definition cpuInfo :: "32 word \<Rightarrow> string result \<Rightarrow> 32 word \<times> string" where
  "cpuInfo numcpu cpuinfo =
    (numcpu, case cpuinfo of Inl _ \<Rightarrow> [] | Inr s \<Rightarrow> foldl read_cpuinfo [] (split_on CHR 0x0A s))"

definition diskInfo :: "sysfs \<Rightarrow> (string \<Rightarrow> 64 word result) \<Rightarrow> string \<times> 64 word" where
  "diskInfo S blockSize =
    (case BootDisk S of
       Inl _ \<Rightarrow> ([], 0)
     | Inr dev \<Rightarrow> (case blockSize dev of Inl _ \<Rightarrow> (dev, 0) | Inr n \<Rightarrow> (dev, n)))"

text \<open>\<open>portion\<close> is the floating point arithmetic of the used share, \<open>None\<close> for a percentage that does not parse.\<close>

definition thinpoolUsage :: "(64 word \<Rightarrow> string \<Rightarrow> 64 word option) \<Rightarrow> string result \<Rightarrow> 64 word \<times> 64 word" where
  "thinpoolUsage portion lvs =
    (case lvs of
       Inl _ \<Rightarrow> (0, 0)
     | Inr out \<Rightarrow>
        (case str_fields (trim_space out) of
           sz # pct # _ \<Rightarrow>
             (case parse_uint 64 sz of
                None \<Rightarrow> (0, 0)
              | Some n \<Rightarrow> (word_of_nat n, case portion (word_of_nat n) pct of None \<Rightarrow> 0 | Some u \<Rightarrow> u))
         | _ \<Rightarrow> (0, 0)))"

record statfs =
  sf_Bsize :: "64 word"
  sf_Blocks :: "64 word"
  sf_Bfree :: "64 word"

definition permUsage :: "statfs result \<Rightarrow> 64 word \<times> 64 word" where
  "permUsage r =
    (case r of Inl _ \<Rightarrow> (0, 0)
     | Inr s \<Rightarrow> (sf_Bsize s * sf_Blocks s, sf_Bsize s * (sf_Blocks s - sf_Bfree s)))"

definition cstr :: "string \<Rightarrow> string" where
  "cstr b = takeWhile (\<lambda>c. c \<noteq> CHR 0x00) b"

record uname_info =
  un_release :: string
  un_version :: string
  un_machine :: string

definition uname :: "uname_info result \<Rightarrow> uname_info" where
  "uname r = (case r of Inl _ \<Rightarrow> \<lparr>un_release = [], un_version = [], un_machine = []\<rparr>
     | Inr u \<Rightarrow> \<lparr>un_release = cstr (un_release u), un_version = cstr (un_version u), un_machine = cstr (un_machine u)\<rparr>)"

definition uptimeSeconds :: "int result \<Rightarrow> 64 word" where
  "uptimeSeconds r = (case r of Inl _ \<Rightarrow> 0 | Inr t \<Rightarrow> if t < 0 then 0 else word_of_int t)"

text \<open>What the system tells about the machine.\<close>

record node_facts =
  nf_hostname :: string
  nf_uname :: "uname_info result"
  nf_uptime :: "int result"
  nf_meminfo :: "string result"
  nf_numcpu :: "32 word"
  nf_cpuinfo :: "string result"
  nf_sysfs :: sysfs
  nf_blockSize :: "string \<Rightarrow> 64 word result"
  nf_lvs :: "string result"
  nf_statfs :: "statfs result"
  nf_now :: int

record get_info_response =
  gi_Hostname :: string
  gi_ShortId :: string
  gi_Uname :: uname_info
  gi_UptimeSeconds :: "64 word"
  gi_CapsuleVersion :: string
  gi_ActiveSlot :: string
  gi_Memory :: "64 word \<times> 64 word"
  gi_Cpu :: "32 word \<times> string"
  gi_BootDisk :: "string \<times> 64 word"
  gi_Thinpool :: "64 word \<times> 64 word"
  gi_Perm :: "64 word \<times> 64 word"
  gi_LocalTimeUnix :: int
  gi_PendingSlot :: string
  gi_PendingDeadlineUnix :: int
  gi_LastVersion :: string

definition GetInfo ::
  "(64 word \<Rightarrow> string \<Rightarrow> 64 word option) \<Rightarrow> node_facts \<Rightarrow> capsule_controller \<Rightarrow> 's os_state_store option \<Rightarrow> ('s, get_info_response) action" where
  "GetInfo portion nf c store s =
    (let resp = \<lparr>gi_Hostname = nf_hostname nf, gi_ShortId = cp_ShortID c, gi_Uname = uname (nf_uname nf),
           gi_UptimeSeconds = uptimeSeconds (nf_uptime nf), gi_CapsuleVersion = cp_CapsuleVersion c, gi_ActiveSlot = cp_ActiveSlot c,
           gi_Memory = memInfo (nf_meminfo nf), gi_Cpu = cpuInfo (nf_numcpu nf) (nf_cpuinfo nf),
           gi_BootDisk = diskInfo (nf_sysfs nf) (nf_blockSize nf), gi_Thinpool = thinpoolUsage portion (nf_lvs nf),
           gi_Perm = permUsage (nf_statfs nf), gi_LocalTimeUnix = nf_now nf,
           gi_PendingSlot = [], gi_PendingDeadlineUnix = 0, gi_LastVersion = []\<rparr>
     in case store of
          None \<Rightarrow> (Inr resp, s)
        | Some S \<Rightarrow>
           (case os_Get S s of
              (Inl _, s1) \<Rightarrow> (Inr resp, s1)
            | (Inr st, s1) \<Rightarrow>
                (Inr (resp\<lparr>gi_PendingSlot := PendingSlot st, gi_PendingDeadlineUnix := PendingDeadlineUnix st,
                   gi_LastVersion := LastVersion st\<rparr>), s1)))"

section \<open>Updates of the operating system\<close>

record update_metadata =
  um_total_bytes :: "64 word"
  um_sha256_hex :: string

definition update_status :: "go_error \<Rightarrow> go_error" where
  "update_status e =
    (if errors_is e ErrChecksumMismatch then Status InvalidArgument (error_text e)
     else if errors_is e ErrBundleTooLarge then Status FailedPrecondition (error_text e)
     else Status Internal (error_text e))"

text \<open>The messages after the first carry a chunk each; one without is read as an empty chunk. The restart after the delay is the last step.\<close>

definition UpdateOS ::
  "update_env \<Rightarrow> 's update_service option \<Rightarrow> update_metadata option result \<Rightarrow> string option list \<Rightarrow> go_error option \<Rightarrow> go_error option \<Rightarrow>
   ('s update_state, string \<times> string) action" where
  "UpdateOS E svc first msgs rerr send st =
    (case svc of
       None \<Rightarrow> (Inl (Status Unimplemented ''update service not configured''), st)
     | Some u \<Rightarrow>
        (case first of
           Inl e \<Rightarrow> (Inl (Status InvalidArgument (''no metadata: '' @ error_text e)), st)
         | Inr None \<Rightarrow> (Inl (Status InvalidArgument ''first message must be UpdateOSMetadata''), st)
         | Inr (Some meta) \<Rightarrow>
            (case ReceiveBundle E u (um_total_bytes meta) (um_sha256_hex meta)
                    (map (\<lambda>m. case m of None \<Rightarrow> [] | Some c \<Rightarrow> c) msgs) rerr st of
               (Inl e, st1) \<Rightarrow> (Inl (update_status e), st1)
             | (Inr (slot, version), st1) \<Rightarrow>
                (case send of
                   Some e \<Rightarrow> (Inl e, st1)
                 | None \<Rightarrow> (Inr (slot, version), snd (Reboot E st1))))))"

definition UpdateConfirm :: "'s update_service option \<Rightarrow> ('s update_state, string \<times> string) action" where
  "UpdateConfirm svc st =
    (case svc of
       None \<Rightarrow> (Inl (Status Unimplemented ''update service not configured''), st)
     | Some u \<Rightarrow>
         answer (\<lambda>e. if errors_is e ErrNoPending \<or> errors_is e ErrSlotMismatch then Status FailedPrecondition (error_text e)
                    else Status Internal (error_text e)) (Confirm u) st)"

definition RebootNode :: "update_env \<Rightarrow> 's update_service option \<Rightarrow> ('s update_state, string) action" where
  "RebootNode E svc st =
    (case svc of
       None \<Rightarrow> (Inl (Status Unimplemented ''update service not configured''), st)
     | Some u \<Rightarrow> (Inr ''reboot scheduled'', snd (Reboot E st)))"

section \<open>The router\<close>

record router_config =
  rt_Addr :: string
  rt_certificates :: nat
  rt_Auth :: bool
  rt_EnableReflection :: bool
  rt_Capsule :: bool
  rt_Workload :: bool
  rt_Volume :: bool
  rt_Image :: bool
  rt_Identity :: bool
  rt_Install :: bool

text \<open>What \<open>Serve\<close> exposes once it listens, or why it does not start; \<open>listen\<close> is the outcome of opening the port. Each controller
  of the configuration is present or nil.\<close>

definition Serve :: "router_config \<Rightarrow> unit result \<Rightarrow> string list result" where
  "Serve cfg listen =
    (if rt_Addr cfg = [] then Inl (Errorf ''router: missing Addr'')
     else if \<not> rt_Capsule cfg then Inl (Errorf ''router: missing Capsule controller'')
     else if \<not> rt_Auth cfg then Inl (Errorf ''router: missing Authenticator'')
     else if \<not> rt_Identity cfg then Inl (Errorf ''router: missing Identity controller'')
     else if rt_certificates cfg = 0 then Inl (Errorf ''router: missing TLSCert'')
     else case listen of
       Inl e \<Rightarrow> Inl (Wrap ''router: listen'' e)
     | Inr _ \<Rightarrow> Inr ([''capsule.v1.IdentityService'', ''capsule.v1.CapsuleService''] @
         (if rt_Workload cfg then [''capsule.v1.WorkloadService''] else []) @
         (if rt_Volume cfg then [''capsule.v1.VolumeService''] else []) @
         (if rt_Image cfg then [''capsule.v1.ImageService''] else []) @
         (if rt_Install cfg then [''capsule.v1.InstallService''] else []) @
         (if rt_EnableReflection cfg then [''grpc.reflection.v1.ServerReflection''] else [])))"

section \<open>What the handlers guarantee\<close>

text \<open>a pushed update that does not verify (a broken stream, a wrong length or digest, a missing member) is answered
  with an error status, the capsule is not restarted, and neither the record of the slots, the confirmation timer nor any file outside
  the staging directory and the inactive slot changes.\<close>

theorem refused_push_does_not_restart:
  assumes "unverified E (um_total_bytes meta) (um_sha256_hex meta) (map (\<lambda>m. case m of None \<Rightarrow> [] | Some c \<Rightarrow> c) msgs) rerr"
  shows "\<exists>code msg st'. UpdateOS E (Some u) (Inr (Some meta)) msgs rerr send st = (Inl (Status code msg), st') \<and>
    us_rebooting st' = us_rebooting st \<and> us_store st' = us_store st \<and> us_timer st' = us_timer st \<and>
    (\<forall>p. \<not> scratch_file E u p \<longrightarrow> us_files st' p = us_files st p)"
proof -
  obtain e st' where r: "ReceiveBundle E u (um_total_bytes meta) (um_sha256_hex meta)
      (map (\<lambda>m. case m of None \<Rightarrow> [] | Some c \<Rightarrow> c) msgs) rerr st = (Inl e, st')" and f: "frame (scratch_file E u) st st'"
    using ReceiveBundle_unverified [OF assms] by blast
  have "\<exists>code msg. update_status e = Status code msg" by (simp add: update_status_def)
  then show ?thesis using f by (auto simp: UpdateOS_def r frame_def)
qed

theorem refused_push_does_not_restart_witness:
  "\<exists>code msg st'. UpdateOS example_update_env (Some example_update_service) (Inr (Some \<lparr>um_total_bytes = 0, um_sha256_hex = ''beef''\<rparr>))
      [Some ''xy'', None, Some ''z''] None None example_update_state = (Inl (Status code msg), st') \<and> us_rebooting st' = False"
proof -
  have u: "unverified example_update_env 0 ''beef'' [''xy'', [], ''z''] None"
    by (simp add: unverified_def example_update_env_def equal_fold_def)
  show ?thesis
    using refused_push_does_not_restart [of example_update_env "\<lparr>um_total_bytes = 0, um_sha256_hex = ''beef''\<rparr>" "[Some ''xy'', None, Some ''z'']"
        None example_update_service None example_update_state] u
    by (auto simp: example_update_state_def)
qed

text \<open>A turn after which the stream goes on, and one that ends it.\<close>

definition turn_goes_on :: "bool \<Rightarrow> log_turn \<Rightarrow> bool" where
  "turn_goes_on follow t \<longleftrightarrow> lt_send t = None \<and>
    (lt_end t = ReadMore \<or> lt_end t = ReadEOF \<and> follow \<and> \<not> lt_stop t \<and> \<not> lt_done t)"

definition turn_ends :: "bool \<Rightarrow> log_turn \<Rightarrow> bool" where
  "turn_ends follow t \<longleftrightarrow> lt_send t = None \<and> lt_end t = ReadEOF \<and> (\<not> follow \<or> lt_stop t \<or> lt_done t)"

text \<open>a log stream delivers every byte that was read, in order, and ends without error at the first end of file after
  which it should: at once without \<open>follow\<close>, with it when the workload has ended or the client has gone.\<close>

theorem log_stream_complete:
  assumes "\<forall>t\<in>set ts. turn_goes_on follow t" "turn_ends follow t"
  shows "fst (streamReaderToLogs follow (ts @ t # rest)) = Some (Inr ()) \<and>
    concat (snd (streamReaderToLogs follow (ts @ t # rest))) = concat (map lt_data (ts @ [t]))"
  using assms(1)
proof (induction ts)
  case Nil
  then show ?case using assms(2) by (simp add: turn_ends_def Let_def)
next
  case (Cons a ts)
  then have "turn_goes_on follow a" by simp
  then have "streamReaderToLogs follow ((a # ts) @ t # rest) =
      (fst (streamReaderToLogs follow (ts @ t # rest)),
       if lt_data a = [] then snd (streamReaderToLogs follow (ts @ t # rest)) else lt_data a # snd (streamReaderToLogs follow (ts @ t # rest)))"
    by (auto simp: turn_goes_on_def Let_def split_beta)
  then show ?case using Cons by simp
qed

theorem log_stream_complete_witness:
  "concat (snd (streamReaderToLogs False
     [\<lparr>lt_data = ''ab'', lt_end = ReadMore, lt_send = None, lt_stop = False, lt_done = False\<rparr>,
      \<lparr>lt_data = ''c'', lt_end = ReadEOF, lt_send = None, lt_stop = False, lt_done = False\<rparr>])) = ''abc''"
  using log_stream_complete [of "[\<lparr>lt_data = ''ab'', lt_end = ReadMore, lt_send = None, lt_stop = False, lt_done = False\<rparr>]" False
      "\<lparr>lt_data = ''c'', lt_end = ReadEOF, lt_send = None, lt_stop = False, lt_done = False\<rparr>" "[]"]
  by (simp add: turn_goes_on_def turn_ends_def)

text \<open>a request for a workload that is not stored is answered with the status \<open>NotFound\<close> by \<open>Get\<close>, \<open>Restart\<close>, \<open>Stop\<close> and \<open>Start\<close>,
  and leaves the state as the failed lookup left it.\<close>

lemma missing_workload_is_not_found:
  assumes "on_store (ws_Get (svc_store svc) name) st = (Inl ErrNotFound, st1)"
  shows "WorkloadController_Get svc name st = (Inl (Status NotFound ''workload not found''), st1)"
    "WorkloadController_Restart svc name st = (Inl (Status NotFound ''workload not found''), st1)"
    "WorkloadController_Stop svc name st = (Inl (Status NotFound ''workload not found''), st1)"
    "WorkloadController_Start svc name st = (Inl (Status NotFound ''workload not found''), st1)"
  using assms
  by (simp_all add: WorkloadController_Get_def WorkloadController_Restart_def WorkloadController_Stop_def WorkloadController_Start_def
      answer_def workload_not_found_def workload_Get_def workload_Restart_def workload_Stop_def workload_Start_def)

end
