(* ===== verification/Capsule_AB.thy ===== *)
theory Capsule_AB
  imports Capsule_Update
begin

text \<open>
  The A/B machine: the update service of \<^verbatim>\<open>src/core/update/service.go\<close> together with
  the boot loader, over sequences of received bundles, confirmations, expired
  deadlines and boots. The persistent record comes from any store that keeps the
  contract \<open>update_backend\<close>; the memory and the sqlite store do.
\<close>

section \<open>The store contract\<close>

text \<open>\<open>State now\<close> is the store at clock \<open>now\<close>, \<open>stamp\<close> the modification time it records.\<close>

locale update_backend =
  fixes State :: "int \<Rightarrow> 's os_state_store"
    and content :: "'s \<Rightarrow> os_state option"
    and stamp :: "int \<Rightarrow> os_state \<Rightarrow> int"
  assumes get_eq: "os_Get (State now) s = ((case content s of None \<Rightarrow> Inl ErrNotFound | Some st \<Rightarrow> Inr st), s)"
    and put_ok: "fst (os_Put (State now) st s) = Inr () \<and>
      content (snd (os_Put (State now) st s)) = Some (st\<lparr>UpdatedAtUnix := stamp now st\<rparr>)"
begin

lemma put_pair:
  obtains s' where "os_Put (State now) st s = (Inr (), s')"
    "content s' = Some (st\<lparr>UpdatedAtUnix := stamp now st\<rparr>)"
  using put_ok [of now st s] by (metis prod.collapse)

end

interpretation mem_update: update_backend "\<lambda>_. mem_osState_if" mem_osState "\<lambda>_ st. UpdatedAtUnix st"
  by unfold_locales (auto simp: mem_osState_if_def mem_osState_Put_def mem_osState_Get_def split: option.splits)

definition sq_os_row :: "'b sqlite_db \<Rightarrow> os_state option" where
  "sq_os_row db = map_option os_of_row (sq_os_state db)"

interpretation sq_update: update_backend sqlite_osState sq_os_row "\<lambda>now _. now"
proof unfold_locales
  show "os_Get (sqlite_osState now) s =
      ((case sq_os_row s of None \<Rightarrow> Inl ErrNotFound | Some st \<Rightarrow> Inr st), s)" for now and s :: "'a sqlite_db"
    using sq_os.get_eq [of s] by (simp add: sqlite_osState_def sq_os_row_def)
  show "fst (os_Put (sqlite_osState now) st s) = Inr () \<and>
      sq_os_row (snd (os_Put (sqlite_osState now) st s)) =
      Some (st\<lparr>UpdatedAtUnix := now\<rparr>)" for now st and s :: "'a sqlite_db"
    using sq_os.put_ok [of now st s] by (simp add: sqlite_osState_def sq_os_row_def)
qed

section \<open>Steps\<close>

text \<open>The daemon of slot \<open>active\<close> at clock \<open>now\<close>.\<close>

definition daemon :: "(int \<Rightarrow> 's os_state_store) \<Rightarrow> string \<Rightarrow> int \<Rightarrow> 's update_service" where
  "daemon State active now = update_New (State now) active"

definition boot_default :: "'s update_state \<Rightarrow> string option" where
  "boot_default st = Option.bind (us_files st ''/run/capsule/boot-mount/EFI/BOOT/grub.cfg'') grub_slot"

text \<open>Discovery finds two different slot devices outside the directories the service
  writes to, writing grub.cfg works or fails before the file is touched, and the
  reboot call works.\<close>

definition slot_device :: "(nat \<Rightarrow> string result) \<Rightarrow> string \<Rightarrow> string result" where
  "slot_device parts slot = parts (slotPartitionNumber slot)"

definition device_apart :: "string result \<Rightarrow> bool" where
  "device_apart d \<longleftrightarrow> (case d of Inl _ \<Rightarrow> True | Inr dev \<Rightarrow>
     \<not> has_prefix dev ''/run/capsule/boot-mount/'' \<and> \<not> has_prefix dev ''/perm/updates/staging/'')"

definition disk_ok :: "(nat \<Rightarrow> string result) \<Rightarrow> bool" where
  "disk_ok parts \<longleftrightarrow> is_ok (parts 2) \<and> is_ok (parts 3) \<and> parts 2 \<noteq> parts 3 \<and>
     device_apart (parts 2) \<and> device_apart (parts 3)"

definition grub_write_atomic :: "update_env \<Rightarrow> bool" where
  "grub_write_atomic E \<longleftrightarrow>
     (case ue_write E ''/run/capsule/boot-mount/EFI/BOOT/grub.cfg'' of
        Some (WriteFails _ _) \<Rightarrow> False | _ \<Rightarrow> True)"

definition env_ok :: "(nat \<Rightarrow> string result) \<Rightarrow> update_env \<Rightarrow> bool" where
  "env_ok parts E \<longleftrightarrow> ue_find E = parts \<and> grub_write_atomic E \<and> ue_reboot E = None"

text \<open>The running slot awaits its confirmation.\<close>

definition tentative :: "os_state option \<Rightarrow> string \<Rightarrow> bool" where
  "tentative row active \<longleftrightarrow> (case row of None \<Rightarrow> False | Some st \<Rightarrow> PendingSlot st = active)"

type_synonym 's machine = "string \<times> 's update_state"

text \<open>While a reboot is under way only the boot happens. Operators push an update only to a
  slot that was confirmed: the step \<open>receive\<close> has that as its guard.\<close>

inductive ab_step ::
  "(int \<Rightarrow> 's os_state_store) \<Rightarrow> ('s \<Rightarrow> os_state option) \<Rightarrow> (nat \<Rightarrow> string result) \<Rightarrow>
   's machine \<Rightarrow> 's machine \<Rightarrow> bool" for State content parts where
  receive: "\<not> us_rebooting st \<Longrightarrow> env_ok parts E \<Longrightarrow> \<not> tentative (content (us_store st)) active \<Longrightarrow>
    ReceiveBundle E (daemon State active (ue_now E)) expectSize sha chunks rerr st = (r, st') \<Longrightarrow>
    ab_step State content parts (active, st) (active, st')"
| confirm: "\<not> us_rebooting st \<Longrightarrow> Confirm (daemon State active now) st = (r, st') \<Longrightarrow>
    ab_step State content parts (active, st) (active, st')"
| deadline: "\<not> us_rebooting st \<Longrightarrow> us_timer st \<Longrightarrow> env_ok parts E \<Longrightarrow>
    deadline_expired E (daemon State active (ue_now E)) st = st' \<Longrightarrow>
    ab_step State content parts (active, st) (active, st')"
| boot: "boot_default st = Some slot \<Longrightarrow> env_ok parts E \<Longrightarrow>
    OnStartup E (daemon State slot (ue_now E)) (st\<lparr>us_timer := False, us_rebooting := False\<rparr>) = (r, st') \<Longrightarrow>
    ab_step State content parts (active, st) (slot, st')"

inductive ab_reach ::
  "(int \<Rightarrow> 's os_state_store) \<Rightarrow> ('s \<Rightarrow> os_state option) \<Rightarrow> (nat \<Rightarrow> string result) \<Rightarrow>
   's machine \<Rightarrow> 's machine \<Rightarrow> bool" for State content parts where
  ab_refl: "ab_reach State content parts m m"
| ab_more: "ab_reach State content parts m m' \<Longrightarrow> ab_step State content parts m' m'' \<Longrightarrow>
    ab_reach State content parts m m''"

text \<open>The states of an update: none in progress; received and waiting for the reboot; booted and
  waiting for the confirmation; rolled back and waiting for the reboot.\<close>

definition ab_phase :: "os_state \<Rightarrow> 's machine \<Rightarrow> bool" where
  "ab_phase row m = (case m of (active, st) \<Rightarrow>
     (PendingSlot row = [] \<and> active = LastGoodSlot row \<and> boot_default st = Some (LastGoodSlot row)) \<or>
     (PendingSlot row = otherSlot (LastGoodSlot row) \<and>
       (active = LastGoodSlot row \<and> boot_default st = Some (PendingSlot row) \<or>
        active = PendingSlot row \<and> boot_default st = Some (PendingSlot row) \<or>
        active = PendingSlot row \<and> boot_default st = Some (LastGoodSlot row) \<and> us_rebooting st)))"

definition ab_inv :: "('s \<Rightarrow> os_state option) \<Rightarrow> 's machine \<Rightarrow> bool" where
  "ab_inv content m = (case m of (active, st) \<Rightarrow>
     (case content (us_store st) of None \<Rightarrow> False | Some row \<Rightarrow>
        is_slot (LastGoodSlot row) \<and> ActiveSlot row = active \<and>
        (us_timer st \<longrightarrow> PendingSlot row = active) \<and> ab_phase row m))"

section \<open>Effects of the operations\<close>

lemma daemon_simps [simp]:
  "up_State (daemon State active now) = State now" "up_ActiveSlot (daemon State active now) = active"
  "grub_cfg (daemon State active now) = ''/run/capsule/boot-mount/EFI/BOOT/grub.cfg''"
  "staging_path (daemon State active now) = ''/perm/updates/staging''"
  "up_BootMount (daemon State active now) = ''/run/capsule/boot-mount''"
  by (simp_all add: daemon_def update_New_def grub_cfg_def staging_path_def path_join_def)

lemma default_slot_daemon [simp]: "default_slot (daemon State active now) st = boot_default st"
  by (simp add: default_slot_def boot_default_def)

lemma boot_default_cong:
  "us_files st' ''/run/capsule/boot-mount/EFI/BOOT/grub.cfg'' =
   us_files st ''/run/capsule/boot-mount/EFI/BOOT/grub.cfg'' \<Longrightarrow> boot_default st' = boot_default st"
  by (simp add: boot_default_def)

lemma boot_default_updates [simp]:
  "boot_default (st\<lparr>us_store := s\<rparr>) = boot_default st"
  "boot_default (st\<lparr>us_timer := t\<rparr>) = boot_default st"
  "boot_default (st\<lparr>us_rebooting := t\<rparr>) = boot_default st"
  by (simp_all add: boot_default_def)

lemma boot_paths_apart:
  "\<not> has_prefix ''/run/capsule/boot-mount/'' ''/perm/updates/staging/''"
  "\<not> has_prefix ''/perm/updates/staging/'' ''/run/capsule/boot-mount/''"
  by simp_all

lemma disk_paths_apart:
  assumes "disk_ok parts" "env_ok parts E"
  shows "paths_apart E (daemon State active now)"
proof -
  have "device_apart (ue_find E (slotPartitionNumber (otherSlot active)))"
    using assms by (simp add: disk_ok_def env_ok_def slotPartitionNumber_def)
  then show ?thesis
    using boot_paths_apart
    by (cases "ue_find E (slotPartitionNumber (otherSlot active))") (simp_all add: paths_apart_def device_apart_def)
qed

lemma rewriteGrubDefault_cases:
  assumes "grub_write_atomic E"
    and "rewriteGrubDefault E ''/run/capsule/boot-mount/EFI/BOOT/grub.cfg'' slot st = (r, st')"
  obtains (kept) e where "r = Inl e" "st' = st"
  | (set) cfg where "r = Inr ()" "st' = put_file ''/run/capsule/boot-mount/EFI/BOOT/grub.cfg'' cfg st"
      "boot_default st' = Some slot"
proof (cases r)
  case (Inl e)
  have "st' = st"
    using assms Inl
    by (auto simp: rewriteGrubDefault_def writeFile_def grub_write_atomic_def
        split: sum.splits option.splits write_fault.splits)
  then show ?thesis using kept Inl by blast
next
  case (Inr x)
  then have "rewriteGrubDefault E ''/run/capsule/boot-mount/EFI/BOOT/grub.cfg'' slot st = (Inr (), st')"
    using assms(2) by simp
  then obtain cfg where "st' = put_file ''/run/capsule/boot-mount/EFI/BOOT/grub.cfg'' cfg st" "grub_slot cfg = Some slot"
    by (rule rewriteGrubDefault_ok)
  then show ?thesis using set Inr by (simp add: boot_default_def put_file_files)
qed

text \<open>A rollback moves the default to the requested slot or leaves it, and touches nothing else but
  grub.cfg.\<close>

lemma rollback_outcome:
  assumes "grub_write_atomic E" and st'_def: "st' = snd (rollbackToLastGood E (daemon State active now) lg st)"
  shows "boot_default st' = Some lg \<or> boot_default st' = boot_default st"
    and "frame (\<lambda>p. p = ''/run/capsule/boot-mount/EFI/BOOT/grub.cfg'') st st'"
proof -
  let ?g = "''/run/capsule/boot-mount/EFI/BOOT/grub.cfg''"
  have "st' = st \<or> st' = snd (rewriteGrubDefault E ?g lg st)"
    unfolding st'_def rollbackToLastGood_def withBootMount_def daemon_simps
    by (cases "ue_find E 1"; cases "ue_mkdir E"; cases "ue_mount E") auto
  then obtain r where "st' = st \<or> rewriteGrubDefault E ?g lg st = (r, st')"
    by (metis prod.collapse)
  then have "boot_default st' = Some lg \<and> frame (\<lambda>p. p = ?g) st st' \<or> st' = st"
    using rewriteGrubDefault_cases [OF assms(1), of lg st r st'] frame_put_file [of "\<lambda>p. p = ?g"] by metis
  then show "boot_default st' = Some lg \<or> boot_default st' = boot_default st" "frame (\<lambda>p. p = ?g) st st'"
    by auto
qed

lemma Reboot_effect: "us_store (snd (Reboot E st)) = us_store st" "us_files (snd (Reboot E st)) = us_files st"
  "us_timer (snd (Reboot E st)) = us_timer st" "ue_reboot E = None \<Longrightarrow> us_rebooting (snd (Reboot E st))"
  by (auto simp: Reboot_def split: option.splits)

definition boot_file :: "string \<Rightarrow> bool" where
  "boot_file p \<longleftrightarrow> has_prefix p ''/run/capsule/boot-mount/''"

lemma boot_file_join: "boot_file (path_join ''/run/capsule/boot-mount'' f)"
  using staged_prefix [of "''/run/capsule/boot-mount''" f] by (simp add: boot_file_def)

lemma frame_mono: "frame P st st' \<Longrightarrow> (\<And>p. P p \<Longrightarrow> Q p) \<Longrightarrow> frame Q st st'"
  by (auto simp: frame_def)

lemma frame_default:
  "frame P st st' \<Longrightarrow> \<not> P ''/run/capsule/boot-mount/EFI/BOOT/grub.cfg'' \<Longrightarrow> boot_default st' = boot_default st"
  by (simp add: frame_def boot_default_def)

lemma install_outcome:
  assumes at: "grub_write_atomic E"
    and run: "install_boot_files E (daemon State active now) slot b st = (r, st')"
  shows "frame boot_file st st'"
    and "boot_default st' = (case r of Inl _ \<Rightarrow> boot_default st | Inr _ \<Rightarrow> Some slot)"
proof -
  let ?g = "''/run/capsule/boot-mount/EFI/BOOT/grub.cfg''"
  let ?vk = "path_join ''/run/capsule/boot-mount'' (''vmlinuz_'' @ slotLetter slot)"
  let ?vi = "path_join ''/run/capsule/boot-mount'' (''initramfs_'' @ slotLetter slot)"
  have ng: "?g \<noteq> ?vk" "?g \<noteq> ?vi" by (simp_all add: path_join_def)
  obtain r1 s1 where c1: "copyIfChanged E (bp_kernelPath b) ?vk st = (r1, s1)" by fastforce
  obtain r2 s2 where c2: "copyIfChanged E (bp_initramfsPath b) ?vi s1 = (r2, s2)" by fastforce
  obtain r3 s3 where c3: "rewriteGrubDefault E ?g slot s2 = (r3, s3)" by fastforce
  have f1: "frame (\<lambda>p. p = ?vk) st s1"
    using frame_copyIfChanged [of "\<lambda>p. p = ?vk" ?vk st E "bp_kernelPath b"] c1 by simp
  have f2: "frame (\<lambda>p. p = ?vi) s1 s2"
    using frame_copyIfChanged [of "\<lambda>p. p = ?vi" ?vi s1 E "bp_initramfsPath b"] c2 by simp
  have f3: "frame boot_file s2 s3"
    using frame_rewrite [of boot_file ?g s2 E slot] c3 by (simp add: boot_file_def)
  have b1: "frame boot_file st s1" "boot_default s1 = boot_default st"
    using frame_mono [OF f1] boot_file_join frame_default [OF f1] ng(1) by (blast, blast)
  have b2: "frame boot_file s1 s2" "boot_default s2 = boot_default s1"
    using frame_mono [OF f2] boot_file_join frame_default [OF f2] ng(2) by (blast, blast)
  have b3: "boot_default s3 = (case r3 of Inl _ \<Rightarrow> boot_default s2 | Inr _ \<Rightarrow> Some slot)"
    by (rule rewriteGrubDefault_cases [OF at c3]) simp_all
  have "(r, st') = (case r1 of Inl e \<Rightarrow> (Inl e, s1) | Inr _ \<Rightarrow>
      (case r2 of Inl e \<Rightarrow> (Inl e, s2) | Inr _ \<Rightarrow> (r3, s3)))"
    using run [unfolded install_boot_files_def daemon_simps c1 prod.case c2 c3] by (rule sym)
  then consider e where "r = Inl e" "st' = s1" | e where "r = Inl e" "st' = s2" | "r = r3" "st' = s3"
    by (cases r1; cases r2) auto
  then show "frame boot_file st st'" "boot_default st' = (case r of Inl _ \<Rightarrow> boot_default st | Inr _ \<Rightarrow> Some slot)"
    using b1 b2 b3 f3 frame_trans by (cases; auto split: sum.splits intro: frame_trans)+
qed

lemma withBootMount_cases:
  obtains e where "withBootMount E u fn st = (Inl e, st)" | "withBootMount E u fn st = fn st"
  by (cases "ue_mkdir E"; cases "ue_mount E"; cases "isMounted (ue_proc_mounts E) (up_BootMount u) = Inr True")
    (auto simp: withBootMount_def)

text \<open>Up to arming: either the record and the default are untouched, or the boot files are
  installed and what is left is to write the record.\<close>

lemma receive_until_armed:
  assumes at: "grub_write_atomic E" and apart: "paths_apart E (daemon State active now)"
    and run: "ReceiveBundle E (daemon State active now) expectSize sha chunks rerr st = (r, st')"
  obtains (failed) e where "r = Inl e" "us_store st' = us_store st" "boot_default st' = boot_default st"
      "frame (\<lambda>p. scratch_file E (daemon State active now) p \<or> boot_file p) st st'"
  | (armed) version st3 where "boot_default st3 = Some (otherSlot active)"
      "frame (\<lambda>p. scratch_file E (daemon State active now) p \<or> boot_file p) st st3"
      "arm_update E (daemon State active now) (otherSlot active) version st3 = (r, st')"
proof -
  let ?u = "daemon State active now"
  let ?P = "\<lambda>p. scratch_file E ?u p \<or> boot_file p"
  have ns: "\<not> scratch_file E ?u ''/run/capsule/boot-mount/EFI/BOOT/grub.cfg''"
    using boot_path_apart [OF apart, of "''EFI/BOOT/grub.cfg''"] by (simp add: path_join_def)
  have fail: thesis if "r = Inl e" "frame (scratch_file E ?u) st st'" for e
    using failed [OF that(1)] that(2) frame_default [OF that(2) ns] frame_mono [OF that(2), of ?P]
    by (simp add: frame_def)
  have clean: "frame (scratch_file E ?u) st (clean_staging (staging_path ?u) st)"
    by (rule frame_clean) (simp add: scratch_file_def)
  show thesis
  proof (cases "up_ActiveSlot ?u = [] \<or> ue_stage E \<noteq> None")
    case True
    then have "\<exists>e. r = Inl e \<and> st' = st" using run by (auto simp: ReceiveBundle_unfold split: if_splits)
    then show thesis using fail by blast
  next
    case False
    note run' = run [unfolded ReceiveBundle_unfold]
    show thesis
    proof (cases "ue_find E (slotPartitionNumber (otherSlot (up_ActiveSlot ?u)))")
      case (Inl e)
      then show thesis using run' False clean fail by auto
    next
      case (Inr dev)
      obtain r2 st2 where m: "receive_members E dev (ue_untar E (concat chunks) rerr) required_members
          (initial_bundle ?u) (clean_staging (staging_path ?u) st) = (r2, st2)"
        by fastforce
      note f2 = frame_received [OF Inr m]
      consider (bad) e where "(r, st') = (Inl e, st2)"
        | (good) b where "(case withBootMount E ?u (install_boot_files E ?u (otherSlot active) b) st2 of
              (Inl e, st3) \<Rightarrow> (Inl e, st3)
            | (Inr _, st3) \<Rightarrow> arm_update E ?u (otherSlot active) (bp_version b) st3) = (r, st')"
      proof (cases r2)
        case (Inl e)
        then show ?thesis using that(1) run' False Inr m \<open>ue_find E _ = Inr dev\<close> by auto
      next
        case (Inr wb)
        obtain want b where wb: "wb = (want, b)" by fastforce
        show ?thesis
          using that(1) that(2) [of b] run' False m Inr wb \<open>ue_find E _ = Inr dev\<close>
          by (cases "verify_stream E expectSize sha chunks rerr want"; cases "ue_find E 1")
            (simp_all only: daemon_simps de_Morgan_disj not_not option.simps sum.case prod.case if_False
              sum.inject prod.inject simp_thms, auto)
      qed
      then show thesis
      proof cases
        case bad
        then show thesis using fail f2 by simp
      next
        case good
        obtain r3 st3 where w: "withBootMount E ?u (install_boot_files E ?u (otherSlot active) b) st2 = (r3, st3)"
          by fastforce
        then consider e where "r3 = Inl e" "st3 = st2"
          | "install_boot_files E ?u (otherSlot active) b st2 = (r3, st3)"
          by (cases rule: withBootMount_cases [of E ?u "install_boot_files E ?u (otherSlot active) b" st2]) auto
        then have "frame boot_file st2 st3 \<and>
            boot_default st3 = (case r3 of Inl _ \<Rightarrow> boot_default st2 | Inr _ \<Rightarrow> Some (otherSlot active))"
          using install_outcome [OF at] by cases (simp, blast)
        moreover have "frame ?P st st3" if "frame boot_file st2 st3"
          by (rule frame_trans [OF frame_mono [OF f2] frame_mono [OF that]]) blast+
        ultimately show thesis
          using good w armed [of st3 "bp_version b"] failed frame_default [OF f2 ns]
          by (cases r3) (auto simp: frame_def)
      qed
    qed
  qed
qed

section \<open>The invariant\<close>

context update_backend
begin

lemma on_get:
  "on_state (os_Get (State now)) st =
    ((case content (us_store st) of None \<Rightarrow> Inl ErrNotFound | Some row \<Rightarrow> Inr row), st)"
  by (simp add: on_state_def get_eq)

lemma on_put:
  obtains s' where "on_state (os_Put (State now) row) st = (Inr (), st\<lparr>us_store := s'\<rparr>)"
    "content s' = Some (row\<lparr>UpdatedAtUnix := stamp now row\<rparr>)"
  by (rule put_pair [of now row "us_store st"]) (simp add: on_state_def)

lemma arm_update_stored:
  assumes "content (us_store st) = Some row"
  obtains s' where "arm_update E (daemon State active now) slot version st =
      (Inr (slot, version), st\<lparr>us_store := s'\<rparr>)"
    "content s' = Some (row\<lparr>PendingSlot := slot, PendingDeadlineUnix := ue_now E + DefaultDeadline,
       LastVersion := version, UpdatedAtUnix := stamp now (row\<lparr>PendingSlot := slot,
         PendingDeadlineUnix := ue_now E + DefaultDeadline, LastVersion := version\<rparr>)\<rparr>)"
proof -
  let ?row = "row\<lparr>PendingSlot := slot, PendingDeadlineUnix := ue_now E + DefaultDeadline, LastVersion := version\<rparr>"
  obtain s' where s': "on_state (os_Put (State now) ?row) st = (Inr (), st\<lparr>us_store := s'\<rparr>)"
    "content s' = Some (?row\<lparr>UpdatedAtUnix := stamp now ?row\<rparr>)"
    by (rule on_put)
  show ?thesis by (rule that [of s']) (use s' assms in \<open>simp_all add: arm_update_def on_get\<close>)
qed

lemma inv_receive:
  assumes inv: "ab_inv content (active, st)" and E: "disk_ok parts" "env_ok parts E"
    and nt: "\<not> tentative (content (us_store st)) active"
    and run: "ReceiveBundle E (daemon State active (ue_now E)) expectSize sha chunks rerr st = (r, st')"
    and nr: "\<not> us_rebooting st"
  shows "ab_inv content (active, st')"
proof -
  obtain row where row: "content (us_store st) = Some row" "is_slot (LastGoodSlot row)" "ActiveSlot row = active"
    "us_timer st \<longrightarrow> PendingSlot row = active" "ab_phase row (active, st)"
    using inv by (auto simp: ab_inv_def split: option.splits)
  have act: "active = LastGoodSlot row" "PendingSlot row \<noteq> active"
    using row(5) nt row(1) nr by (auto simp: ab_phase_def tentative_def)
  have at: "grub_write_atomic E" using E(2) by (simp add: env_ok_def)
  from at disk_paths_apart [OF E] run show ?thesis
  proof (cases rule: receive_until_armed)
    case (failed e)
    then show ?thesis using row by (simp add: ab_inv_def ab_phase_def frame_def)
  next
    case (armed version st3)
    then have st3: "content (us_store st3) = Some row" "us_timer st3 = us_timer st"
        "us_rebooting st3 = us_rebooting st"
      using row(1) by (simp_all add: frame_def)
    obtain s' where "st' = st3\<lparr>us_store := s'\<rparr>" "content s' = Some (row\<lparr>PendingSlot := otherSlot active,
        PendingDeadlineUnix := ue_now E + DefaultDeadline, LastVersion := version,
        UpdatedAtUnix := stamp (ue_now E) (row\<lparr>PendingSlot := otherSlot active,
          PendingDeadlineUnix := ue_now E + DefaultDeadline, LastVersion := version\<rparr>)\<rparr>)"
      by (rule arm_update_stored [OF st3(1), of E active "ue_now E" "otherSlot active" version])
        (use armed(3) in simp)
    then show ?thesis
      using row act armed(1) st3 by (simp add: ab_inv_def ab_phase_def)
  qed
qed

lemma inv_confirm:
  assumes inv: "ab_inv content (active, st)" and nr: "\<not> us_rebooting st"
    and run: "Confirm (daemon State active now) st = (r, st')"
  shows "ab_inv content (active, st')"
proof -
  obtain row where row: "content (us_store st) = Some row" "is_slot (LastGoodSlot row)" "ActiveSlot row = active"
    "us_timer st \<longrightarrow> PendingSlot row = active" "ab_phase row (active, st)"
    using inv by (auto simp: ab_inv_def split: option.splits)
  show ?thesis
  proof (cases "PendingSlot row = [] \<or> PendingSlot row \<noteq> active")
    case True
    then have "st' = st" using run row(1) by (auto simp: Confirm_def on_get split: if_splits)
    then show ?thesis using inv by simp
  next
    case False
    then have pa: "PendingSlot row = active" "active \<noteq> []" by auto
    let ?row = "row\<lparr>PendingSlot := [], PendingDeadlineUnix := 0, LastGoodSlot := ActiveSlot row\<rparr>"
    obtain s' where s': "on_state (os_Put (State now) ?row) (st\<lparr>us_timer := False\<rparr>) =
        (Inr (), st\<lparr>us_timer := False, us_store := s'\<rparr>)"
      "content s' = Some (?row\<lparr>UpdatedAtUnix := stamp now ?row\<rparr>)"
      by (rule on_put)
    then have "st' = st\<lparr>us_timer := False, us_store := s'\<rparr>"
      using run row(1) pa unfolding Confirm_def daemon_simps on_get by simp
    moreover have "is_slot active" "boot_default st = Some active"
      using row(2,5) False nr by (auto simp: ab_phase_def)
    ultimately show ?thesis using s'(2) row(3) by (simp add: ab_inv_def ab_phase_def)
  qed
qed

lemma inv_rollback:
  assumes row: "content (us_store st) = Some row" "is_slot (LastGoodSlot row)" "ActiveSlot row = active"
      "PendingSlot row = otherSlot (LastGoodSlot row)" "active = PendingSlot row"
      "boot_default st = Some (PendingSlot row)"
    and E: "env_ok parts E"
  shows "ab_inv content (active, snd (rollback_and_reboot E (daemon State active now) (LastGoodSlot row) st))"
proof -
  define st1 where "st1 = snd (rollbackToLastGood E (daemon State active now) (LastGoodSlot row) st)"
  have at: "grub_write_atomic E" "ue_reboot E = None" using E by (simp_all add: env_ok_def)
  have b: "boot_default st1 = Some (LastGoodSlot row) \<or> boot_default st1 = Some (PendingSlot row)"
    "us_store st1 = us_store st"
    using rollback_outcome [OF at(1) st1_def] row(6) by (auto simp: frame_def)
  have "snd (rollback_and_reboot E (daemon State active now) (LastGoodSlot row) st) = st1\<lparr>us_rebooting := True\<rparr>"
    by (simp add: rollback_and_reboot_def st1_def Reboot_def at)
  then show ?thesis using row b by (auto simp: ab_inv_def ab_phase_def)
qed

lemma inv_deadline:
  assumes inv: "ab_inv content (active, st)" and nr: "\<not> us_rebooting st" "us_timer st" and E: "env_ok parts E"
  shows "ab_inv content (active, deadline_expired E (daemon State active now) st)"
proof -
  obtain row where row: "content (us_store st) = Some row" "is_slot (LastGoodSlot row)" "ActiveSlot row = active"
    "us_timer st \<longrightarrow> PendingSlot row = active" "ab_phase row (active, st)"
    using inv by (auto simp: ab_inv_def split: option.splits)
  then have p: "PendingSlot row = otherSlot (LastGoodSlot row)" "active = PendingSlot row"
      "boot_default st = Some (PendingSlot row)"
    using nr is_slot_ne [OF row(2)] by (auto simp: ab_phase_def)
  have "ab_inv content (active, snd (rollback_and_reboot E (daemon State active now) (LastGoodSlot row)
      (st\<lparr>us_timer := False\<rparr>)))"
    by (rule inv_rollback [OF _ row(2,3) p(1,2) _ E]) (use row(1) p(3) in simp_all)
  moreover have "PendingSlot row \<noteq> []" using p(1) by simp
  ultimately show ?thesis unfolding deadline_expired_def daemon_simps on_get by (simp add: row(1))
qed

text \<open>A boot, whatever the record says, as long as the default is sound.\<close>

lemma inv_boot:
  assumes inv: "ab_inv content (active, st)" and d: "boot_default st = Some slot" and E: "env_ok parts E"
    and run: "OnStartup E (daemon State slot (ue_now E)) (st\<lparr>us_timer := False, us_rebooting := False\<rparr>) = (r, st')"
  shows "ab_inv content (slot, st')"
proof -
  let ?st = "st\<lparr>us_timer := False, us_rebooting := False\<rparr>"
  obtain row where row: "content (us_store st) = Some row" "is_slot (LastGoodSlot row)" "ab_phase row (active, st)"
    using inv by (auto simp: ab_inv_def split: option.splits)
  have slot: "slot = LastGoodSlot row \<or> slot = PendingSlot row \<and> PendingSlot row = otherSlot (LastGoodSlot row)"
    and pend: "PendingSlot row = [] \<or> PendingSlot row = otherSlot (LastGoodSlot row)"
    and ne: "slot \<noteq> []"
    using row(3) d is_slot_ne [OF row(2)] by (auto simp: ab_phase_def)
  let ?row = "row\<lparr>ActiveSlot := slot\<rparr>"
  note run' = run [unfolded OnStartup_def daemon_simps on_get Let_def]
  consider (steady) "PendingSlot row = []" | (reverted) "PendingSlot row \<noteq> []" "PendingSlot row \<noteq> slot"
    | (trial) "PendingSlot row \<noteq> []" "PendingSlot row = slot" by blast
  then show ?thesis
  proof cases
    case steady
    obtain s' where "on_state (os_Put (State (ue_now E)) ?row) ?st = (Inr (), ?st\<lparr>us_store := s'\<rparr>)"
      "content s' = Some (?row\<lparr>UpdatedAtUnix := stamp (ue_now E) ?row\<rparr>)" by (rule on_put)
    then show ?thesis
      using run' row slot steady d ne by (auto simp: ab_inv_def ab_phase_def)
  next
    case reverted
    let ?row' = "?row\<lparr>PendingSlot := [], PendingDeadlineUnix := 0\<rparr>"
    obtain s' where "on_state (os_Put (State (ue_now E)) ?row') ?st = (Inr (), ?st\<lparr>us_store := s'\<rparr>)"
      "content s' = Some (?row'\<lparr>UpdatedAtUnix := stamp (ue_now E) ?row'\<rparr>)" by (rule on_put)
    then show ?thesis
      using run' row slot reverted d ne by (auto simp: ab_inv_def ab_phase_def)
  next
    case trial
    obtain s' where s': "on_state (os_Put (State (ue_now E)) ?row) ?st = (Inr (), ?st\<lparr>us_store := s'\<rparr>)"
      "content s' = Some (?row\<lparr>UpdatedAtUnix := stamp (ue_now E) ?row\<rparr>)" by (rule on_put)
    let ?row' = "?row\<lparr>UpdatedAtUnix := stamp (ue_now E) ?row\<rparr>"
    have p: "PendingSlot row = otherSlot (LastGoodSlot row)" using pend trial by blast
    show ?thesis
    proof (cases "PendingDeadlineUnix row = 0 \<or> ue_now E \<ge> PendingDeadlineUnix row")
      case True
      then have "st' = snd (rollback_and_reboot E (daemon State slot (ue_now E)) (LastGoodSlot row) (?st\<lparr>us_store := s'\<rparr>))"
        using run' row(1) trial ne s'(1) by (simp add: s'(1))
      moreover have "ab_inv content (slot, snd (rollback_and_reboot E (daemon State slot (ue_now E)) (LastGoodSlot ?row') (?st\<lparr>us_store := s'\<rparr>)))"
        by (rule inv_rollback [OF _ _ _ _ _ _ E]) (use row(2) s'(2) trial p d in simp_all)
      ultimately show ?thesis by simp
    next
      case False
      then have "st' = ?st\<lparr>us_store := s', us_timer := True\<rparr>"
        using run' row(1) trial ne s'(1) by simp
      then show ?thesis using s'(2) row(2) p trial d by (simp add: ab_inv_def ab_phase_def)
    qed
  qed
qed

lemma inv_step:
  assumes "ab_step State content parts m m'" "disk_ok parts" "ab_inv content m"
  shows "ab_inv content m'"
  using assms by cases (auto intro: inv_receive inv_confirm inv_deadline inv_boot)

lemma inv_reach:
  assumes "ab_reach State content parts m m'" "disk_ok parts" "ab_inv content m"
  shows "ab_inv content m'"
  using assms by (induction rule: ab_reach.induct) (auto intro: inv_step)

lemma inv_fresh:
  assumes "content (us_store st0) = None" "boot_default st0 = Some a" "is_slot a" "\<not> us_timer st0"
    and run: "OnStartup E (daemon State a now) st0 = (r, st)"
  shows "ab_inv content (a, st)"
proof -
  obtain s' where s': "on_state (os_Put (State now) (seed_state a)) st0 = (Inr (), st0\<lparr>us_store := s'\<rparr>)"
    "content s' = Some ((seed_state a)\<lparr>UpdatedAtUnix := stamp now (seed_state a)\<rparr>)"
    by (rule on_put)
  have "st = st0\<lparr>us_store := s'\<rparr>"
    using run assms(1) is_slot_ne [OF assms(3)] s'(1)
    unfolding OnStartup_def daemon_simps on_get by (simp add: ErrNotFound_def)
  then show ?thesis
    using s'(2) assms by (simp add: ab_inv_def ab_phase_def seed_state_def)
qed

lemma inv_defaults:
  assumes "ab_inv content (a, st)"
  obtains row where "content (us_store st) = Some row" "is_slot (LastGoodSlot row)"
    "PendingSlot row = [] \<longrightarrow> a = LastGoodSlot row"
    "boot_default st = Some (LastGoodSlot row) \<or>
     PendingSlot row = otherSlot (LastGoodSlot row) \<and> boot_default st = Some (PendingSlot row)"
proof -
  obtain row where row: "content (us_store st) = Some row" "is_slot (LastGoodSlot row)" "ab_phase row (a, st)"
    using assms by (auto simp: ab_inv_def split: option.splits)
  then show ?thesis by (intro that [OF row(1,2)]) (auto simp: ab_phase_def)
qed

text \<open>No step writes to the device of the last good slot.\<close>

lemma frame_grub_device:
  assumes "frame (\<lambda>p. p = ''/run/capsule/boot-mount/EFI/BOOT/grub.cfg'') st st'" "device_apart (Inr dev)"
  shows "us_files st' dev = us_files st dev"
proof -
  have "dev \<noteq> ''/run/capsule/boot-mount/EFI/BOOT/grub.cfg''" using assms(2) by (auto simp: device_apart_def)
  then show ?thesis using assms(1) by (simp add: frame_def)
qed

lemma on_state_files: "us_files (snd (on_state f st)) = us_files st"
  by (simp add: on_state_def split: prod.splits)

lemma rollback_and_reboot_device:
  assumes "env_ok parts E" "device_apart (Inr dev)"
  shows "us_files (snd (rollback_and_reboot E (daemon State active now) lg st)) dev = us_files st dev"
proof -
  have "grub_write_atomic E" using assms(1) by (simp add: env_ok_def)
  from frame_grub_device [OF rollback_outcome(2) [OF this refl] assms(2)]
  show ?thesis by (simp add: rollback_and_reboot_def Reboot_effect)
qed

lemma Confirm_files: "us_files (snd (Confirm u st)) = us_files st"
proof (cases "on_state (os_Get (up_State u)) st")
  case (Pair r st1)
  then have 1: "us_files st1 = us_files st" using on_state_files [of "os_Get (up_State u)" st] by simp
  have 2: "us_files (snd (case on_state f st2 of (Inl e, st3) \<Rightarrow> (Inl (g e), st3) | (Inr _, st3) \<Rightarrow> (Inr y, st3))) =
      us_files st2" for f :: "('b, unit) action" and g :: "go_error \<Rightarrow> go_error" and y :: "string \<times> string" and st2
    using on_state_files [of f st2] by (auto split: prod.splits sum.splits)
  show ?thesis
    unfolding Confirm_def Pair prod.case
    by (cases r) (simp_all add: 1 2)
qed

lemma OnStartup_device:
  assumes "env_ok parts E" "device_apart (Inr dev)"
  shows "us_files (snd (OnStartup E (daemon State active now) st)) dev = us_files st dev"
proof (cases "content (us_store st)")
  case None
  then show ?thesis
    using on_state_files [of "os_Put (State now) (seed_state active)" st]
    unfolding OnStartup_def daemon_simps on_get by (auto split: prod.splits sum.splits)
next
  case (Some row)
  obtain s' where s': "on_state (os_Put (State now) (row\<lparr>ActiveSlot := active\<rparr>)) st = (Inr (), st\<lparr>us_store := s'\<rparr>)"
    using on_put by metis
  show ?thesis
    using rollback_and_reboot_device [OF assms, of active now "LastGoodSlot row" "st\<lparr>us_store := s'\<rparr>"]
    unfolding OnStartup_def daemon_simps on_get Let_def
    by (simp add: Some s' on_state_files)
qed

lemma step_keeps_last_good:
  assumes step: "ab_step State content parts (a, st) (a', st')" and disk: "disk_ok parts"
    and inv: "ab_inv content (a, st)" and row: "content (us_store st) = Some row"
    and dev: "parts (slotPartitionNumber (LastGoodSlot row)) = Inr dev"
  shows "us_files st' dev = us_files st dev"
proof -
  have apart: "device_apart (Inr dev)"
    using disk dev by (auto simp: disk_ok_def slotPartitionNumber_def split: if_splits)
  from step show ?thesis
  proof cases
    case (receive E expectSize sha chunks rerr r)
    then have at: "grub_write_atomic E" "ue_find E = parts" by (simp_all add: env_ok_def)
    have "a = LastGoodSlot row"
      using inv row receive by (auto simp: ab_inv_def ab_phase_def tentative_def)
    then have "parts (slotPartitionNumber (otherSlot a)) \<noteq> Inr dev"
      using disk dev by (auto simp: disk_ok_def slotPartitionNumber_def otherSlot_def split: if_splits)
    then have out: "\<not> (scratch_file E (daemon State a (ue_now E)) dev \<or> boot_file dev)"
      using apart at(2) by (simp add: scratch_file_def boot_file_def device_apart_def)
    from at(1) disk_paths_apart [OF disk receive(3)] receive(5) show ?thesis
    proof (cases rule: receive_until_armed)
      case (failed e)
      then show ?thesis using out by (simp add: frame_def)
    next
      case (armed version st3)
      then have row3: "content (us_store st3) = Some row" using row by (simp add: frame_def)
      have "us_files st' = us_files st3"
        by (rule arm_update_stored [OF row3, of E a "ue_now E" "otherSlot a" version]) (use armed(3) in simp)
      then show ?thesis using armed(2) out by (simp add: frame_def)
    qed
  next
    case (confirm now r)
    then show ?thesis using Confirm_files [of "daemon State a now" st] by simp
  next
    case (deadline E)
    then show ?thesis
      using rollback_and_reboot_device [OF deadline(4) apart]
      unfolding deadline_expired_def daemon_simps on_get by (auto simp: row)
  next
    case (boot E r)
    then show ?thesis
      using OnStartup_device [OF boot(2) apart, of a' "ue_now E" "st\<lparr>us_timer := False, us_rebooting := False\<rparr>"]
      by simp
  qed
qed

end

section \<open>Properties of the A/B machine\<close>



text \<open>An example run: the first boot on slot a, a received bundle and the boot into slot b.\<close>

definition example_ab0 :: "unit sqlite_db update_state" where
  "example_ab0 = \<lparr>us_store = sqlite_empty,
     us_files = [''/run/capsule/boot-mount/EFI/BOOT/grub.cfg'' \<mapsto> ''set default=0'', ''/dev/sda2'' \<mapsto> ''old''],
     us_timer = False, us_rebooting = False\<rparr>"

definition example_ab1 :: "unit sqlite_db update_state" where
  "example_ab1 = snd (OnStartup example_update_env (daemon sqlite_osState ''slot_a'' 1000) example_ab0)"

definition example_ab2 :: "unit sqlite_db update_state" where
  "example_ab2 = snd (ReceiveBundle example_update_env (daemon sqlite_osState ''slot_a'' 1000) 2 ''AA''
     [''x'', ''y''] None example_ab1)"

definition example_ab3 :: "unit sqlite_db update_state" where
  "example_ab3 = snd (OnStartup example_update_env (daemon sqlite_osState ''slot_b'' 1000)
     (example_ab2\<lparr>us_timer := False, us_rebooting := False\<rparr>))"

lemma example_disk: "disk_ok (ue_find example_update_env)"
  by code_simp

lemma example_env_ok: "env_ok (ue_find example_update_env) example_update_env"
  by (simp add: env_ok_def grub_write_atomic_def example_update_env_def)

lemma example_ab_facts:
  "sq_os_row (us_store example_ab0) = None" "boot_default example_ab0 = Some ''slot_a''" "is_slot ''slot_a''"
  "\<not> us_timer example_ab0" "\<not> us_rebooting example_ab1" "\<not> tentative (sq_os_row (us_store example_ab1)) ''slot_a''"
  "boot_default example_ab2 = Some ''slot_b''" "ue_now example_update_env = 1000"
  by code_simp+

lemma example_ab_reach:
  "ab_reach sqlite_osState sq_os_row (ue_find example_update_env) (''slot_a'', example_ab1) (''slot_a'', example_ab2)"
proof (rule ab_more [OF ab_refl receive [OF _ example_env_ok]])
  show "ReceiveBundle example_update_env (daemon sqlite_osState ''slot_a'' (ue_now example_update_env)) 2 ''AA''
      [''x'', ''y''] None example_ab1 = (fst (ReceiveBundle example_update_env (daemon sqlite_osState ''slot_a'' 1000) 2 ''AA''
      [''x'', ''y''] None example_ab1), example_ab2)"
    by (simp only: example_ab2_def example_ab_facts(8) prod.collapse)
qed (use example_ab_facts in blast)+

lemma example_ab_boot:
  "ab_step sqlite_osState sq_os_row (ue_find example_update_env) (''slot_a'', example_ab2) (''slot_b'', example_ab3)"
proof (rule boot [OF _ example_env_ok])
  show "OnStartup example_update_env (daemon sqlite_osState ''slot_b'' (ue_now example_update_env))
      (example_ab2\<lparr>us_timer := False, us_rebooting := False\<rparr>) =
    (fst (OnStartup example_update_env (daemon sqlite_osState ''slot_b'' 1000)
      (example_ab2\<lparr>us_timer := False, us_rebooting := False\<rparr>)), example_ab3)"
    by (simp only: example_ab3_def example_ab_facts(8) prod.collapse)
qed (rule example_ab_facts(7))

lemma example_ab_start:
  "OnStartup example_update_env (daemon sqlite_osState ''slot_a'' 1000) example_ab0 =
   (fst (OnStartup example_update_env (daemon sqlite_osState ''slot_a'' 1000) example_ab0), example_ab1)"
  by (simp only: example_ab1_def prod.collapse)





text \<open>The boot partition can be found, mounted and written, and the reboot call works.\<close>

definition boot_works :: "update_env \<Rightarrow> bool" where
  "boot_works E \<longleftrightarrow> is_ok (ue_find E 1) \<and> ue_mkdir E = None \<and> ue_mount E = None \<and> ue_reboot E = None \<and>
     ue_write E ''/run/capsule/boot-mount/EFI/BOOT/grub.cfg'' = None"

lemma replace_default_None: "replace_default n ls = None \<longleftrightarrow> first_default ls = None"
  by (induction ls) auto

lemma rollback_works:
  assumes E: "boot_works E" and d: "boot_default st = Some s" and lg: "is_slot lg"
  obtains st' where "rollback_and_reboot E (daemon State active now) lg st = (Inr (), st')"
    "boot_default st' = Some lg" "us_rebooting st'" "us_store st' = us_store st"
proof -
  let ?g = "''/run/capsule/boot-mount/EFI/BOOT/grub.cfg''"
  obtain idx where idx: "slotIndex lg = Inr idx" using slotIndex_ok [OF lg] by blast
  obtain cfg where cfg: "us_files st ?g = Some cfg" "grub_slot cfg = Some s"
    using d by (auto simp: boot_default_def bind_eq_Some_conv)
  then have "first_default (split_on CHR 0x0A cfg) \<noteq> None"
    by (auto simp: grub_slot_def split: option.splits)
  then obtain lines where lines: "replace_default (''set default='' @ itoa idx) (split_on CHR 0x0A cfg) = Some lines"
    using replace_default_None [of "''set default='' @ itoa idx"] by (metis option.exhaust)
  let ?st1 = "put_file ?g (join_with CHR 0x0A lines) st"
  have "rewriteGrubDefault E ?g lg st = (Inr (), ?st1)"
    using E idx cfg(1) lines by (simp add: rewriteGrubDefault_def writeFile_def boot_works_def)
  then have "rollbackToLastGood E (daemon State active now) lg st = (Inr (), ?st1)"
    using E by (cases "ue_find E 1") (simp_all add: rollbackToLastGood_def withBootMount_def boot_works_def)
  moreover have "grub_slot (join_with CHR 0x0A lines) = Some lg"
    by (rule replace_default_text [OF lg idx lines])
  ultimately show ?thesis
    using E that [of "?st1\<lparr>us_rebooting := True\<rparr>"]
    by (simp add: rollback_and_reboot_def Reboot_def boot_works_def boot_default_def put_file_files) (simp add: put_file_def)
qed

text \<open>C12: an update that nobody confirms is undone. When the timer of a tentative boot expires on a
  machine whose boot partition can be written, the default goes back to the last good slot, the
  machine reboots, and the boot that follows runs the last good slot with no slot
  pending.\<close>

theorem expired_update_rolls_back:
  assumes E: "boot_works E" and row: "sq_os_row (us_store st) = Some row" "PendingSlot row = a"
      "LastGoodSlot row = otherSlot a" "is_slot a" and d: "boot_default st = Some a"
    and st1: "st1 = deadline_expired E (daemon sqlite_osState a (ue_now E)) st"
    and boot: "OnStartup E' (daemon sqlite_osState (otherSlot a) now')
        (st1\<lparr>us_timer := False, us_rebooting := False\<rparr>) = (r, st2)"
  shows "us_rebooting st1 \<and> boot_default st1 = Some (otherSlot a) \<and> r = Inr () \<and> \<not> us_rebooting st2 \<and>
    \<not> us_timer st2 \<and> boot_default st2 = Some (otherSlot a) \<and>
    (\<exists>row2. sq_os_row (us_store st2) = Some row2 \<and> PendingSlot row2 = [] \<and>
       ActiveSlot row2 = otherSlot a \<and> LastGoodSlot row2 = otherSlot a)"
proof -
  obtain st' where rb: "rollback_and_reboot E (daemon sqlite_osState a (ue_now E)) (otherSlot a)
      (st\<lparr>us_timer := False\<rparr>) = (Inr (), st')"
    "boot_default st' = Some (otherSlot a)" "us_rebooting st'" "us_store st' = us_store st"
    by (rule rollback_works [OF E, of "st\<lparr>us_timer := False\<rparr>" a "otherSlot a" sqlite_osState a "ue_now E"])
      (use d in simp_all)
  then have st1': "st1 = st'"
    using st1 row is_slot_ne [OF row(4)]
    unfolding deadline_expired_def daemon_simps sq_update.on_get by simp
  let ?st = "st1\<lparr>us_timer := False, us_rebooting := False\<rparr>"
  let ?row = "row\<lparr>ActiveSlot := otherSlot a, PendingSlot := [], PendingDeadlineUnix := 0\<rparr>"
  obtain s' where s': "on_state (os_Put (sqlite_osState now') ?row) ?st = (Inr (), ?st\<lparr>us_store := s'\<rparr>)"
    "sq_os_row s' = Some (?row\<lparr>UpdatedAtUnix := now'\<rparr>)"
    by (rule sq_update.on_put)
  have "r = Inr () \<and> st2 = ?st\<lparr>us_store := s'\<rparr>"
    using boot s'(1) row is_slot_ne [OF row(4)] rb(4) st1'
    unfolding OnStartup_def daemon_simps sq_update.on_get Let_def by simp
  then show ?thesis using s'(2) rb(2,3) row(3) st1' by simp
qed

lemma example_ab3_facts:
  "map_option (\<lambda>row. (PendingSlot row, LastGoodSlot row)) (sq_os_row (us_store example_ab3)) =
     Some (''slot_b'', ''slot_a'')" "boot_default example_ab3 = Some ''slot_b''"
  "is_slot ''slot_b''" "otherSlot ''slot_b'' = ''slot_a''"
  by code_simp+

theorem expired_update_rolls_back_witness:
  "boot_default (deadline_expired example_update_env (daemon sqlite_osState ''slot_b'' (ue_now example_update_env)) example_ab3) =
     Some ''slot_a''"
proof -
  obtain row where row: "sq_os_row (us_store example_ab3) = Some row" "PendingSlot row = ''slot_b''"
      "LastGoodSlot row = ''slot_a''"
    using example_ab3_facts(1) by auto
  have "boot_works example_update_env" by (simp add: boot_works_def example_update_env_def)
  from expired_update_rolls_back [OF this row(1,2) _ example_ab3_facts(3,2) refl prod.collapse [symmetric],
      unfolded example_ab3_facts(4)] row(3)
  show ?thesis by blast
qed

end
