(* ===== verification/Capsule_Auth.thy ===== *)
theory Capsule_Auth
  imports Capsule_Store
begin

text \<open>
  Request authentication, \<^verbatim>\<open>src/auth\<close>: base64url, key identifiers and
  fingerprints, minting and verifying tokens, the cache of accepted token
  identifiers, the claim window, and the interceptor's decision.

  SHA-256, Ed25519 and the JSON codec of the two token structures are the fields
  of a record of primitives; \<open>now\<close> is the clock and \<open>jti\<close> the random token
  identifier. Unix times are \<open>int64\<close>; the two sums of \<open>Verify\<close> wrap.
\<close>

type_synonym bytes = "8 word list"

section \<open>Base64url without padding\<close>

text \<open>The alphabet is \<^verbatim>\<open>A-Z a-z 0-9 - _\<close>.\<close>

definition b64_char :: "nat \<Rightarrow> char" where
  "b64_char i =
    (if i < 26 then char_of (i + 65) else if i < 52 then char_of (i + 71)
     else if i < 62 then char_of (i - 4) else if i = 62 then CHR ''-'' else CHR ''_'')"

definition b64_val :: "char \<Rightarrow> nat option" where
  "b64_val c =
    (let n = of_char c :: nat in
     if 65 \<le> n \<and> n \<le> 90 then Some (n - 65)
     else if 97 \<le> n \<and> n \<le> 122 then Some (n - 71)
     else if 48 \<le> n \<and> n \<le> 57 then Some (n + 4)
     else if n = 45 then Some 62
     else if n = 95 then Some 63
     else None)"

fun b64_encode :: "bytes \<Rightarrow> string" where
  "b64_encode [] = []"
| "b64_encode [a] = (let n = unat a * 16 in [b64_char (n div 64), b64_char (n mod 64)])"
| "b64_encode [a, b] = (let n = (unat a * 256 + unat b) * 4 in
     [b64_char (n div 4096), b64_char (n div 64 mod 64), b64_char (n mod 64)])"
| "b64_encode (a # b # c # rest) = (let n = unat a * 65536 + unat b * 256 + unat c in
     b64_char (n div 262144) # b64_char (n div 4096 mod 64) # b64_char (n div 64 mod 64) #
     b64_char (n mod 64) # b64_encode rest)"

text \<open>The decoder on the six-bit values. One left-over value is an error; left-over low
  bits are not checked.\<close>

fun b64_values :: "nat list \<Rightarrow> bytes option" where
  "b64_values [] = Some []"
| "b64_values [_] = None"
| "b64_values [i, j] = Some [of_nat ((i * 64 + j) div 16)]"
| "b64_values [i, j, k] = (let n = (i * 4096 + j * 64 + k) div 4 in
     Some [of_nat (n div 256), of_nat (n mod 256)])"
| "b64_values (i # j # k # l # rest) = (let n = i * 262144 + j * 4096 + k * 64 + l in
     map_option (\<lambda>bs. of_nat (n div 65536) # of_nat (n div 256 mod 256) # of_nat (n mod 256) # bs)
       (b64_values rest))"

text \<open>Carriage returns and line feeds in the input are skipped.\<close>

definition b64_decode :: "string \<Rightarrow> bytes option" where
  "b64_decode s =
    (let vs = map b64_val (filter (\<lambda>c. of_char c \<noteq> (10 :: nat) \<and> of_char c \<noteq> (13 :: nat)) s)
     in if None \<in> set vs then None else b64_values (map the vs))"

lemma b64_char_code:
  "i < 64 \<Longrightarrow> (of_char (b64_char i) :: nat) =
     (if i < 26 then i + 65 else if i < 52 then i + 71 else if i < 62 then i - 4 else if i = 62 then 45 else 95)"
  by (simp add: b64_char_def)

lemma b64_char_simps:
  assumes "i < 64"
  shows "b64_val (b64_char i) = Some i" "of_char (b64_char i) \<noteq> (10 :: nat)"
    "of_char (b64_char i) \<noteq> (13 :: nat)" "b64_char i \<noteq> CHR ''.''"
proof -
  show "b64_val (b64_char i) = Some i"
    using assms by (auto simp: b64_val_def b64_char_code Let_def)
  show "of_char (b64_char i) \<noteq> (10 :: nat)" "of_char (b64_char i) \<noteq> (13 :: nat)"
    using assms by (auto simp: b64_char_code)
  have "(of_char (b64_char i) :: nat) \<noteq> of_char CHR ''.''"
    using assms by (auto simp: b64_char_code)
  then show "b64_char i \<noteq> CHR ''.''" by auto
qed

lemma b64_decode_map:
  assumes "\<forall>i\<in>set is. i < 64"
  shows "b64_decode (map b64_char is) = b64_values is"
proof -
  have "filter (\<lambda>c. of_char c \<noteq> (10 :: nat) \<and> of_char c \<noteq> (13 :: nat)) (map b64_char is) = map b64_char is"
    using assms by (auto simp: filter_id_conv b64_char_simps)
  moreover have "map b64_val (map b64_char is) = map Some is"
    using assms by (auto simp: b64_char_simps)
  ultimately show ?thesis
    by (simp add: b64_decode_def comp_def del: map_map) (simp add: comp_def image_iff)
qed

fun b64_indices :: "bytes \<Rightarrow> nat list" where
  "b64_indices [] = []"
| "b64_indices [a] = (let n = unat a * 16 in [n div 64, n mod 64])"
| "b64_indices [a, b] = (let n = (unat a * 256 + unat b) * 4 in [n div 4096, n div 64 mod 64, n mod 64])"
| "b64_indices (a # b # c # rest) = (let n = unat a * 65536 + unat b * 256 + unat c in
     n div 262144 # n div 4096 mod 64 # n div 64 mod 64 # n mod 64 # b64_indices rest)"

lemma unat8: "unat (a :: 8 word) < 256"
  using unsigned_less [of a] by simp

lemma b64_encode_indices: "b64_encode bs = map b64_char (b64_indices bs)"
  by (induction bs rule: b64_encode.induct) (auto simp: Let_def)

lemma b64_indices_range: "\<forall>i\<in>set (b64_indices bs). i < 64"
proof (induction bs rule: b64_indices.induct)
  case (2 a)
  have "unat a * 16 div 64 < 64"
    using unat8 [of a] by (intro less_mult_imp_div_less) linarith
  then show ?case by (simp add: Let_def)
next
  case (3 a b)
  have "(unat a * 256 + unat b) * 4 div 4096 < 64"
    using unat8 [of a] unat8 [of b] by (intro less_mult_imp_div_less) (simp add: add_mult_distrib)
  then show ?case
    unfolding b64_indices.simps Let_def by (simp only: list.set ball_simps simp_thms mod_less_divisor zero_less_numeral)
next
  case (4 a b c rest)
  have "(unat a * 65536 + unat b * 256 + unat c) div 262144 < 64"
    using unat8 [of a] unat8 [of b] unat8 [of c] by (intro less_mult_imp_div_less) linarith
  moreover have "\<forall>i\<in>set (b64_indices rest). i < 64" using 4 by blast
  ultimately show ?case
    unfolding b64_indices.simps Let_def by (simp only: list.set ball_simps simp_thms mod_less_divisor zero_less_numeral)
qed simp

lemma digits3: "(n :: nat) div 4096 * 4096 + n div 64 mod 64 * 64 + n mod 64 = n"
proof -
  have "n div 4096 = n div 64 div 64" by (simp add: div_mult2_eq [symmetric])
  moreover have "n div 64 div 64 * 64 + n div 64 mod 64 = n div 64" by (rule div_mult_mod_eq)
  moreover have "n div 64 * 64 + n mod 64 = n" by (rule div_mult_mod_eq)
  ultimately show ?thesis by linarith
qed

lemma digits4: "(n :: nat) div 262144 * 262144 + n div 4096 mod 64 * 4096 + n div 64 mod 64 * 64 + n mod 64 = n"
proof -
  have "n div 262144 = n div 4096 div 64" by (simp add: div_mult2_eq [symmetric])
  moreover have "n div 4096 div 64 * 64 + n div 4096 mod 64 = n div 4096" by (rule div_mult_mod_eq)
  ultimately show ?thesis using digits3 [of n] by linarith
qed

lemma byte_digits:
  assumes "y < 256" "z < (256 :: nat)"
  shows "(x * 65536 + y * 256 + z) div 65536 = x" "(x * 65536 + y * 256 + z) div 256 mod 256 = y"
    "(x * 65536 + y * 256 + z) mod 256 = z" "(x * 256 + z) div 256 = x" "(x * 256 + z) mod 256 = z"
proof -
  have two: "(x * 256 + z) div 256 = x" "(x * 256 + z) mod 256 = z" for x
    using assms(2) by simp_all
  have eq: "x * 65536 + y * 256 + z = (x * 256 + y) * 256 + z" by simp
  have dd: "n div 65536 = n div 256 div 256" for n :: nat by (simp add: div_mult2_eq [symmetric])
  have y: "(x * 256 + y) div 256 = x" "(x * 256 + y) mod 256 = y"
    using assms(1) by simp_all
  show "(x * 65536 + y * 256 + z) div 65536 = x" "(x * 65536 + y * 256 + z) div 256 mod 256 = y"
    "(x * 65536 + y * 256 + z) mod 256 = z" "(x * 256 + z) div 256 = x" "(x * 256 + z) mod 256 = z"
    unfolding eq dd two y by (rule refl)+
qed

lemma of_nat_unat [simp]: "(of_nat (unat (a :: 8 word)) :: 8 word) = a"
  by simp

lemma b64_values_indices: "b64_values (b64_indices bs) = Some bs"
proof (induction bs rule: b64_indices.induct)
  case (2 a)
  have "(unat a * 16 div 64 * 64 + unat a * 16 mod 64) div 16 = unat a"
    unfolding div_mult_mod_eq by (rule div_mult_self_is_m) simp
  then show ?case unfolding b64_indices.simps b64_values.simps Let_def by (simp only: of_nat_unat)
next
  case (3 a b)
  have "(unat a * 256 + unat b) * 4 div 4 = unat a * 256 + unat b"
    by (rule div_mult_self_is_m) simp
  then show ?case
    unfolding b64_indices.simps b64_values.simps Let_def digits3
    by (simp only: byte_digits(4,5) [OF unat8 unat8] of_nat_unat)
next
  case (4 a b c rest)
  have IH: "b64_values (b64_indices rest) = Some rest" using 4 by blast
  show ?case
    unfolding b64_indices.simps b64_values.simps Let_def digits4 IH
    by (simp only: byte_digits(1-3) [OF unat8 unat8] of_nat_unat option.map)
qed simp

lemma b64_decode_encode [simp, roundtrip]: "b64_decode (b64_encode bs) = Some bs"
  by (simp add: b64_encode_indices b64_decode_map b64_indices_range b64_values_indices)

lemma b64_encode_no_dot: "CHR ''.'' \<notin> set (b64_encode bs)"
proof
  assume "CHR ''.'' \<in> set (b64_encode bs)"
  then obtain i where "i \<in> set (b64_indices bs)" "b64_char i = CHR ''.''"
    unfolding b64_encode_indices set_map by (elim imageE) simp
  then show False using b64_indices_range b64_char_simps(4) by blast
qed

section \<open>Keys and fingerprints\<close>

record claims =
  Sub :: string
  Aud :: string
  Iat :: int
  Exp :: int
  Jti :: string

record jwt_header =
  Alg :: string
  Typ :: string
  HdrKid :: string

text \<open>The primitives of the standard library the package calls.\<close>

record prims =
  p_sha256 :: "bytes \<Rightarrow> bytes"
  p_public :: "bytes \<Rightarrow> bytes"
  p_sign :: "bytes \<Rightarrow> string \<Rightarrow> bytes"
  p_verify :: "bytes \<Rightarrow> string \<Rightarrow> bytes \<Rightarrow> bool"
  p_header_json :: "jwt_header \<Rightarrow> bytes"
  p_claims_json :: "claims \<Rightarrow> bytes"
  p_header_of :: "bytes \<Rightarrow> jwt_header option"
  p_claims_of :: "bytes \<Rightarrow> claims option"

definition KidFromPubkey :: "prims \<Rightarrow> bytes \<Rightarrow> string" where
  "KidFromPubkey P pub = b64_encode (p_sha256 P pub)"

definition ParsePubkey :: "bytes \<Rightarrow> bytes result" where
  "ParsePubkey b =
    (if length b \<noteq> 32 then Inl (Errorf ''invalid ed25519 public key'') else Inr b)"

text \<open>The loop of \<open>FormatFingerprint\<close> at column \<open>col\<close>.\<close>

fun format_pairs :: "nat \<Rightarrow> string \<Rightarrow> string" where
  "format_pairs col (a # b # rest) =
    (if col = 8 then CHR 0x0A # a # b # format_pairs 1 rest
     else if col > 0 then CHR '':'' # a # b # format_pairs (col + 1) rest
     else a # b # format_pairs (col + 1) rest)"
| "format_pairs col _ = []"

definition FormatFingerprint :: "string \<Rightarrow> string" where
  "FormatFingerprint fp = (if length fp mod 2 \<noteq> 0 then fp else format_pairs 0 fp)"

section \<open>Tokens\<close>

definition ClockSkew :: int where "ClockSkew = 300"

definition DefaultLifetime :: int where "DefaultLifetime = 60 * 1000000000"

text \<open>\<open>lifetime\<close> is a duration in nanoseconds.\<close>

definition Mint :: "prims \<Rightarrow> int \<Rightarrow> string result \<Rightarrow> bytes \<Rightarrow> string \<Rightarrow> int \<Rightarrow> string result" where
  "Mint P now jti priv audience lifetime =
    (if length priv \<noteq> 64 then Inl (Errorf ''auth: invalid ed25519 private key length'')
     else
       let lifetime = (if lifetime \<le> 0 then DefaultLifetime else lifetime);
           kid = KidFromPubkey P (p_public P priv)
       in case jti of
            Inl e \<Rightarrow> Inl e
          | Inr j \<Rightarrow>
              let hb = p_header_json P \<lparr>Alg = ''EdDSA'', Typ = ''JWT'', HdrKid = kid\<rparr>;
                  pb = p_claims_json P \<lparr>Sub = kid, Aud = audience, Iat = now,
                         Exp = int64 (now + lifetime div 1000000000), Jti = j\<rparr>;
                  signingInput = b64_encode hb @ ''.'' @ b64_encode pb
              in Inr (signingInput @ ''.'' @ b64_encode (p_sign P priv signingInput)))"

text \<open>\<open>splitN_from sep k cur s\<close> is the loop with \<open>k\<close> cuts left and the current part
  reversed in \<open>cur\<close>.\<close>

fun splitN_from :: "char \<Rightarrow> nat \<Rightarrow> string \<Rightarrow> string \<Rightarrow> string list" where
  "splitN_from sep k cur [] = [rev cur]"
| "splitN_from sep 0 cur (c # s) = [rev cur @ c # s]"
| "splitN_from sep (Suc k) cur (c # s) =
    (if c = sep then rev cur # splitN_from sep k [] s else splitN_from sep (Suc k) (c # cur) s)"

definition splitN :: "string \<Rightarrow> char \<Rightarrow> nat \<Rightarrow> string list" where
  "splitN s sep n = splitN_from sep (n - 1) [] s"

definition check_claims :: "int \<Rightarrow> string \<Rightarrow> string \<Rightarrow> claims \<Rightarrow> claims result" where
  "check_claims now audience kid c =
    (if Sub c \<noteq> kid then Inl (Errorf ''auth: sub/kid mismatch'')
     else if audience \<noteq> '''' \<and> Aud c \<noteq> audience then Inl (Errorf ''auth: wrong audience'')
     else if Iat c = 0 \<or> Iat c > int64 (now + ClockSkew) then Inl (Errorf ''auth: token not yet valid'')
     else if Exp c = 0 \<or> int64 (Exp c + ClockSkew) < now then Inl (Errorf ''auth: token expired'')
     else if Jti c = '''' then Inl (Errorf ''auth: missing jti'')
     else Inr c)"

text \<open>The checks of \<open>Verify\<close> on the three parts of a token, in its order.\<close>

definition verify_parts ::
  "prims \<Rightarrow> int \<Rightarrow> string \<Rightarrow> (string \<Rightarrow> bytes option) \<Rightarrow> string \<Rightarrow> string \<Rightarrow> string \<Rightarrow> claims result" where
  "verify_parts P now audience lookup p0 p1 p2 =
        (case b64_decode p0 of
           None \<Rightarrow> Inl (Errorf ''auth: bad header encoding'')
         | Some hb \<Rightarrow>
        (case p_header_of P hb of
           None \<Rightarrow> Inl (Errorf ''auth: bad header json'')
         | Some hdr \<Rightarrow>
        if Alg hdr \<noteq> ''EdDSA'' \<or> Typ hdr \<noteq> ''JWT'' then Inl (Errorf ''auth: unsupported algorithm'')
        else if HdrKid hdr = '''' then Inl (Errorf ''auth: missing kid'')
        else
        (case lookup (HdrKid hdr) of
           None \<Rightarrow> Inl (Errorf ''auth: unknown key'')
         | Some pub \<Rightarrow>
        (case b64_decode p2 of
           None \<Rightarrow> Inl (Errorf ''auth: bad signature encoding'')
         | Some sig \<Rightarrow>
        if \<not> p_verify P pub (p0 @ ''.'' @ p1) sig then Inl (Errorf ''auth: bad signature'')
        else
        (case b64_decode p1 of
           None \<Rightarrow> Inl (Errorf ''auth: bad payload encoding'')
         | Some pb \<Rightarrow>
        (case p_claims_of P pb of
           None \<Rightarrow> Inl (Errorf ''auth: bad payload json'')
         | Some c \<Rightarrow> check_claims now audience (HdrKid hdr) c))))))"

definition Verify ::
  "prims \<Rightarrow> int \<Rightarrow> string \<Rightarrow> string \<Rightarrow> (string \<Rightarrow> bytes option) \<Rightarrow> claims result" where
  "Verify P now token audience lookup =
    (case splitN token CHR ''.'' 3 of
       [p0, p1, p2] \<Rightarrow> verify_parts P now audience lookup p0 p1 p2
     | _ \<Rightarrow> Inl (Errorf ''auth: malformed token''))"

section \<open>The cache of accepted token identifiers\<close>

type_synonym jti_cache = "(string, int) gomap"

definition SeenOrAdd :: "string \<Rightarrow> int \<Rightarrow> jti_cache \<Rightarrow> bool \<times> jti_cache" where
  "SeenOrAdd jti exp c =
    (case map_of c jti of Some _ \<Rightarrow> (True, c) | None \<Rightarrow> (False, AList.update jti exp c))"

definition sweep :: "int \<Rightarrow> jti_cache \<Rightarrow> jti_cache" where
  "sweep now c = filter (\<lambda>(jti, exp). \<not> exp \<le> now) c"

section \<open>The claim window\<close>

text \<open>\<open>cw_once\<close> is the spent state of the \<open>sync.Once\<close>; \<open>cw_timer\<close> says whether the
  auto-close timer is armed.\<close>

record claim_window =
  cw_open :: bool
  cw_once :: bool
  cw_timer :: bool

definition NewClaimWindow :: "int \<Rightarrow> int \<Rightarrow> claim_window" where
  "NewClaimWindow startEnrolled timeout =
    (if startEnrolled > 0 then \<lparr>cw_open = False, cw_once = False, cw_timer = False\<rparr>
     else \<lparr>cw_open = True, cw_once = False, cw_timer = timeout > 0\<rparr>)"

definition claim_Close :: "claim_window \<Rightarrow> claim_window" where
  "claim_Close w = (if cw_once w then w else \<lparr>cw_open = False, cw_once = True, cw_timer = False\<rparr>)"

section \<open>The interceptor\<close>

record authenticator =
  au_CapsuleID :: string
  au_InstallerMode :: bool

definition AdoptMethod :: string where
  "AdoptMethod = ''/capsule.v1.IdentityService/Adopt''"

definition InstallerMethods :: "string list" where
  "InstallerMethods = [''/capsule.v1.InstallService/Status'', ''/capsule.v1.InstallService/Install'']"

definition bearer :: "string list \<Rightarrow> string" where
  "bearer vs =
    (case vs of
       [] \<Rightarrow> ''''
     | x # _ \<Rightarrow>
        let v = trim_space x
        in if length v < 7 \<or> map to_lower (take 7 v) \<noteq> ''bearer '' then '''' else trim_space (drop 7 v))"

text \<open>The request context is the caller's kid, empty when unauthenticated. \<open>auth_hdr\<close>
  are the values of the authorization header.\<close>

definition authorize ::
  "prims \<Rightarrow> authenticator \<Rightarrow> (string \<Rightarrow> bytes option) \<Rightarrow> int \<Rightarrow> string list \<Rightarrow> string \<Rightarrow>
   (jti_cache, string) action" where
  "authorize P a lookup now auth_hdr fullMethod cache =
    (if fullMethod = AdoptMethod then (Inr '''', cache)
     else if au_InstallerMode a \<and> fullMethod \<in> set InstallerMethods then (Inr '''', cache)
     else
       let tok = bearer auth_hdr
       in if tok = ''''
          then (Inl (Status Unauthenticated ''missing bearer token (run: capsulectl adopt)''), cache)
          else (case Verify P now tok (au_CapsuleID a) lookup of
                  Inl e \<Rightarrow> (Inl (Status Unauthenticated (error_text e)), cache)
                | Inr c \<Rightarrow>
                    (case SeenOrAdd (Jti c) (Exp c) cache of
                       (True, cache') \<Rightarrow> (Inl (Status Unauthenticated ''auth: token replay''), cache')
                     | (False, cache') \<Rightarrow> (Inr (Sub c), cache'))))"

text \<open>Both interceptors run the handler in the authorized context, or not at all.\<close>

definition intercept ::
  "prims \<Rightarrow> authenticator \<Rightarrow> (string \<Rightarrow> bytes option) \<Rightarrow> int \<Rightarrow> string list \<Rightarrow> string \<Rightarrow>
   (string \<Rightarrow> ('s, 'a) action) \<Rightarrow> (jti_cache \<times> 's, 'a) action" where
  "intercept P a lookup now auth_hdr fullMethod handler st =
    (case authorize P a lookup now auth_hdr fullMethod (fst st) of
       (Inl e, cache) \<Rightarrow> (Inl e, (cache, snd st))
     | (Inr kid, cache) \<Rightarrow> (case handler kid (snd st) of (r, s) \<Rightarrow> (r, (cache, s))))"

section \<open>Lemmas on tokens\<close>

lemma splitN_from_ne [simp]: "splitN_from sep k cur s \<noteq> []"
  by (induction sep k cur s rule: splitN_from.induct) auto

lemma join_splitN_from: "join_with sep (splitN_from sep k cur s) = rev cur @ s"
proof (induction sep k cur s rule: splitN_from.induct)
  case (3 sep k cur c s)
  then show ?case
    by (cases "splitN_from sep k [] s") auto
qed simp_all

lemma splitN_from_zero: "splitN_from sep 0 cur s = [rev cur @ s]"
  by (cases s) simp_all

lemma splitN_from_part:
  "sep \<notin> set a \<Longrightarrow> splitN_from sep (Suc k) cur (a @ sep # s) = (rev cur @ a) # splitN_from sep k [] s"
  by (induction a arbitrary: cur) auto

lemma splitN_three:
  assumes "sep \<notin> set a" "sep \<notin> set b"
  shows "splitN (a @ sep # b @ sep # c) sep 3 = [a, b, c]"
proof -
  have "(3 :: nat) - 1 = Suc (Suc 0)" by simp
  then show ?thesis
    unfolding splitN_def by (simp only: splitN_from_part [OF assms(1)] splitN_from_part [OF assms(2)]
        splitN_from_zero rev.simps append_Nil)
qed

lemma splitN_join: "splitN s sep n = [a, b, c] \<Longrightarrow> s = a @ sep # b @ sep # c"
  using join_splitN_from [of sep "n - 1" "[]" s] by (simp add: splitN_def)

lemma check_claims_Inr:
  "check_claims now aud kid c = Inr d \<longleftrightarrow>
     d = c \<and> Sub c = kid \<and> (aud = [] \<or> Aud c = aud) \<and> Iat c \<noteq> 0 \<and> Iat c \<le> int64 (now + ClockSkew) \<and>
     Exp c \<noteq> 0 \<and> now \<le> int64 (Exp c + ClockSkew) \<and> Jti c \<noteq> []"
  by (auto simp: check_claims_def)

lemma verify_parts_Inr:
  assumes v: "verify_parts P now aud lookup p0 p1 p2 = Inr c"
  obtains hdr :: jwt_header and pub sig pb
  where "lookup (HdrKid hdr) = Some pub" "b64_decode p2 = Some sig"
    "p_verify P pub (p0 @ ''.'' @ p1) sig" "b64_decode p1 = Some pb" "p_claims_of P pb = Some c"
    "check_claims now aud (HdrKid hdr) c = Inr c"
proof -
  obtain hb where 1: "b64_decode p0 = Some hb"
    using v by (cases "b64_decode p0") (simp_all add: verify_parts_def)
  obtain hdr where 2: "p_header_of P hb = Some hdr"
    using v 1 by (cases "p_header_of P hb") (simp_all add: verify_parts_def)
  note go = verify_parts_def [of P now aud lookup p0 p1 p2, unfolded 1 2 option.case]
  obtain pub where 3: "lookup (HdrKid hdr) = Some pub"
    using v by (cases "lookup (HdrKid hdr)") (simp_all add: go split: if_splits)
  obtain sig where 4: "b64_decode p2 = Some sig"
    using v 3 by (cases "b64_decode p2") (simp_all add: go split: if_splits)
  have 5: "p_verify P pub (p0 @ ''.'' @ p1) sig"
    using v 3 4 by (simp add: go split: if_splits)
  obtain pb where 6: "b64_decode p1 = Some pb"
    using v 3 4 by (cases "b64_decode p1") (simp_all add: go split: if_splits)
  obtain d where 7: "p_claims_of P pb = Some d"
    using v 3 4 6 by (cases "p_claims_of P pb") (simp_all add: go split: if_splits)
  have 8: "check_claims now aud (HdrKid hdr) d = Inr c"
    using v 3 4 6 7 by (simp add: go split: if_splits)
  then have "c = d" by (simp add: check_claims_Inr)
  then show ?thesis using 7 8 by (intro that [OF 3 4 5 6]) simp_all
qed

lemma Verify_Inr:
  assumes "Verify P now tok aud lookup = Inr c"
  obtains p0 p1 p2 where "tok = p0 @ CHR ''.'' # p1 @ CHR ''.'' # p2"
    "verify_parts P now aud lookup p0 p1 p2 = Inr c"
  using assms splitN_join [of tok "CHR ''.''" 3] by (auto simp: Verify_def split: list.splits)

lemma now_skew: "0 \<le> now \<Longrightarrow> now < 2 ^ 62 \<Longrightarrow> int64 (now + ClockSkew) = now + ClockSkew"
  by (rule int64_id) (simp_all add: ClockSkew_def)

lemma exp_skew:
  assumes "0 \<le> now" "- (2 ^ 63) \<le> e" "e < 2 ^ 63" "now \<le> int64 (e + ClockSkew)"
  shows "now \<le> e + ClockSkew"
proof (cases "e + ClockSkew < 2 ^ 63")
  case True
  then have "int64 (e + ClockSkew) = e + ClockSkew"
    using assms(2) by (intro int64_id) (simp_all add: ClockSkew_def)
  then show ?thesis using assms(4) by simp
next
  case False
  then have "int64 (e + ClockSkew) = e + ClockSkew - 2 ^ 64"
    using assms(3) by (intro int64_over) (simp_all add: ClockSkew_def)
  then show ?thesis using assms False by (simp add: ClockSkew_def)
qed

section \<open>Properties of tokens\<close>

text \<open>C5: a token that verifies was signed. Its claims name a key that the lookup knows,
  the signature over header and payload checks under that key, the audience is
  the verifier's, and the clock lies within the allowed skew of the validity
  interval, for every \<open>int64\<close> value of the claims.\<close>

theorem Verify_sound:
  assumes "Verify P now tok aud lookup = Inr c" "aud \<noteq> []" "0 \<le> now" "now < 2 ^ 62"
    "- (2 ^ 63) \<le> Exp c" "Exp c < 2 ^ 63"
  shows "\<exists>pub h p s sig pb. lookup (Sub c) = Some pub \<and> tok = h @ ''.'' @ p @ ''.'' @ s \<and>
    b64_decode s = Some sig \<and> p_verify P pub (h @ ''.'' @ p) sig \<and>
    b64_decode p = Some pb \<and> p_claims_of P pb = Some c \<and>
    Aud c = aud \<and> Iat c \<le> now + 300 \<and> now \<le> Exp c + 300 \<and> Jti c \<noteq> []"
proof -
  obtain h p s where tok: "tok = h @ CHR ''.'' # p @ CHR ''.'' # s"
    and vp: "verify_parts P now aud lookup h p s = Inr c"
    using Verify_Inr [OF assms(1)] .
  obtain hdr :: jwt_header and pub sig pb
    where v: "lookup (HdrKid hdr) = Some pub" "b64_decode s = Some sig"
    "p_verify P pub (h @ ''.'' @ p) sig" "b64_decode p = Some pb" "p_claims_of P pb = Some c"
    "check_claims now aud (HdrKid hdr) c = Inr c"
    using verify_parts_Inr [OF vp] .
  have "Sub c = HdrKid hdr" "Aud c = aud" "Jti c \<noteq> []" "Iat c \<le> now + 300" "now \<le> Exp c + 300"
    using v(6) assms(2) now_skew [OF assms(3,4)] exp_skew [OF assms(3,5,6)]
    by (auto simp: check_claims_Inr ClockSkew_def)
  then show ?thesis using v(1-5) tok
    by (intro exI [of _ pub] exI [of _ h] exI [of _ p] exI [of _ s] exI [of _ sig] exI [of _ pb]) simp
qed

text \<open>Primitives for the examples: a constant digest, a signature that repeats the
  key, and codecs that know one header and one set of claims.\<close>

definition example_kid :: string where
  "example_kid = b64_encode (replicate 32 7)"

definition example_claims :: claims where
  "example_claims = \<lparr>Sub = example_kid, Aud = ''c1'', Iat = 1000, Exp = 1060, Jti = ''j''\<rparr>"

definition example_prims :: prims where
  "example_prims = \<lparr>p_sha256 = \<lambda>_. replicate 32 7, p_public = take 32, p_sign = \<lambda>k _. take 32 k,
     p_verify = \<lambda>pub _ sig. sig = pub, p_header_json = \<lambda>_. [1], p_claims_json = \<lambda>_. [2],
     p_header_of = \<lambda>_. Some \<lparr>Alg = ''EdDSA'', Typ = ''JWT'', HdrKid = example_kid\<rparr>,
     p_claims_of = \<lambda>_. Some example_claims\<rparr>"

definition example_token :: string where
  "example_token = b64_encode [1] @ ''.'' @ b64_encode [2] @ ''.'' @ b64_encode (replicate 32 9)"

definition example_lookup :: "string \<Rightarrow> bytes option" where
  "example_lookup kid = (if kid = example_kid then Some (replicate 32 9) else None)"

lemma example_kid_ne: "example_kid \<noteq> []"
proof -
  have "(32 :: nat) = Suc (Suc (Suc 29))" by simp
  then have "replicate 32 (7 :: 8 word) = 7 # 7 # 7 # replicate 29 7" by (simp only: replicate.simps)
  then show ?thesis unfolding example_kid_def by (simp only: b64_encode.simps Let_def) simp
qed

lemma example_verify: "Verify example_prims 1010 example_token ''c1'' example_lookup = Inr example_claims"
proof -
  have "splitN example_token CHR ''.'' 3 = [b64_encode [1], b64_encode [2], b64_encode (replicate 32 9)]"
    using splitN_three [OF b64_encode_no_dot b64_encode_no_dot]
    by (simp add: example_token_def del: b64_encode.simps)
  moreover have "check_claims 1010 ''c1'' example_kid example_claims = Inr example_claims"
    by (simp add: check_claims_Inr example_claims_def ClockSkew_def int64_id)
  ultimately show ?thesis
    by (simp only: Verify_def verify_parts_def list.case b64_decode_encode option.case)
      (simp add: example_prims_def example_lookup_def example_kid_ne del: b64_encode.simps)
qed

theorem Verify_sound_witness:
  "example_lookup (Sub example_claims) \<noteq> None \<and> Aud example_claims = ''c1'' \<and> (1010 :: int) \<le> Exp example_claims + 300"
  using Verify_sound [OF example_verify] by (auto simp: example_claims_def)

definition minted_claims :: "prims \<Rightarrow> int \<Rightarrow> string \<Rightarrow> bytes \<Rightarrow> string \<Rightarrow> int \<Rightarrow> claims" where
  "minted_claims P now jti priv aud lifetime =
    \<lparr>Sub = KidFromPubkey P (p_public P priv), Aud = aud, Iat = now,
     Exp = int64 (now + (if lifetime \<le> 0 then DefaultLifetime else lifetime) div 1000000000), Jti = jti\<rparr>"

definition minted_header :: "prims \<Rightarrow> bytes \<Rightarrow> jwt_header" where
  "minted_header P priv = \<lparr>Alg = ''EdDSA'', Typ = ''JWT'', HdrKid = KidFromPubkey P (p_public P priv)\<rparr>"

text \<open>a freshly minted token verifies. If the JSON codec decodes what it encoded,
  the signature checks under the signer's public key and that key is enrolled
  under its kid, then a verifier for the same audience accepts the token while
  its clock is between five minutes before the mint and five minutes after the
  expiry, and reads back exactly the minted claims.\<close>

theorem Mint_then_Verify:
  assumes mint: "Mint P now (Inr jti) priv aud lifetime = Inr tok"
    and json: "p_header_of P (p_header_json P (minted_header P priv)) = Some (minted_header P priv)"
      "p_claims_of P (p_claims_json P (minted_claims P now jti priv aud lifetime)) =
         Some (minted_claims P now jti priv aud lifetime)"
    and sig: "\<forall>m. p_verify P (p_public P priv) m (p_sign P priv m)"
    and enrolled: "lookup (KidFromPubkey P (p_public P priv)) = Some (p_public P priv)"
    and ids: "KidFromPubkey P (p_public P priv) \<noteq> []" "jti \<noteq> []"
    and clock: "0 < now" "now < 2 ^ 61" "lifetime < 2 ^ 61" "0 \<le> now'" "now' < 2 ^ 62"
      "now \<le> now' + 300" "now' \<le> Exp (minted_claims P now jti priv aud lifetime) + 300"
  shows "Verify P now' tok aud lookup = Inr (minted_claims P now jti priv aud lifetime)"
proof -
  let ?h = "b64_encode (p_header_json P (minted_header P priv))"
  let ?p = "b64_encode (p_claims_json P (minted_claims P now jti priv aud lifetime))"
  let ?c = "minted_claims P now jti priv aud lifetime"
  have tok: "tok = ?h @ CHR ''.'' # ?p @ CHR ''.'' # b64_encode (p_sign P priv (?h @ ''.'' @ ?p))"
    using mint by (simp add: Mint_def Let_def minted_header_def minted_claims_def split: if_splits)
  define life where "life = (if lifetime \<le> 0 then DefaultLifetime else lifetime) div 1000000000"
  have life: "0 \<le> life" "life < 2 ^ 61"
    using clock(3) unfolding life_def DefaultLifetime_def by auto
  have exp: "Exp ?c = now + life" "Exp ?c + 300 < 2 ^ 63"
    using clock(1,2) life int64_id [of "now + life"] by (simp_all add: minted_claims_def life_def)
  have "check_claims now' aud (KidFromPubkey P (p_public P priv)) ?c = Inr ?c"
    using clock exp life ids now_skew [OF clock(4,5)] int64_id [of "Exp ?c + ClockSkew"]
    by (simp add: check_claims_Inr ClockSkew_def) (simp add: minted_claims_def)
  then show ?thesis
    using json sig enrolled ids(1)
    by (simp add: Verify_def tok splitN_three b64_encode_no_dot verify_parts_def minted_header_def)
qed

theorem Mint_then_Verify_witness:
  "Verify example_prims 1010 (projr (Mint example_prims 1000 (Inr ''j'') (replicate 64 9) ''c1'' 0)) ''c1'' example_lookup
     = Inr example_claims"
proof -
  have kid: "KidFromPubkey example_prims (p_public example_prims (replicate 64 9)) = example_kid"
    by (simp add: KidFromPubkey_def example_prims_def example_kid_def del: b64_encode.simps)
  have c: "minted_claims example_prims 1000 ''j'' (replicate 64 9) ''c1'' 0 = example_claims"
    by (simp add: minted_claims_def kid example_claims_def DefaultLifetime_def int64_id)
  have "Mint example_prims 1000 (Inr ''j'') (replicate 64 9) ''c1'' 0 =
      Inr (projr (Mint example_prims 1000 (Inr ''j'') (replicate 64 9) ''c1'' 0))"
    by (simp add: Mint_def Let_def)
  from Mint_then_Verify [OF this, of example_lookup 1010] show ?thesis
    unfolding c kid minted_header_def
    by (simp add: example_prims_def example_lookup_def example_kid_ne example_claims_def
        del: b64_encode.simps)
qed

section \<open>Properties of the interceptor\<close>

text \<open>The methods that are callable without a token.\<close>

definition open_method :: "authenticator \<Rightarrow> string \<Rightarrow> bool" where
  "open_method a m \<longleftrightarrow> m = AdoptMethod \<or> au_InstallerMode a \<and> m \<in> set InstallerMethods"

lemma authorize_Inr:
  assumes "authorize P a lookup now hdr m cache = (Inr kid, cache')" "\<not> open_method a m"
  obtains c where "Verify P now (bearer hdr) (au_CapsuleID a) lookup = Inr c" "kid = Sub c"
    "map_of cache (Jti c) = None" "cache' = AList.update (Jti c) (Exp c) cache"
proof -
  have m: "m \<noteq> AdoptMethod" "\<not> (au_InstallerMode a \<and> m \<in> set InstallerMethods)"
    using assms(2) unfolding open_method_def by blast+
  note go = assms(1) [unfolded authorize_def Let_def if_not_P [OF m(1)] if_not_P [OF m(2)]]
  have "bearer hdr \<noteq> []" using go by (auto split: if_splits)
  note go = go [unfolded if_not_P [OF this]]
  show ?thesis
  proof (cases "Verify P now (bearer hdr) (au_CapsuleID a) lookup")
    case (Inl e)
    then show ?thesis using go by simp
  next
    case (Inr c)
    then show ?thesis
      using go that [OF Inr] by (cases "map_of cache (Jti c)") (simp_all add: SeenOrAdd_def)
  qed
qed

lemma Verify_enrolled:
  assumes "Verify P now tok aud lookup = Inr c"
  shows "lookup (Sub c) \<noteq> None"
proof -
  obtain h p s where vp: "verify_parts P now aud lookup h p s = Inr c"
    by (rule Verify_Inr [OF assms])
  obtain hdr :: jwt_header and pub where "lookup (HdrKid hdr) = Some pub"
    "check_claims now aud (HdrKid hdr) c = Inr c"
    by (rule verify_parts_Inr [OF vp])
  then show ?thesis by (simp add: check_claims_Inr)
qed


definition example_auth :: authenticator where
  "example_auth = \<lparr>au_CapsuleID = ''c1'', au_InstallerMode = False\<rparr>"

definition example_header :: "string list" where
  "example_header = [''Bearer '' @ example_token]"

lemma b64_no_space: "c \<in> set (b64_encode bs) \<Longrightarrow> \<not> is_space c"
proof -
  assume "c \<in> set (b64_encode bs)"
  then obtain i where "i \<in> set (b64_indices bs)" "c = b64_char i"
    unfolding b64_encode_indices set_map by (elim imageE) simp
  moreover from this have "i < 64" using b64_indices_range by blast
  ultimately show ?thesis by (auto simp: is_space_def b64_char_code)
qed

lemma example_token_ok: "\<forall>c\<in>set example_token. \<not> is_space c" "example_token \<noteq> []"
  using b64_no_space by (auto simp: example_token_def is_space_def simp del: b64_encode.simps)

lemma trim_space_bearer:
  assumes "\<forall>c\<in>set t. \<not> is_space c" "t \<noteq> []"
  shows "trim_space (''Bearer '' @ t) = ''Bearer '' @ t"
proof -
  obtain u d where t: "t = u @ [d]" using assms(2) by (cases t rule: rev_cases) auto
  have "\<not> is_space d" "\<not> is_space CHR ''B''" using assms(1) t by (simp_all add: is_space_def)
  then show ?thesis by (simp add: trim_space_def t)
qed

lemma lower_bearer: "map to_lower ''Bearer '' = ''bearer ''"
  using char_of_char [where 'a = nat, of "CHR ''b''"] by (simp add: to_lower_def Let_def)

lemma bearer_token:
  assumes "\<forall>c\<in>set t. \<not> is_space c" "t \<noteq> []"
  shows "bearer [''Bearer '' @ t] = t"
proof -
  have seven: "take 7 (''Bearer '' @ t) = ''Bearer ''" "drop 7 (''Bearer '' @ t) = t"
    "\<not> length (''Bearer '' @ t) < 7" by simp_all
  show ?thesis
    unfolding bearer_def list.case Let_def trim_space_bearer [OF assms] seven lower_bearer
    by (simp add: trim_space_id [OF assms(1)])
qed

lemma example_accepted:
  "authorize example_prims example_auth example_lookup 1010 example_header ''/m'' [] = (Inr example_kid, [(''j'', 1060)])"
proof -
  have "bearer example_header = example_token"
    unfolding example_header_def by (rule bearer_token [OF example_token_ok])
  then show ?thesis
    using example_verify example_token_ok(2)
    by (simp add: authorize_def AdoptMethod_def example_auth_def SeenOrAdd_def example_claims_def)
qed


section \<open>Replay\<close>

text \<open>What can happen to the cache while the server runs: requests are authorized, at
  any time and with any key lookup, and the sweeper runs. \<open>limit\<close> bounds the
  times at which it ran.\<close>

inductive cache_run :: "int \<Rightarrow> jti_cache \<Rightarrow> jti_cache \<Rightarrow> bool" for limit where
  run_refl: "cache_run limit c c"
| run_request: "cache_run limit c d \<Longrightarrow> authorize P a lookup now hdr m d = (r, e) \<Longrightarrow> cache_run limit c e"
| run_sweep: "cache_run limit c d \<Longrightarrow> t < limit \<Longrightarrow> cache_run limit c (sweep t d)"

lemma SeenOrAdd_keeps: "map_of c j = Some e \<Longrightarrow> map_of (snd (SeenOrAdd k x c)) j = Some e"
  by (auto simp: SeenOrAdd_def update_conv' split: option.splits)

lemma sweep_keeps: "map_of c j = Some e \<Longrightarrow> t < e \<Longrightarrow> map_of (sweep t c) j = Some e"
  by (induction c) (auto simp: sweep_def split: if_splits)

lemma authorize_cache:
  "snd (authorize P a lookup now hdr m c) = c \<or>
   (\<exists>j x. snd (authorize P a lookup now hdr m c) = snd (SeenOrAdd j x c))"
proof (cases "Verify P now (bearer hdr) (au_CapsuleID a) lookup")
  case (Inl e)
  then show ?thesis by (simp add: authorize_def Let_def)
next
  case (Inr x)
  show ?thesis
  proof (cases "SeenOrAdd (Jti x) (Exp x) c")
    case (Pair seen c')
    then have "snd (authorize P a lookup now hdr m c) \<in> {c, snd (SeenOrAdd (Jti x) (Exp x) c)}"
      using Inr by (simp add: authorize_def Let_def split: bool.split)
    then show ?thesis by blast
  qed
qed

lemma authorize_keeps:
  "map_of c j = Some e \<Longrightarrow> map_of (snd (authorize P a lookup now hdr m c)) j = Some e"
  using authorize_cache [of P a lookup now hdr m c] SeenOrAdd_keeps by metis

lemma cache_run_keeps: "cache_run limit c d \<Longrightarrow> map_of c j = Some limit \<Longrightarrow> map_of d j = Some limit"
proof (induction rule: cache_run.induct)
  case (run_request c d P a lookup now hdr m r e)
  then show ?case using authorize_keeps [of d j limit P a lookup now hdr m] by simp
qed (simp_all add: sweep_keeps)

lemma authorize_seen:
  assumes "Verify P now (bearer hdr) (au_CapsuleID a) lookup = Inr c" "map_of cache (Jti c) \<noteq> None"
    "\<not> open_method a m"
  shows "\<not> is_ok (fst (authorize P a lookup now hdr m cache))"
proof
  assume "is_ok (fst (authorize P a lookup now hdr m cache))"
  then obtain kid where "authorize P a lookup now hdr m cache =
      (Inr kid, snd (authorize P a lookup now hdr m cache))"
    by (metis is_ok_iff prod.collapse)
  from authorize_Inr [OF this assms(3)] show False using assms(1,2) by auto
qed

text \<open>a token is accepted at most once before it expires. After an accepted request,
  and as long as the sweeper has only run at times before the token's expiry, no
  request whose token carries the same identifier is accepted again, whatever
  other requests were served in between.\<close>

theorem no_replay_before_expiry:
  assumes first: "authorize P a lookup now hdr m cache = (Inr kid, cache1)"
    and tok: "Verify P now (bearer hdr) (au_CapsuleID a) lookup = Inr c"
    and run: "cache_run (Exp c) cache1 cache2"
    and again: "Verify P now' (bearer hdr') (au_CapsuleID a) lookup' = Inr c'" "Jti c' = Jti c"
    and guarded: "\<not> open_method a m" "\<not> open_method a m'"
  shows "\<not> is_ok (fst (authorize P a lookup' now' hdr' m' cache2))"
proof -
  obtain d where d: "Verify P now (bearer hdr) (au_CapsuleID a) lookup = Inr d"
    "cache1 = AList.update (Jti d) (Exp d) cache"
    by (rule authorize_Inr [OF first guarded(1)])
  have "map_of cache1 (Jti c) = Some (Exp c)" using d tok by (simp add: update_conv')
  from cache_run_keeps [OF run this] show ?thesis
    using authorize_seen [OF again(1) _ guarded(2)] again(2) by simp
qed

lemma example_guarded: "\<not> open_method example_auth ''/m''"
  by (simp add: open_method_def AdoptMethod_def example_auth_def)

lemma example_bearer: "bearer example_header = example_token"
  unfolding example_header_def by (rule bearer_token [OF example_token_ok])

lemma example_verify':
  "Verify example_prims 1010 (bearer example_header) (au_CapsuleID example_auth) example_lookup = Inr example_claims"
  using example_verify by (simp add: example_bearer example_auth_def)

theorem no_replay_before_expiry_witness:
  "\<not> is_ok (fst (authorize example_prims example_auth example_lookup 1010 example_header ''/m''
      (sweep 1050 [(''j'', 1060)])))"
proof -
  have "cache_run (Exp example_claims) [(''j'', 1060)] (sweep 1050 [(''j'', 1060)])"
    by (intro run_sweep run_refl) (simp add: example_claims_def)
  from no_replay_before_expiry [OF example_accepted example_verify' this example_verify' refl
      example_guarded example_guarded]
  show ?thesis .
qed

text \<open>Past the expiry the two clocks disagree: the sweeper forgets an identifier at its
  expiry while \<open>Verify\<close> accepts the token for the skew beyond it, so the same
  token is accepted a second time.\<close>

lemma example_verify_late:
  "Verify example_prims 1100 (bearer example_header) (au_CapsuleID example_auth) example_lookup = Inr example_claims"
proof -
  have "splitN example_token CHR ''.'' 3 = [b64_encode [1], b64_encode [2], b64_encode (replicate 32 9)]"
    using splitN_three [OF b64_encode_no_dot b64_encode_no_dot]
    by (simp add: example_token_def del: b64_encode.simps)
  moreover have "check_claims 1100 ''c1'' example_kid example_claims = Inr example_claims"
    by (simp add: check_claims_Inr example_claims_def ClockSkew_def int64_id)
  ultimately show ?thesis
    unfolding example_bearer
    by (simp only: Verify_def verify_parts_def list.case b64_decode_encode option.case)
      (simp add: example_prims_def example_lookup_def example_kid_ne example_auth_def del: b64_encode.simps)
qed

text \<open>C32: the cache may forget a token in the interval in which it still verifies. A token
  expiring at 1060 is accepted at 1010, forgotten by the sweep at 1070 and accepted
  again at 1100, because verification allows the clock skew after expiry and the
  sweep does not.\<close>

theorem replay_after_sweep:
  "authorize example_prims example_auth example_lookup 1010 example_header ''/m'' [] =
     (Inr example_kid, [(''j'', 1060)]) \<and>
   is_ok (fst (authorize example_prims example_auth example_lookup 1100 example_header ''/m''
     (sweep 1070 [(''j'', 1060)])))"
proof -
  have "sweep 1070 [(''j'', 1060)] = []" by (simp add: sweep_def)
  moreover have "bearer example_header \<noteq> []" using example_token_ok(2) by (simp add: example_bearer)
  ultimately show ?thesis
    using example_accepted example_verify_late
    by (simp add: authorize_def AdoptMethod_def SeenOrAdd_def example_auth_def)
qed

end
