(* ===== verification/Capsule_Identity.thy ===== *)
theory Capsule_Identity
  imports Capsule_Auth Capsule_Store_Memory Capsule_Store_Sqlite
begin

text \<open>
  Adoption and key management: the identity controller
  \<^verbatim>\<open>src/controllers/identity.go\<close> and the parts of the daemon's startup in
  \<^verbatim>\<open>src/cmd/capsuled/main.go\<close> that decide whether a capsule can be adopted (store
  selection, identity row, claim seed, key lookup, RESET_AUTH).

  The state of the controller is the store, the claim window and the mDNS
  announcer. A request's context is the caller's kid, empty when
  unauthenticated; \<open>now\<close> is the clock. \<open>parse_uuid\<close> and \<open>new_uuid\<close> stand for the
  uuid package.
\<close>

section \<open>The controller\<close>

record ('s, 'm) identity_controller =
  ic_Identity :: "'s identity_store"
  ic_Keys :: "'s auth_key_store"
  ic_TLSFingerprint :: string
  ic_MDNS :: "('m, unit) action option"

record ('s, 'm) id_state =
  ids_store :: 's
  ids_claim :: claim_window
  ids_mdns :: 'm

record adopt_response =
  ar_CapsuleId :: string
  ar_Kid :: string
  ar_TlsFingerprintSha256 :: string

record whoami_response =
  wr_CapsuleId :: string
  wr_Kid :: string
  wr_Name :: string

record key_message =
  km_Kid :: string
  km_Name :: string
  km_AddedByKid :: string
  km_AddedAtUnix :: int

definition in_store :: "('s, 'a) action \<Rightarrow> (('s, 'm) id_state, 'a) action" where
  "in_store f st = (case f (ids_store st) of (x, s) \<Rightarrow> (x, st\<lparr>ids_store := s\<rparr>))"

definition adopt_reply ::
  "('s, 'm) identity_controller \<Rightarrow> capsule_identity \<Rightarrow> string \<Rightarrow> adopt_response" where
  "adopt_reply C i kid = \<lparr>ar_CapsuleId = CapsuleID i, ar_Kid = kid,
     ar_TlsFingerprintSha256 = ic_TLSFingerprint C\<rparr>"

text \<open>The announcer is told about the adoption; its failure is only logged.\<close>

definition mark_adopted :: "('s, 'm) identity_controller \<Rightarrow> ('s, 'm) id_state \<Rightarrow> ('s, 'm) id_state" where
  "mark_adopted C st =
    (case ic_MDNS C of None \<Rightarrow> st | Some mark \<Rightarrow> st\<lparr>ids_mdns := snd (mark (ids_mdns st))\<rparr>)"

text \<open>The path of \<open>Adopt\<close> once the window was seen closed.\<close>

definition adopt_enrolled ::
  "('s, 'm) identity_controller \<Rightarrow> string \<Rightarrow> (('s, 'm) id_state, adopt_response) action" where
  "adopt_enrolled C kid st =
    (case in_store (ak_Get (ic_Keys C) kid) st of
       (Inl _, st1) \<Rightarrow> (Inl (Status FailedPrecondition
          ''adoption window closed; use an enrolled key, or trigger RESET_AUTH at the console''), st1)
     | (Inr _, st1) \<Rightarrow>
        (case in_store (id_Get (ic_Identity C)) st1 of
           (Inl _, st2) \<Rightarrow> (Inl (Status Internal ''load identity''), st2)
         | (Inr i, st2) \<Rightarrow> (Inr (adopt_reply C i kid), st2)))"

text \<open>The path of \<open>Adopt\<close> once the window was seen open.\<close>

definition adopt_bootstrap ::
  "('s, 'm) identity_controller \<Rightarrow> int \<Rightarrow> bytes \<Rightarrow> string \<Rightarrow> string \<Rightarrow>
   (('s, 'm) id_state, adopt_response) action" where
  "adopt_bootstrap C now pub kid reqName st =
    (let name = (if reqName = '''' then ''operator'' else reqName) in
     case in_store (id_Get (ic_Identity C)) st of
       (Inl _, st1) \<Rightarrow> (Inl (Status Internal ''load identity''), st1)
     | (Inr i, st1) \<Rightarrow>
        (case in_store (ak_Add (ic_Keys C)
             \<lparr>Kid = kid, Pubkey = pub, KeyName = name, AddedByKid = '''', AddedAtUnix = now\<rparr>) st1 of
           (r, st2) \<Rightarrow>
             if (case r of Inl e \<Rightarrow> \<not> errors_is e ErrConflict | Inr _ \<Rightarrow> False)
             then (Inl (Status Internal ''store key''), st2)
             else
               let i' = i\<lparr>AdoptedAtUnix := now, AdoptedByKid := kid\<rparr>
               in (case in_store (id_Put (ic_Identity C) i') st2 of
                     (Inl _, st3) \<Rightarrow> (Inl (Status Internal ''save identity''), st3)
                   | (Inr _, st3) \<Rightarrow>
                       (Inr (adopt_reply C i' kid),
                        mark_adopted C (st3\<lparr>ids_claim := claim_Close (ids_claim st3)\<rparr>)))))"

definition Adopt ::
  "prims \<Rightarrow> ('s, 'm) identity_controller \<Rightarrow> int \<Rightarrow> bytes \<Rightarrow> string \<Rightarrow>
   (('s, 'm) id_state, adopt_response) action" where
  "Adopt P C now pubkey reqName st =
    (case ParsePubkey pubkey of
       Inl e \<Rightarrow> (Inl (Status InvalidArgument (error_text e)), st)
     | Inr pub \<Rightarrow>
        let kid = KidFromPubkey P pub
        in if \<not> cw_open (ids_claim st) then adopt_enrolled C kid st
           else adopt_bootstrap C now pub kid reqName st)"

definition WhoAmI ::
  "('s, 'm) identity_controller \<Rightarrow> string \<Rightarrow> (('s, 'm) id_state, whoami_response) action" where
  "WhoAmI C kid st =
    (if kid = '''' then (Inl (Status Unauthenticated ''no authenticated identity''), st)
     else (case in_store (id_Get (ic_Identity C)) st of
       (Inl _, st1) \<Rightarrow> (Inl (Status Internal ''load identity''), st1)
     | (Inr i, st1) \<Rightarrow>
        (case in_store (ak_Get (ic_Keys C) kid) st1 of
           (Inl _, st2) \<Rightarrow> (Inr \<lparr>wr_CapsuleId = CapsuleID i, wr_Kid = kid, wr_Name = ''''\<rparr>, st2)
         | (Inr k, st2) \<Rightarrow> (Inr \<lparr>wr_CapsuleId = CapsuleID i, wr_Kid = kid, wr_Name = KeyName k\<rparr>, st2))))"

definition KeyAdd ::
  "prims \<Rightarrow> ('s, 'm) identity_controller \<Rightarrow> int \<Rightarrow> string \<Rightarrow> bytes \<Rightarrow> string \<Rightarrow>
   (('s, 'm) id_state, key_message) action" where
  "KeyAdd P C now caller pubkey name st =
    (if caller = '''' then (Inl (Status Unauthenticated ''no authenticated identity''), st)
     else (case ParsePubkey pubkey of
       Inl e \<Rightarrow> (Inl (Status InvalidArgument (error_text e)), st)
     | Inr pub \<Rightarrow>
        if name = '''' then (Inl (Status InvalidArgument ''name required''), st)
        else let kid = KidFromPubkey P pub
        in (case in_store (ak_Add (ic_Keys C)
             \<lparr>Kid = kid, Pubkey = pub, KeyName = name, AddedByKid = caller, AddedAtUnix = now\<rparr>) st of
              (Inl e, st1) \<Rightarrow>
                if errors_is e ErrConflict then (Inl (Status AlreadyExists ''key already enrolled''), st1)
                else (Inl (Status Internal ''store key''), st1)
            | (Inr _, st1) \<Rightarrow>
                (Inr \<lparr>km_Kid = kid, km_Name = name, km_AddedByKid = caller, km_AddedAtUnix = now\<rparr>, st1))))"

definition KeyList :: "('s, 'm) identity_controller \<Rightarrow> (('s, 'm) id_state, key_message list) action" where
  "KeyList C st =
    (case in_store (ak_List (ic_Keys C)) st of
       (Inl _, st1) \<Rightarrow> (Inl (Status Internal ''list keys''), st1)
     | (Inr ks, st1) \<Rightarrow>
        (Inr (map (\<lambda>k. \<lparr>km_Kid = Kid k, km_Name = KeyName k, km_AddedByKid = AddedByKid k,
                       km_AddedAtUnix = AddedAtUnix k\<rparr>) ks), st1))"

definition KeyRemove ::
  "('s, 'm) identity_controller \<Rightarrow> string \<Rightarrow> string \<Rightarrow> (('s, 'm) id_state, unit) action" where
  "KeyRemove C caller kid st =
    (if caller = '''' then (Inl (Status Unauthenticated ''no authenticated identity''), st)
     else if kid = '''' then (Inl (Status InvalidArgument ''kid required''), st)
     else (case in_store (ak_Count (ic_Keys C)) st of
       (Inl _, st1) \<Rightarrow> (Inl (Status Internal ''count keys''), st1)
     | (Inr n, st1) \<Rightarrow>
        if n \<le> 1 then (Inl (Status FailedPrecondition ''cannot remove the last enrolled key''), st1)
        else (case in_store (ak_Delete (ic_Keys C) kid) st1 of
                (Inl _, st2) \<Rightarrow> (Inl (Status Internal ''delete key''), st2)
              | (Inr _, st2) \<Rightarrow> (Inr (), st2))))"

section \<open>Startup\<close>

text \<open>\<open>fmt.Sprintf("capsule-%02x%02x", u[0], u[1])\<close> on the parsed identifier.\<close>

definition deriveShortID :: "(string \<Rightarrow> bytes option) \<Rightarrow> string \<Rightarrow> string" where
  "deriveShortID parse_uuid capsuleID =
    (case parse_uuid capsuleID of
       Some (a # b # _) \<Rightarrow> ''capsule-'' @ hex_byte a @ hex_byte b
     | _ \<Rightarrow> '''')"

definition ensureIdentity ::
  "(string \<Rightarrow> bytes option) \<Rightarrow> string \<Rightarrow> int \<Rightarrow> 's identity_store \<Rightarrow> ('s, capsule_identity) action" where
  "ensureIdentity parse_uuid new_uuid now ids s =
    (case id_Get ids s of
       (Inr i, s1) \<Rightarrow>
         if ShortID i = ''''
         then let i' = i\<lparr>ShortID := deriveShortID parse_uuid (CapsuleID i)\<rparr>
              in (case id_Put ids i' s1 of (Inl e, s2) \<Rightarrow> (Inl e, s2) | (Inr _, s2) \<Rightarrow> (Inr i', s2))
         else (Inr i, s1)
     | (Inl e, s1) \<Rightarrow>
         if \<not> errors_is e ErrNotFound then (Inl e, s1)
         else let fresh = \<lparr>CapsuleID = new_uuid, ShortID = deriveShortID parse_uuid new_uuid,
                    CreatedAtUnix = now, AdoptedAtUnix = 0, AdoptedByKid = ''''\<rparr>
              in (case id_Put ids fresh s1 of (Inl e, s2) \<Rightarrow> (Inl e, s2) | (Inr _, s2) \<Rightarrow> (Inr fresh, s2)))"

text \<open>RESET_AUTH, on an opened store.\<close>

definition wipeAuthOnDisk :: "'s identity_store \<Rightarrow> 's auth_key_store \<Rightarrow> ('s, unit) action" where
  "wipeAuthOnDisk ids keys s =
    (case ak_DeleteAll keys s of
       (Inl e, s1) \<Rightarrow> (Inl e, s1)
     | (Inr _, s1) \<Rightarrow>
        (case id_Get ids s1 of
           (Inl e, s2) \<Rightarrow> if errors_is e ErrNotFound then (Inr (), s2) else (Inl e, s2)
         | (Inr i, s2) \<Rightarrow> id_Put ids (i\<lparr>AdoptedAtUnix := 0, AdoptedByKid := ''''\<rparr>) s2))"

datatype store_choice = MemoryStore | SqliteStore

record boot_facts =
  bf_isPID1 :: bool
  bf_ActiveSlot :: string
  bf_MountedPerm :: bool
  bf_InstallerMode :: bool

text \<open>The store the daemon runs on and whether its state counts as broken;
  \<open>sqlite_opens\<close> says whether opening the database succeeds.\<close>

definition select_store :: "boot_facts \<Rightarrow> bool \<Rightarrow> store_choice \<times> bool" where
  "select_store b sqlite_opens =
    (if bf_isPID1 b \<and> bf_ActiveSlot b \<noteq> '''' \<and> \<not> bf_MountedPerm b \<and> \<not> bf_InstallerMode b
     then (MemoryStore, True)
     else if bf_MountedPerm b then (if sqlite_opens then (SqliteStore, False) else (MemoryStore, True))
     else (MemoryStore, False))"

text \<open>The claim window at startup. An error of \<open>Count\<close> is dropped, which leaves zero.\<close>

definition startup_claim :: "bool \<Rightarrow> nat result \<Rightarrow> int \<Rightarrow> claim_window" where
  "startup_claim stateBroken counted duration =
    (let enrolledCount = (case counted of Inr n \<Rightarrow> int n | Inl _ \<Rightarrow> 0);
         claimSeed = (if stateBroken then 1 else enrolledCount)
     in NewClaimWindow claimSeed duration)"

text \<open>The authenticator's key lookup.\<close>

definition key_lookup :: "'s auth_key_store \<Rightarrow> 's \<Rightarrow> string \<Rightarrow> bytes option" where
  "key_lookup keys s kid =
    (case ak_Get keys kid s of
       (Inl _, _) \<Rightarrow> None
     | (Inr k, _) \<Rightarrow> (case ParsePubkey (Pubkey k) of Inl _ \<Rightarrow> None | Inr pub \<Rightarrow> Some pub))"

section \<open>Sequences of requests\<close>

text \<open>One request served to the end, or the claim window's timer.\<close>

inductive id_step ::
  "prims \<Rightarrow> ('s, 'm) identity_controller \<Rightarrow> ('s, 'm) id_state \<Rightarrow> ('s, 'm) id_state \<Rightarrow> bool"
  for P C where
  step_Adopt: "Adopt P C now pub name st = (r, st') \<Longrightarrow> id_step P C st st'"
| step_WhoAmI: "WhoAmI C kid st = (w, st') \<Longrightarrow> id_step P C st st'"
| step_KeyAdd: "KeyAdd P C now caller pub name st = (m, st') \<Longrightarrow> id_step P C st st'"
| step_KeyList: "KeyList C st = (l, st') \<Longrightarrow> id_step P C st st'"
| step_KeyRemove: "KeyRemove C caller kid st = (u, st') \<Longrightarrow> id_step P C st st'"
| step_timer: "id_step P C st (st\<lparr>ids_claim := claim_Close (ids_claim st)\<rparr>)"

inductive id_reach ::
  "prims \<Rightarrow> ('s, 'm) identity_controller \<Rightarrow> ('s, 'm) id_state \<Rightarrow> ('s, 'm) id_state \<Rightarrow> bool"
  for P C where
  id_refl: "id_reach P C st st"
| id_more: "id_reach P C st st' \<Longrightarrow> id_step P C st' st'' \<Longrightarrow> id_reach P C st st''"

section \<open>Correctness over any store that keeps its contract\<close>

lemma KidFromPubkey_length: "length b = 32 \<Longrightarrow> ParsePubkey b = Inr b"
  by (simp add: ParsePubkey_def)

lemma mark_adopted_simps [simp]:
  "ids_store (mark_adopted C st) = ids_store st" "ids_claim (mark_adopted C st) = ids_claim st"
  by (simp_all add: mark_adopted_def split: option.split)

lemma claim_Close_closed: "cw_once w \<longrightarrow> \<not> cw_open w \<Longrightarrow> \<not> cw_open (claim_Close w)"
  by (simp add: claim_Close_def)

text \<open>What the controller relies on: the laws of the keystore and of the identity row,
  and that neither touches the other.\<close>

locale identity_backend =
  auth_key_laws "ak_Add (ic_Keys C)" "ak_Get (ic_Keys C)" "ak_List (ic_Keys C)" "ak_Delete (ic_Keys C)"
    "ak_Count (ic_Keys C)" "ak_DeleteAll (ic_Keys C)" inv keys stamp +
  ident: singleton_store "id_Put (ic_Identity C)" "id_Get (ic_Identity C)" ident norm
  for C :: "('s, 'm) identity_controller" and inv keys stamp ident norm +
  assumes put_frame: "inv s \<Longrightarrow> inv (snd (id_Put (ic_Identity C) i s))"
      "keys (snd (id_Put (ic_Identity C) i s)) = keys s"
    and add_frame: "ident (snd (ak_Add (ic_Keys C) k s)) = ident s"
    and del_frame: "ident (snd (ak_Delete (ic_Keys C) kid s)) = ident s"
    and stamp_by: "AddedByKid (stamp k) = AddedByKid k"
begin

lemma get_key:
  "inv (ids_store st) \<Longrightarrow> in_store (ak_Get (ic_Keys C) kid) st =
     ((case keys (ids_store st) kid of None \<Rightarrow> Inl ErrNotFound | Some k \<Rightarrow> Inr k), st)"
  by (simp add: in_store_def get_eq)

lemma get_identity:
  "in_store (id_Get (ic_Identity C)) st =
     ((case ident (ids_store st) of None \<Rightarrow> Inl ErrNotFound | Some i \<Rightarrow> Inr i), st)"
  by (simp add: in_store_def ident.get_eq)

lemma put_identity:
  assumes "inv (ids_store st)"
  obtains s' where "in_store (id_Put (ic_Identity C) i) st = (Inr (), st\<lparr>ids_store := s'\<rparr>)" "inv s'"
    "keys s' = keys (ids_store st)" "ident s' = Some (norm i)"
  using ident.put_ok [of i "ids_store st"] put_frame(1) [OF assms, of i] put_frame(2) [of i "ids_store st"]
  by (cases "id_Put (ic_Identity C) i (ids_store st)") (simp add: in_store_def)

lemma add_key:
  assumes "inv (ids_store st)"
  obtains r s' where "in_store (ak_Add (ic_Keys C) k) st = (r, st\<lparr>ids_store := s'\<rparr>)" "inv s'"
    "ident s' = ident (ids_store st)"
    "keys s' = (if keys (ids_store st) (Kid k) = None then (keys (ids_store st))(Kid k \<mapsto> stamp k)
                else keys (ids_store st))"
    "r = (if keys (ids_store st) (Kid k) = None then Inr () else Inl ErrConflict)"
proof (cases "keys (ids_store st) (Kid k) = None")
  case True
  then show ?thesis
    using that add_new [OF assms True] add_frame [of k "ids_store st"]
    by (cases "ak_Add (ic_Keys C) k (ids_store st)") (simp add: in_store_def)
next
  case False
  then show ?thesis
    using that [of "Inl ErrConflict" "ids_store st"] add_dup [OF assms False] assms
    by (auto simp: in_store_def)
qed

text \<open>Adoption while the window is closed never changes anything.\<close>

lemma Adopt_closed:
  assumes "inv (ids_store st)" "\<not> cw_open (ids_claim st)"
  shows "snd (Adopt P C now pub name st) = st"
    and "keys (ids_store st) (KidFromPubkey P pub) = None \<Longrightarrow> \<not> is_ok (fst (Adopt P C now pub name st))"
  using assms
  by (auto simp: Adopt_def Let_def adopt_enrolled_def get_key get_identity ParsePubkey_def
      split: option.split)

text \<open>Adoption while the window is open enrols the key and closes the window.\<close>

lemma Adopt_open:
  assumes "inv (ids_store st)" "cw_open (ids_claim st)" "\<not> cw_once (ids_claim st)"
    "ident (ids_store st) = Some i" "length pub = 32"
  shows "is_ok (fst (Adopt P C now pub name st))"
    "\<not> cw_open (ids_claim (snd (Adopt P C now pub name st)))"
    "inv (ids_store (snd (Adopt P C now pub name st)))"
    "\<exists>k. Pubkey k = (if keys (ids_store st) (KidFromPubkey P pub) = None then pub
                     else Pubkey (the (keys (ids_store st) (KidFromPubkey P pub)))) \<and>
       keys (ids_store (snd (Adopt P C now pub name st))) =
         (keys (ids_store st))(KidFromPubkey P pub \<mapsto> k)"
proof -
  let ?kid = "KidFromPubkey P pub"
  let ?nm = "if name = [] then ''operator'' else name"
  let ?k = "\<lparr>Kid = ?kid, Pubkey = pub, KeyName = ?nm, AddedByKid = [], AddedAtUnix = now\<rparr>"
  obtain r s1 where s1: "in_store (ak_Add (ic_Keys C) ?k) st = (r, st\<lparr>ids_store := s1\<rparr>)" "inv s1"
    "keys s1 = (if keys (ids_store st) ?kid = None then (keys (ids_store st))(?kid \<mapsto> stamp ?k)
                else keys (ids_store st))"
    "r = (if keys (ids_store st) ?kid = None then Inr () else Inl ErrConflict)"
    using add_key [OF assms(1), of ?k] by (metis authorized_key.select_convs(1))
  let ?i = "i\<lparr>AdoptedAtUnix := now, AdoptedByKid := ?kid\<rparr>"
  obtain s2 where s2: "in_store (id_Put (ic_Identity C) ?i) (st\<lparr>ids_store := s1\<rparr>) = (Inr (), st\<lparr>ids_store := s2\<rparr>)"
    "inv s2" "keys s2 = keys s1"
    using put_identity [of "st\<lparr>ids_store := s1\<rparr>" ?i] s1(2) by auto
  have A: "Adopt P C now pub name st = (Inr (adopt_reply C ?i ?kid),
      mark_adopted C (st\<lparr>ids_store := s2, ids_claim := claim_Close (ids_claim st)\<rparr>))"
    using assms s1(1,4) s2(1)
    by (simp add: Adopt_def adopt_bootstrap_def KidFromPubkey_length get_identity Let_def)
  show "is_ok (fst (Adopt P C now pub name st))"
    "\<not> cw_open (ids_claim (snd (Adopt P C now pub name st)))"
    "inv (ids_store (snd (Adopt P C now pub name st)))"
    using A s2(2) assms(3) by (simp_all add: claim_Close_def)
  have "keys (ids_store (snd (Adopt P C now pub name st))) = keys s1" using A s2(3) by simp
  then show "\<exists>k. Pubkey k = (if keys (ids_store st) ?kid = None then pub
                     else Pubkey (the (keys (ids_store st) ?kid))) \<and>
       keys (ids_store (snd (Adopt P C now pub name st))) = (keys (ids_store st))(?kid \<mapsto> k)"
    using s1(3) stamp_kid(2) [of ?k]
    by (cases "keys (ids_store st) ?kid")
      (auto simp: map_upd_triv intro: exI [of _ "stamp ?k"])
qed

lemma KeyAdd_effect:
  assumes "inv (ids_store st)" "KeyAdd P C now caller pub name st = (r, st')"
  shows "inv (ids_store st')" "ids_claim st' = ids_claim st"
    "keys (ids_store st') = keys (ids_store st) \<or>
     caller \<noteq> [] \<and> keys (ids_store st) (KidFromPubkey P pub) = None \<and>
     keys (ids_store st') = (keys (ids_store st))(KidFromPubkey P pub \<mapsto>
       stamp \<lparr>Kid = KidFromPubkey P pub, Pubkey = pub, KeyName = name, AddedByKid = caller, AddedAtUnix = now\<rparr>)"
proof -
  let ?k = "\<lparr>Kid = KidFromPubkey P pub, Pubkey = pub, KeyName = name, AddedByKid = caller, AddedAtUnix = now\<rparr>"
  obtain q s' where s': "in_store (ak_Add (ic_Keys C) ?k) st = (q, st\<lparr>ids_store := s'\<rparr>)" "inv s'"
    "keys s' = (if keys (ids_store st) (Kid ?k) = None then (keys (ids_store st))(Kid ?k \<mapsto> stamp ?k)
                else keys (ids_store st))"
    by (rule add_key [OF assms(1)])
  have "st' = st \<or> caller \<noteq> [] \<and> st' = st\<lparr>ids_store := s'\<rparr>"
    using assms(2) s'(1)
    by (cases q) (auto simp: KeyAdd_def ParsePubkey_def Let_def split: if_splits)
  then show "inv (ids_store st')" "ids_claim st' = ids_claim st"
    "keys (ids_store st') = keys (ids_store st) \<or>
     caller \<noteq> [] \<and> keys (ids_store st) (KidFromPubkey P pub) = None \<and>
     keys (ids_store st') = (keys (ids_store st))(KidFromPubkey P pub \<mapsto> stamp ?k)"
    using assms(1) s'(2,3) by (auto split: if_splits)
qed

lemma KeyRemove_effect:
  assumes "inv (ids_store st)" "KeyRemove C caller kid st = (r, st')"
  shows "inv (ids_store st')" "ids_claim st' = ids_claim st"
    "st' = st \<or> card (dom (keys (ids_store st))) > 1 \<and>
       keys (ids_store st') = (keys (ids_store st))(kid := None)"
proof -
  obtain u s' where s': "in_store (ak_Delete (ic_Keys C) kid) st = (Inr u, st\<lparr>ids_store := s'\<rparr>)" "inv s'"
    "keys s' = (keys (ids_store st))(kid := None)"
    using del_ok [OF assms(1), of kid]
    by (cases "ak_Delete (ic_Keys C) kid (ids_store st)") (simp add: in_store_def)
  have count: "in_store (ak_Count (ic_Keys C)) st = (Inr (card (dom (keys (ids_store st)))), st)"
    using count_eq [OF assms(1)] by (simp add: in_store_def)
  have "st' = st \<or> card (dom (keys (ids_store st))) > 1 \<and> st' = st\<lparr>ids_store := s'\<rparr>"
    using assms(2) s'(1) count by (auto simp: KeyRemove_def split: if_splits)
  then show "inv (ids_store st')" "ids_claim st' = ids_claim st"
    "st' = st \<or> card (dom (keys (ids_store st))) > 1 \<and>
       keys (ids_store st') = (keys (ids_store st))(kid := None)"
    using assms(1) s'(2,3) by auto
qed

lemma reads_effect:
  assumes "inv (ids_store st)"
  shows "snd (WhoAmI C kid st) = st" "snd (KeyList C st) = st"
proof -
  show "snd (WhoAmI C kid st) = st"
    using assms by (auto simp: WhoAmI_def get_key get_identity split: option.split)
  show "snd (KeyList C st) = st"
    using list_eq [OF assms] by (auto simp: KeyList_def in_store_def)
qed

text \<open>The effect of \<open>Adopt\<close> in any state: the invariant is kept, no key is lost, and
  a key appears only through an open window.\<close>

lemma Adopt_effect:
  assumes "inv (ids_store st)" "Adopt P C now pub name st = (r, st')"
  shows "inv (ids_store st')" "dom (keys (ids_store st)) \<subseteq> dom (keys (ids_store st'))"
    "cw_open (ids_claim st') \<Longrightarrow> cw_open (ids_claim st)"
    "\<not> cw_open (ids_claim st) \<Longrightarrow> st' = st"
proof -
  let ?kid = "KidFromPubkey P pub"
  let ?nm = "if name = [] then ''operator'' else name"
  let ?k = "\<lparr>Kid = ?kid, Pubkey = pub, KeyName = ?nm, AddedByKid = [], AddedAtUnix = now\<rparr>"
  show closed: "\<not> cw_open (ids_claim st) \<Longrightarrow> st' = st"
    using Adopt_closed(1) [OF assms(1), of P now pub name] assms(2) by simp
  obtain q s1 where s1: "in_store (ak_Add (ic_Keys C) ?k) st = (q, st\<lparr>ids_store := s1\<rparr>)" "inv s1"
    "keys s1 = (if keys (ids_store st) (Kid ?k) = None then (keys (ids_store st))(Kid ?k \<mapsto> stamp ?k)
                else keys (ids_store st))"
    "q = (if keys (ids_store st) (Kid ?k) = None then Inr () else Inl ErrConflict)"
    by (rule add_key [OF assms(1)])
  have dom1: "dom (keys (ids_store st)) \<subseteq> dom (keys s1)" using s1(3) by auto
  have "inv (ids_store st') \<and> dom (keys (ids_store st)) \<subseteq> dom (keys (ids_store st')) \<and>
    (cw_open (ids_claim st') \<longrightarrow> cw_open (ids_claim st))"
  proof (cases "cw_open (ids_claim st) \<and> length pub = 32 \<and> ident (ids_store st) \<noteq> None")
    case True
    then obtain i where i: "ident (ids_store st) = Some i" by blast
    let ?i = "i\<lparr>AdoptedAtUnix := now, AdoptedByKid := ?kid\<rparr>"
    obtain s2 where s2: "in_store (id_Put (ic_Identity C) ?i) (st\<lparr>ids_store := s1\<rparr>) = (Inr (), st\<lparr>ids_store := s2\<rparr>)"
      "inv s2" "keys s2 = keys s1"
      using put_identity [of "st\<lparr>ids_store := s1\<rparr>" ?i] s1(2) by auto
    have "st' = mark_adopted C (st\<lparr>ids_store := s2, ids_claim := claim_Close (ids_claim st)\<rparr>)"
      using assms(2) True i s1(1,4) s2(1)
      by (cases "keys (ids_store st) ?kid = None")
        (simp_all add: Adopt_def adopt_bootstrap_def KidFromPubkey_length get_identity Let_def)
    then show ?thesis using s2 dom1 True by simp
  next
    case False
    then have "st' = st"
      using assms(2) closed
      by (cases "cw_open (ids_claim st)")
        (auto simp: Adopt_def adopt_bootstrap_def ParsePubkey_def get_identity Let_def split: if_splits)
    then show ?thesis using assms(1) by simp
  qed
  then show "inv (ids_store st')" "dom (keys (ids_store st)) \<subseteq> dom (keys (ids_store st'))"
    "cw_open (ids_claim st') \<Longrightarrow> cw_open (ids_claim st)" by blast+
qed

lemma claim_Close_open: "cw_open (claim_Close w) \<Longrightarrow> cw_open w"
  by (simp add: claim_Close_def split: if_splits)

lemma step_effect:
  assumes "id_step P C st st'" "inv (ids_store st)"
  shows "inv (ids_store st')" "dom (keys (ids_store st)) \<noteq> {} \<Longrightarrow> dom (keys (ids_store st')) \<noteq> {}"
    "cw_open (ids_claim st') \<Longrightarrow> cw_open (ids_claim st)"
    "\<not> cw_open (ids_claim st) \<Longrightarrow> keys (ids_store st') kid = Some k \<Longrightarrow>
       keys (ids_store st) kid = Some k \<or> AddedByKid k \<noteq> []"
proof -
  have "inv (ids_store st') \<and> (dom (keys (ids_store st)) \<noteq> {} \<longrightarrow> dom (keys (ids_store st')) \<noteq> {}) \<and>
    (cw_open (ids_claim st') \<longrightarrow> cw_open (ids_claim st)) \<and>
    (\<not> cw_open (ids_claim st) \<longrightarrow> keys (ids_store st') kid = Some k \<longrightarrow>
       keys (ids_store st) kid = Some k \<or> AddedByKid k \<noteq> [])"
    using assms
  proof (induction rule: id_step.induct)
    case (step_Adopt now pub name st r st')
    note e = Adopt_effect [OF step_Adopt(2,1)]
    show ?case
    proof (intro conjI impI)
      assume "dom (keys (ids_store st)) \<noteq> {}"
      then show "dom (keys (ids_store st')) \<noteq> {}" using e(2) by blast
    qed (use e in auto)
  next
    case (step_WhoAmI kid st w st')
    then have "st' = st" using reads_effect(1) by (metis snd_conv)
    then show ?case using step_WhoAmI by simp
  next
    case (step_KeyAdd now caller pub name st m st')
    note e = KeyAdd_effect [OF step_KeyAdd(2,1)]
    have "dom (keys (ids_store st)) \<subseteq> dom (keys (ids_store st'))" using e(3) by auto
    then have "dom (keys (ids_store st)) \<noteq> {} \<longrightarrow> dom (keys (ids_store st')) \<noteq> {}" by blast
    moreover have "keys (ids_store st') kid = Some k \<longrightarrow> keys (ids_store st) kid = Some k \<or> AddedByKid k \<noteq> []"
      using e(3) stamp_by by (auto split: if_splits)
    ultimately show ?case using e(1,2) by simp
  next
    case (step_KeyList st l st')
    then have "st' = st" using reads_effect(2) by (metis snd_conv)
    then show ?case using step_KeyList by simp
  next
    case (step_KeyRemove caller kid' st u st')
    note e = KeyRemove_effect [OF step_KeyRemove(2,1)]
    have "dom (keys (ids_store st)) \<noteq> {} \<longrightarrow> dom (keys (ids_store st')) \<noteq> {}"
      using e(3) card_mono [of "{kid'}" "dom (keys (ids_store st))"] by fastforce
    then show ?case using e by (auto split: if_splits)
  next
    case (step_timer st)
    then show ?case using claim_Close_open by simp
  qed
  then show "inv (ids_store st')" "dom (keys (ids_store st)) \<noteq> {} \<Longrightarrow> dom (keys (ids_store st')) \<noteq> {}"
    "cw_open (ids_claim st') \<Longrightarrow> cw_open (ids_claim st)"
    "\<not> cw_open (ids_claim st) \<Longrightarrow> keys (ids_store st') kid = Some k \<Longrightarrow>
       keys (ids_store st) kid = Some k \<or> AddedByKid k \<noteq> []" by blast+
qed

lemma reach_inv: "id_reach P C st st' \<Longrightarrow> inv (ids_store st) \<Longrightarrow> inv (ids_store st')"
  by (induction rule: id_reach.induct) (auto dest: step_effect(1))

lemma reach_nonempty:
  assumes "id_reach P C st st'" "inv (ids_store st)" "dom (keys (ids_store st)) \<noteq> {}"
  shows "dom (keys (ids_store st')) \<noteq> {}"
  using assms
proof (induction rule: id_reach.induct)
  case (id_more st st' st'')
  then show ?case using step_effect(2) [OF id_more(2)] reach_inv by blast
qed simp

lemma reach_provenance:
  assumes "id_reach P C st st'" "inv (ids_store st)" "\<not> cw_open (ids_claim st)"
  shows "\<not> cw_open (ids_claim st') \<and> (\<forall>kid k. keys (ids_store st') kid = Some k \<longrightarrow>
    keys (ids_store st) kid = Some k \<or> AddedByKid k \<noteq> [])"
  using assms
proof (induction rule: id_reach.induct)
  case (id_more st st' st'')
  have "inv (ids_store st')" using reach_inv [OF id_more(1,4)] .
  then show ?case
    using step_effect(3,4) [OF id_more(2)] id_more by blast
qed simp

end

section \<open>The contract holds of both stores\<close>

interpretation mem_identity: identity_backend
  "\<lparr>ic_Identity = mem_identity_if now, ic_Keys = mem_authKey_if now, ic_TLSFingerprint = fp, ic_MDNS = mdns\<rparr>"
  "\<lambda>s. gomap_ok Kid (mem_authKeys s)" "\<lambda>s. map_of (mem_authKeys s)" "stamp_key now" mem_identity
  "stamp_identity now"
  for now fp mdns
proof (intro identity_backend.intro identity_backend_axioms.intro, goal_cases)
  case 1
  then show ?case using mem_ak.auth_key_laws_axioms by (simp add: mem_authKey_if_def)
next
  case 2
  then show ?case using mem_id.singleton_store_axioms by (simp add: mem_identity_if_def)
qed (auto simp: mem_identity_if_def mem_authKey_if_def mem_identity_Put_def mem_authKey_defs stamp_key_def
       Let_def split: option.split)

definition sqlite_controller ::
  "string \<Rightarrow> int \<Rightarrow> string \<Rightarrow> ('m, unit) action option \<Rightarrow> ('b sqlite_db, 'm) identity_controller" where
  "sqlite_controller dup now fp mdns = \<lparr>ic_Identity = sqlite_identity now, ic_Keys = sqlite_authKeys dup now,
     ic_TLSFingerprint = fp, ic_MDNS = mdns\<rparr>"

lemma sqlite_identity_backend:
  assumes "dup_ok dup"
  shows "identity_backend (sqlite_controller dup now fp mdns) (\<lambda>db. distinct (map fst (sq_keys db)))
    (\<lambda>db. rows_lookup key_of_row (sq_keys db)) (stamp_key now)
    (\<lambda>db. map_option identity_of_row (sq_identity db))
    (\<lambda>i. if CreatedAtUnix i = 0 then i\<lparr>CreatedAtUnix := now\<rparr> else i)"
proof (intro identity_backend.intro identity_backend_axioms.intro, goal_cases)
  case 1
  then show ?case
    using sqlite_auth_key_laws [OF assms] by (simp add: sqlite_controller_def sqlite_authKeys_def)
next
  case 2
  then show ?case
    using sq_id.singleton_store_axioms by (simp add: sqlite_controller_def sqlite_identity_def)
qed (auto simp: sqlite_controller_def sqlite_identity_def sqlite_authKeys_def sqlite_identity_Put_def
       sqlite_key_defs stamp_key_def Let_def split: option.split)

section \<open>Properties of adoption and key management\<close>

definition sq_key :: "('b sqlite_db, 'm) id_state \<Rightarrow> string \<Rightarrow> authorized_key option" where
  "sq_key st = rows_lookup key_of_row (sq_keys (ids_store st))"

text \<open>requests served one after the other never lock every operator out. If at least
  one key is enrolled, at least one is enrolled after any sequence of adoptions,
  key additions, key removals and reads.\<close>

theorem keystore_never_emptied:
  assumes "dup_ok dup" "id_reach P (sqlite_controller dup now fp mdns) st st'"
    "distinct (map fst (sq_keys (ids_store st)))" "sq_keys (ids_store st) \<noteq> []"
  shows "sq_keys (ids_store st') \<noteq> []"
proof -
  have "dom (rows_lookup key_of_row (sq_keys (ids_store st))) \<noteq> {}"
    using assms(4) by (cases "sq_keys (ids_store st)") (auto simp: dom_map_of_conv_image_fst)
  from identity_backend.reach_nonempty [OF sqlite_identity_backend [OF assms(1)] assms(2,3) this]
  show ?thesis by auto
qed

definition example_db :: "unit sqlite_db" where
  "example_db = \<lparr>sq_workloads = [], sq_volumes = [], sq_os_state = None,
     sq_identity = Some \<lparr>ir_capsule_id = ''c1'', ir_short_id = None, ir_created_at_unix = 5,
       ir_adopted_at_unix = None, ir_adopted_by_kid = None\<rparr>,
     sq_keys = [(''k1'', \<lparr>kr_pubkey = replicate 32 1, kr_name = ''ops'', kr_added_by_kid = None,
       kr_added_at_unix = 6\<rparr>)]\<rparr>"

definition example_id :: "(unit sqlite_db, unit) id_state" where
  "example_id = \<lparr>ids_store = example_db,
     ids_claim = \<lparr>cw_open = False, cw_once = False, cw_timer = False\<rparr>, ids_mdns = ()\<rparr>"

definition example_ctl :: "(unit sqlite_db, unit) identity_controller" where
  "example_ctl = sqlite_controller ''UNIQUE'' 10 ''fp'' None"

lemma dup_ok_example: "dup_ok ''UNIQUE''"
  by (simp add: dup_ok_def)

theorem keystore_never_emptied_witness:
  "sq_keys (ids_store (snd (KeyRemove example_ctl ''k1'' ''k1'' example_id))) \<noteq> []"
proof -
  have "id_reach P example_ctl example_id (snd (KeyRemove example_ctl ''k1'' ''k1'' example_id))" for P
    by (rule id_more [OF id_refl step_KeyRemove]) (rule prod.collapse [symmetric])
  from keystore_never_emptied [OF dup_ok_example this [unfolded example_ctl_def]]
  show ?thesis
    by (simp add: example_id_def example_db_def example_ctl_def)
qed

text \<open>once the claim window is closed it stays closed, and from then on a key can only
  be enrolled by an operator who is already authenticated: every key that is
  enrolled later carries the non-empty kid of the caller who added it.\<close>

theorem closed_window_provenance:
  assumes "dup_ok dup" "id_reach P (sqlite_controller dup now fp mdns) st st'"
    "distinct (map fst (sq_keys (ids_store st)))" "\<not> cw_open (ids_claim st)"
  shows "\<not> cw_open (ids_claim st') \<and> (\<forall>kid k. sq_key st' kid = Some k \<longrightarrow>
    sq_key st kid = Some k \<or> AddedByKid k \<noteq> [])"
  using identity_backend.reach_provenance [OF sqlite_identity_backend [OF assms(1)] assms(2-4)]
  by (simp add: sq_key_def)

theorem closed_window_provenance_witness:
  "\<not> cw_open (ids_claim (snd (Adopt example_prims example_ctl 20 (replicate 32 9) ''x'' example_id)))"
proof -
  have "id_reach example_prims example_ctl example_id (snd (Adopt example_prims example_ctl 20 (replicate 32 9) ''x'' example_id))"
    by (rule id_more [OF id_refl step_Adopt]) (rule prod.collapse [symmetric])
  from closed_window_provenance [OF dup_ok_example this [unfolded example_ctl_def]]
  show ?thesis by (simp add: example_id_def example_db_def example_ctl_def)
qed

text \<open>C7: adoption through an open window enrols the caller's key, closes the window, and
  makes every later adoption attempt with a key that is not enrolled fail
  without changing anything.\<close>

theorem Adopt_claims_once:
  assumes dup: "dup_ok dup" and C: "C = sqlite_controller dup now fp mdns"
    and inv: "distinct (map fst (sq_keys (ids_store st)))"
    and open_window: "cw_open (ids_claim st)" "\<not> cw_once (ids_claim st)"
    and ident: "sq_identity (ids_store st) \<noteq> None"
    and pub: "length pub = 32" "sq_key st (KidFromPubkey P pub) = None"
    and after: "Adopt P C t pub name st = (r, st')"
    and other: "KidFromPubkey P pub' \<noteq> KidFromPubkey P pub" "sq_key st (KidFromPubkey P pub') = None"
  shows "is_ok r \<and> (\<exists>k. sq_key st' (KidFromPubkey P pub) = Some k \<and> Pubkey k = pub) \<and>
    \<not> cw_open (ids_claim st') \<and>
    \<not> is_ok (fst (Adopt P C t' pub' name' st')) \<and> snd (Adopt P C t' pub' name' st') = st'"
proof -
  note B = sqlite_identity_backend [OF dup, of now fp mdns]
  note after' = after [unfolded C]
  obtain i where i: "map_option identity_of_row (sq_identity (ids_store st)) = Some i"
    using ident by auto
  note a = identity_backend.Adopt_open [OF B inv open_window i pub(1), where P = P and now = t and name = name, unfolded after' fst_conv snd_conv]
  obtain k where k: "Pubkey k = pub" "sq_key st' = (sq_key st)(KidFromPubkey P pub \<mapsto> k)"
    using a(4) pub(2) unfolding sq_key_def by auto
  have none: "rows_lookup key_of_row (sq_keys (ids_store st')) (KidFromPubkey P pub') = None"
    using k(2) other by (simp add: sq_key_def)
  note c = identity_backend.Adopt_closed [OF B a(3,2), where P = P and now = t' and pub = pub' and name = name']
  show ?thesis
    unfolding C using a(1,2) k c(1) c(2) [OF none] by simp
qed

definition example_fresh :: "(unit sqlite_db, unit) id_state" where
  "example_fresh = example_id\<lparr>ids_store := example_db\<lparr>sq_keys := []\<rparr>, ids_claim := NewClaimWindow 0 600\<rparr>"

definition sum_prims :: prims where
  "sum_prims = example_prims\<lparr>p_sha256 := (\<lambda>b. take 1 b)\<rparr>"

lemma example_kids:
  "KidFromPubkey sum_prims (replicate 32 8) \<noteq> KidFromPubkey sum_prims (replicate 32 9)"
proof -
  have kid: "b64_decode (KidFromPubkey sum_prims (replicate 32 b)) = Some [b]" for b
    by (simp add: KidFromPubkey_def sum_prims_def take_replicate min_def del: b64_encode.simps)
  have "Some [8 :: 8 word] \<noteq> Some [9]" by simp
  then show ?thesis unfolding kid [symmetric] by (rule contrapos_nn) (simp only:)
qed

theorem Adopt_claims_once_witness:
  "\<not> is_ok (fst (Adopt sum_prims example_ctl 31 (replicate 32 8) ''late''
     (snd (Adopt sum_prims example_ctl 30 (replicate 32 9) ''first'' example_fresh))))"
  using Adopt_claims_once [OF dup_ok_example example_ctl_def _ _ _ _ _ _ prod.collapse [symmetric] example_kids,
      where st = example_fresh and t = 30 and name = "''first''" and t' = 31 and name' = "''late''"]
  by (simp add: example_fresh_def example_id_def example_db_def NewClaimWindow_def sq_key_def rows_lookup_def)

text \<open>C33: the check of the window and its closing are separate steps. Two callers that both
  saw the window open both get their key enrolled.\<close>

theorem concurrent_adopts_both_enrol:
  assumes dup: "dup_ok dup" and C: "C = sqlite_controller dup now fp mdns"
    and inv: "distinct (map fst (sq_keys (ids_store st)))"
    and ident: "sq_identity (ids_store st) \<noteq> None"
    and new: "sq_key st a = None" "sq_key st b = None" "a \<noteq> b"
    and st1_def: "st1 = snd (adopt_bootstrap C t pubA a nameA st)"
    and st2_def: "st2 = snd (adopt_bootstrap C t pubB b nameB st1)"
  shows "is_ok (fst (adopt_bootstrap C t pubA a nameA st)) \<and>
    is_ok (fst (adopt_bootstrap C t pubB b nameB st1)) \<and> sq_key st2 a \<noteq> None \<and> sq_key st2 b \<noteq> None"
proof -
  obtain i where i: "sq_identity (ids_store st) = Some i" using ident by auto
  have none: "map_of (sq_keys (ids_store st)) a = None" "map_of (sq_keys (ids_store st)) b = None"
    using new by (simp_all add: sq_key_def rows_lookup_def)
  note defs = C adopt_bootstrap_def sqlite_controller_def sqlite_identity_def sqlite_authKeys_def in_store_def
    sqlite_identity_Get_def sqlite_identity_Put_def sqlite_authKey_Add_def Let_def
  have 1: "is_ok (fst (adopt_bootstrap C t pubA a nameA st))"
    "sq_identity (ids_store st1) \<noteq> None" "map_of (sq_keys (ids_store st1)) b = None"
    "map_of (sq_keys (ids_store st1)) a \<noteq> None"
    using i none new(3) unfolding st1_def by (simp_all add: defs update_conv')
  then obtain j where j: "sq_identity (ids_store st1) = Some j" by auto
  have "is_ok (fst (adopt_bootstrap C t pubB b nameB st1))"
    "map_of (sq_keys (ids_store st2)) b \<noteq> None" "map_of (sq_keys (ids_store st2)) a \<noteq> None"
    using j 1(3,4) new(3) unfolding st2_def by (simp_all add: defs update_conv')
  then show ?thesis using 1(1) by (auto simp: sq_key_def rows_lookup_def)
qed

theorem concurrent_adopts_both_enrol_witness:
  "sq_key (snd (adopt_bootstrap example_ctl 30 (replicate 32 8) ''k2'' ''late''
     (snd (adopt_bootstrap example_ctl 30 (replicate 32 9) ''k1'' ''first'' example_fresh)))) ''k1'' \<noteq> None"
  using concurrent_adopts_both_enrol [OF dup_ok_example example_ctl_def _ _ _ _ _ refl refl,
      where st = example_fresh and a = "''k1''" and b = "''k2''"]
  by (simp add: example_fresh_def example_id_def example_db_def sq_key_def rows_lookup_def)

section \<open>Properties of startup\<close>

text \<open>an installed capsule only offers adoption on a readable, empty keystore. Running
  as PID 1 on an A/B install outside installer mode, the claim window opens
  exactly when the database opened and the key count is zero or could not be
  read; with \<open>/perm\<close> unmounted or a database that does not open it stays closed.\<close>

theorem claim_window_opens_iff:
  assumes "bf_isPID1 b" "bf_ActiveSlot b \<noteq> []" "\<not> bf_InstallerMode b"
  shows "cw_open (startup_claim (snd (select_store b opens)) counted duration) \<longleftrightarrow>
    bf_MountedPerm b \<and> opens \<and> fst (select_store b opens) = SqliteStore \<and> (\<forall>n. counted = Inr n \<longrightarrow> n = 0)"
  using assms by (auto simp: select_store_def startup_claim_def NewClaimWindow_def split: sum.splits)

theorem claim_window_opens_iff_witness:
  "\<not> cw_open (startup_claim (snd (select_store
     \<lparr>bf_isPID1 = True, bf_ActiveSlot = ''slot_a'', bf_MountedPerm = False, bf_InstallerMode = False\<rparr> True))
     (Inr 0) 600)"
  using claim_window_opens_iff [of "\<lparr>bf_isPID1 = True, bf_ActiveSlot = ''slot_a'',
      bf_MountedPerm = False, bf_InstallerMode = False\<rparr>" True "Inr 0" 600] by simp

text \<open>RESET_AUTH makes the capsule adoptable again and keeps its identity. On the sqlite
  store it removes every key and clears the adoption record while the capsule's
  identifier, short identifier and creation time stay; the next startup opens
  the claim window, and no token verifies against the empty keystore.\<close>

theorem reset_auth_reopens:
  fixes now :: int and dup :: string
  assumes "sq_identity db = Some row" "ir_created_at_unix row \<noteq> 0"
  defines "db' \<equiv> snd (wipeAuthOnDisk (sqlite_identity now) (sqlite_authKeys dup now) db)"
  shows "fst (wipeAuthOnDisk (sqlite_identity now) (sqlite_authKeys dup now) db) = Inr () \<and>
    fst (id_Get (sqlite_identity now) db') =
      Inr ((identity_of_row row)\<lparr>AdoptedAtUnix := 0, AdoptedByKid := []\<rparr>) \<and>
    cw_open (startup_claim False (fst (ak_Count (sqlite_authKeys dup now) db')) duration) \<and>
    (\<forall>P t tok aud. \<not> is_ok (Verify P t tok aud (key_lookup (sqlite_authKeys dup now) db')))"
proof -
  note defs = wipeAuthOnDisk_def sqlite_identity_def sqlite_authKeys_def sqlite_authKey_DeleteAll_def
    sqlite_identity_Get_def sqlite_identity_Put_def Let_def
  have w: "wipeAuthOnDisk (sqlite_identity now) (sqlite_authKeys dup now) db = (Inr (), db')"
    "sq_keys db' = []" "sq_identity db' = Some (row\<lparr>ir_short_id := null_str (str_of_null (ir_short_id row)),
       ir_adopted_at_unix := None, ir_adopted_by_kid := None\<rparr>)"
    using assms(1,2) unfolding db'_def
    by (simp_all add: defs identity_of_row_def null_int_def null_str_def)
  have "key_lookup (sqlite_authKeys dup now) db' kid = None" for kid
    using w(2) by (simp add: key_lookup_def sqlite_authKeys_def sqlite_authKey_Get_def)
  then have "\<not> is_ok (Verify P t tok aud (key_lookup (sqlite_authKeys dup now) db'))" for P t tok aud
    using Verify_enrolled by (fastforce simp: is_ok_iff)
  then show ?thesis
    using w by (simp add: sqlite_identity_def sqlite_identity_Get_def sqlite_authKeys_def identity_of_row_def
        sqlite_authKey_Count_def startup_claim_def NewClaimWindow_def)
qed

theorem reset_auth_reopens_witness:
  "cw_open (startup_claim False (fst (ak_Count (sqlite_authKeys ''UNIQUE'' 9)
     (snd (wipeAuthOnDisk (sqlite_identity 9) (sqlite_authKeys ''UNIQUE'' 9) example_db)))) 600)"
proof -
  have "sq_identity example_db = Some \<lparr>ir_capsule_id = ''c1'', ir_short_id = None, ir_created_at_unix = 5,
       ir_adopted_at_unix = None, ir_adopted_by_kid = None\<rparr>" by (simp add: example_db_def)
  from reset_auth_reopens [OF this] show ?thesis by simp
qed

definition row_of_identity :: "int \<Rightarrow> capsule_identity \<Rightarrow> identity_row" where
  "row_of_identity now i = \<lparr>ir_capsule_id = CapsuleID i, ir_short_id = null_str (ShortID i),
     ir_created_at_unix = (if CreatedAtUnix i = 0 then now else CreatedAtUnix i),
     ir_adopted_at_unix = null_int (AdoptedAtUnix i), ir_adopted_by_kid = null_str (AdoptedByKid i)\<rparr>"

lemma identity_row_roundtrip: "CreatedAtUnix i \<noteq> 0 \<Longrightarrow> identity_of_row (row_of_identity now i) = i"
  by (simp add: identity_of_row_def row_of_identity_def)

lemma sq_identity_ops:
  "id_Get (sqlite_identity now) db =
     ((case sq_identity db of None \<Rightarrow> Inl ErrNotFound | Some r \<Rightarrow> Inr (identity_of_row r)), db)"
  "id_Put (sqlite_identity now) i db = (Inr (), db\<lparr>sq_identity := Some (row_of_identity now i)\<rparr>)"
  by (simp_all add: sqlite_identity_def sqlite_identity_Get_def sqlite_identity_Put_def row_of_identity_def
      split: option.split)

lemma CapsuleID_of_row: "CapsuleID (identity_of_row r) = ir_capsule_id r"
  by (simp add: identity_of_row_def)

lemma ensureIdentity_first:
  assumes "ensureIdentity parse u now (sqlite_identity now) db = (Inr i, db1)" "CreatedAtUnix i \<noteq> 0"
  shows "map_option identity_of_row (sq_identity db1) = Some i"
    "ShortID i = [] \<Longrightarrow> deriveShortID parse (CapsuleID i) = []"
    "CapsuleID i = (case sq_identity db of None \<Rightarrow> u | Some row \<Rightarrow> ir_capsule_id row)"
  using assms identity_row_roundtrip [OF assms(2)]
  by (auto simp: ensureIdentity_def sq_identity_ops CapsuleID_of_row Let_def
      split: option.splits if_splits)

text \<open>the capsule's identity is stable. On the sqlite store the identity row is created
  on the first start with a fresh identifier and never replaced: every later
  start, whatever identifier it would generate, returns the same record.\<close>

theorem ensureIdentity_stable:
  assumes "ensureIdentity parse u now (sqlite_identity now) db = (Inr i, db1)" "CreatedAtUnix i \<noteq> 0"
  shows "fst (ensureIdentity parse u' now' (sqlite_identity now') db1) = Inr i \<and>
    CapsuleID i = (case sq_identity db of None \<Rightarrow> u | Some row \<Rightarrow> ir_capsule_id row)"
proof -
  note f = ensureIdentity_first [OF assms]
  obtain row where row: "sq_identity db1 = Some row" "identity_of_row row = i" using f(1) by auto
  have "fst (ensureIdentity parse u' now' (sqlite_identity now') db1) = Inr i"
    using row f(2) by (auto simp: ensureIdentity_def sq_identity_ops Let_def)
  then show ?thesis using f(3) by simp
qed

theorem ensureIdentity_stable_witness:
  "fst (ensureIdentity (\<lambda>_. Some [1, 2]) ''other'' 9 (sqlite_identity 9)
     (snd (ensureIdentity (\<lambda>_. Some [1, 2]) ''u1'' 8 (sqlite_identity 8) (example_db\<lparr>sq_identity := None\<rparr>)))) =
   Inr \<lparr>CapsuleID = ''u1'', ShortID = deriveShortID (\<lambda>_. Some [1, 2]) ''u1'', CreatedAtUnix = 8,
     AdoptedAtUnix = 0, AdoptedByKid = []\<rparr>"
proof -
  let ?i = "\<lparr>CapsuleID = ''u1'', ShortID = deriveShortID (\<lambda>_. Some [1, 2]) ''u1'', CreatedAtUnix = 8,
     AdoptedAtUnix = 0, AdoptedByKid = []\<rparr>"
  let ?e = "ensureIdentity (\<lambda>_. Some [1, 2]) ''u1'' 8 (sqlite_identity 8) (example_db\<lparr>sq_identity := None\<rparr>)"
  have "?e = (Inr ?i, snd ?e)"
    by (simp add: ensureIdentity_def sq_identity_ops Let_def)
  from ensureIdentity_stable [OF this] show ?thesis by simp
qed

end
