(* ===== verification/Capsule_Install.thy ===== *)
theory Capsule_Install
  imports Capsule_Boot Capsule_Identity
begin

text \<open>
  Installation and first boot: \<^verbatim>\<open>src/core/install/installer.go\<close>, the ingestion of the sealed bundle in
  \<^verbatim>\<open>src/core/install/firstboot.go\<close> and the request handlers of \<^verbatim>\<open>src/controllers/install.go\<close>.
  The installer acts on the host and reports progress; the first boot acts on the store and the
  host. Certificate generation, PEM decoding, the identifier generator and JSON are parameters.
\<close>

section \<open>Standard base64\<close>

text \<open>\<open>base64.StdEncoding\<close>: the alphabet with plus and slash, padded.\<close>

definition std_char :: "char \<Rightarrow> char" where
  "std_char c = (if c = CHR ''-'' then CHR ''+'' else if c = CHR ''_'' then CHR ''/'' else c)"

definition url_char :: "char \<Rightarrow> char" where
  "url_char c = (if c = CHR ''+'' then CHR ''-'' else if c = CHR ''/'' then CHR ''_'' else c)"

definition std_encode :: "bytes \<Rightarrow> string" where
  "std_encode bs = map std_char (b64_encode bs) @ replicate ((3 - length bs mod 3) mod 3) CHR ''=''"

definition std_decode :: "string \<Rightarrow> bytes option" where
  "std_decode s =
    (let t = filter (\<lambda>c. of_char c \<noteq> (10 :: nat) \<and> of_char c \<noteq> (13 :: nat)) s;
         body = takeWhile (\<lambda>c. c \<noteq> CHR ''='') t;
         pad = drop (length body) t
     in if pad \<notin> {[], ''='', ''==''} \<or> length t mod 4 \<noteq> 0 \<or> CHR ''-'' \<in> set body \<or> CHR ''_'' \<in> set body then None
        else b64_decode (map url_char body))"

lemma b64_chars:
  "i < 64 \<Longrightarrow> b64_char i \<notin> {CHR ''='', CHR ''+'', CHR ''/''}"
proof -
  assume "i < 64"
  then have "(of_char (b64_char i) :: nat) \<notin> {61, 43, 47}" by (auto simp: b64_char_code)
  then show ?thesis by auto
qed

lemma b64_encode_chars: "c \<in> set (b64_encode bs) \<Longrightarrow> c \<notin> {CHR ''='', CHR ''+'', CHR ''/''}"
  unfolding b64_encode_indices using b64_indices_range b64_chars by force

lemma url_std_char: "c \<notin> {CHR ''+'', CHR ''/''} \<Longrightarrow> url_char (std_char c) = c"
  by (simp add: url_char_def std_char_def)

lemma length_b64: "(length (b64_encode bs) + (3 - length bs mod 3) mod 3) mod 4 = 0"
proof (induction bs rule: b64_encode.induct)
  case (4 a b c rest)
  have "length (a # b # c # rest) mod 3 = length rest mod 3" by simp
  moreover have "length (b64_encode (a # b # c # rest)) = 4 + length (b64_encode rest)" by (simp add: Let_def)
  ultimately show ?case using 4 by (simp only: add.assoc mod_add_self1)
qed (simp_all add: Let_def)

lemma takeWhile_pad: "\<forall>c\<in>set xs. P c \<Longrightarrow> \<not> P p \<Longrightarrow> takeWhile P (xs @ replicate n p) = xs"
  by (cases n) (simp_all add: takeWhile_append2)

lemma std_decode_encode [simp, roundtrip]: "std_decode (std_encode bs) = Some bs"
proof -
  let ?b = "map std_char (b64_encode bs)" and ?n = "(3 - length bs mod 3) mod 3"
  have c: "std_char c \<notin> {CHR ''='', CHR ''-'', CHR ''_''}" "url_char (std_char c) = c"
    if "c \<in> set (b64_encode bs)" for c
    using b64_encode_chars [OF that] by (auto simp: std_char_def url_char_def)
  have "(of_char (b64_char i) :: nat) \<noteq> 10 \<and> (of_char (b64_char i) :: nat) \<noteq> 13" if "i < 64" for i
    using b64_char_simps [OF that] by simp
  then have nl: "of_char (std_char c) \<noteq> (10 :: nat)" "of_char (std_char c) \<noteq> (13 :: nat)" if "c \<in> set (b64_encode bs)" for c
    using that b64_indices_range [of bs] unfolding b64_encode_indices by (auto simp: std_char_def)
  have f: "filter (\<lambda>c. of_char c \<noteq> (10 :: nat) \<and> of_char c \<noteq> (13 :: nat)) (std_encode bs) = std_encode bs"
    using nl by (auto simp: std_encode_def filter_id_conv)
  have tw: "takeWhile (\<lambda>c. c \<noteq> CHR ''='') (std_encode bs) = ?b"
    unfolding std_encode_def using c(1) by (intro takeWhile_pad) (simp_all add: image_iff)
  have pad: "replicate ?n CHR ''='' \<in> {[], ''='', ''==''}"
  proof -
    have "?n < 3" by simp
    then consider "?n = 0" | "?n = 1" | "?n = 2" by linarith
    then show ?thesis by cases (simp_all only: replicate.simps One_nat_def numeral_2_eq_2, simp_all)
  qed
  have body: "CHR ''-'' \<notin> set ?b" "CHR ''_'' \<notin> set ?b"
    unfolding set_map using c(1) by (metis imageE insertCI)+
  have u: "map url_char ?b = b64_encode bs"
    unfolding map_map by (rule map_idI) (simp add: c(2))
  have len: "length (std_encode bs) mod 4 = 0" using length_b64 by (simp add: std_encode_def)
  have d: "drop (length ?b) (std_encode bs) = replicate ?n CHR ''=''" by (simp add: std_encode_def)
  show ?thesis
    unfolding std_decode_def Let_def f tw u d using pad len body by (simp only: simp_thms if_False b64_decode_encode)
qed

section \<open>Data of an installation\<close>

record first_boot_bundle =
  fb_CapsuleID :: string
  fb_ShortID :: string
  fb_TLSCertPEM :: string
  fb_TLSKeyPEM :: string
  fb_OperatorPubkey :: string
  fb_OperatorName :: string

record install_request =
  rq_TargetDisk :: string
  rq_OperatorPubkey :: bytes
  rq_OperatorName :: string
  rq_Seal :: bool

record install_result =
  ir_CapsuleID :: string
  ir_ShortID :: string
  ir_TLSFingerprint :: string
  ir_Kid :: string

record installer =
  in_USBBootDisk :: string
  in_Targets :: "target_disk list"

text \<open>The libraries: a fresh identifier, parsing one, a self-signed certificate with its key, the
  certificate block of a PEM text, and the JSON form of a bundle.\<close>

record install_libs =
  il_prims :: prims
  il_new_uuid :: string
  il_parse_uuid :: "string \<Rightarrow> bytes option"
  il_gen_cert :: "string \<Rightarrow> (string \<times> string) result"
  il_pem_cert :: "string \<Rightarrow> bytes option"
  il_marshal :: "first_boot_bundle \<Rightarrow> string"
  il_unmarshal :: "string \<Rightarrow> first_boot_bundle option"

section \<open>First boot\<close>

text \<open>The first boot acts on the store and on the host.\<close>

definition on_store :: "('s, 'a) action \<Rightarrow> ('s \<times> 'w, 'a) action" where
  "on_store m st = (case st of (s, w) \<Rightarrow> (case m s of (r, s1) \<Rightarrow> (r, (s1, w))))"

definition applyIdentity :: "'s identity_store \<Rightarrow> int \<Rightarrow> first_boot_bundle \<Rightarrow> ('s, unit) action" where
  "applyIdentity ids now b s =
    (case id_Get ids s of (r, s1) \<Rightarrow>
      (let loaded = (case r of
             Inr i \<Rightarrow> Inr i
           | Inl e \<Rightarrow> if errors_is e ErrNotFound
               then Inr \<lparr>CapsuleID = [], ShortID = [], CreatedAtUnix = 0, AdoptedAtUnix = 0, AdoptedByKid = []\<rparr>
               else Inl (Wrap ''load identity'' e))
       in case loaded of
            Inl e \<Rightarrow> (Inl e, s1)
          | Inr i \<Rightarrow>
              id_Put ids ((if CreatedAtUnix i = 0 then i\<lparr>CreatedAtUnix := now\<rparr> else i)
                \<lparr>CapsuleID := fb_CapsuleID b, ShortID := fb_ShortID b\<rparr>) s1))"

definition applyAuthorizedKey ::
  "prims \<Rightarrow> 's auth_key_store \<Rightarrow> int \<Rightarrow> first_boot_bundle \<Rightarrow> ('s, unit) action" where
  "applyAuthorizedKey P keys now b s =
    (if fb_OperatorPubkey b = [] then (Inl (Errorf ''firstboot bundle missing operator_pubkey''), s)
     else (case std_decode (fb_OperatorPubkey b) of
        None \<Rightarrow> (Inl (Errorf ''decode operator_pubkey''), s)
      | Some pub \<Rightarrow>
         (case ParsePubkey pub of
            Inl e \<Rightarrow> (Inl (Wrap ''invalid operator_pubkey'' e), s)
          | Inr _ \<Rightarrow>
             (let name = (if fb_OperatorName b = [] then ''operator'' else fb_OperatorName b) in
              case ak_Add keys \<lparr>Kid = KidFromPubkey P pub, Pubkey = pub, KeyName = name, AddedByKid = [],
                     AddedAtUnix = now\<rparr> s of
                (Inl e, s1) \<Rightarrow> if errors_is e ErrConflict then (Inr (), s1) else (Inl (Wrap ''enroll key'' e), s1)
              | (Inr _, s1) \<Rightarrow> (Inr (), s1)))))"

definition writeTLSMaterial :: "'w host_ops \<Rightarrow> string \<Rightarrow> first_boot_bundle \<Rightarrow> ('w, unit) action" where
  "writeTLSMaterial H permDir b w =
    (if fb_TLSCertPEM b = [] \<or> fb_TLSKeyPEM b = [] then (Inl (Errorf ''firstboot bundle missing TLS material''), w)
     else bind_action (wrap_action ''mkdir tls'' (ho_mkdir H (permDir @ ''/tls''))) (\<lambda>_ w1.
       (let certPath = permDir @ ''/tls/server.crt''; keyPath = permDir @ ''/tls/server.key'' in
        if ho_stat H certPath w1 = None \<and> ho_stat H keyPath w1 = None then (Inr (), w1)
        else bind_action (wrap_action ''write'' (ho_write H certPath (fb_TLSCertPEM b))) (\<lambda>_.
             wrap_action ''write'' (ho_write H keyPath (fb_TLSKeyPEM b))) w1)) w)"

definition IngestFirstBoot ::
  "'w host_ops \<Rightarrow> install_libs \<Rightarrow> 's identity_store \<Rightarrow> 's auth_key_store \<Rightarrow> int \<Rightarrow> string \<Rightarrow> ('s \<times> 'w, unit) action" where
  "IngestFirstBoot H Q ids keys now permDir st =
    (let path = permDir @ ''/firstboot.json'' in
     case ho_read H path (snd st) of
       Inl e \<Rightarrow> if errors_is e os_ErrNotExist then (Inr (), st) else (Inl (Wrap ''read'' e), st)
     | Inr data \<Rightarrow>
        (case il_unmarshal Q data of
           None \<Rightarrow> (Inr (), (fst st, snd (ho_rename H path (path @ ''.broken'') (snd st))))
         | Some b \<Rightarrow>
            bind_action (on_store (applyIdentity ids now b)) (\<lambda>_.
            bind_action (on_store (applyAuthorizedKey (il_prims Q) keys now b)) (\<lambda>_.
            bind_action (on_host (writeTLSMaterial H permDir b)) (\<lambda>_ st1.
              (Inr (), (fst st1, snd (ho_remove H path (snd st1))))))) st))"

section \<open>The installer\<close>

type_synonym progress = "string \<times> nat \<times> string"

text \<open>The state of a run: the host and the progress reports sent so far.\<close>

type_synonym 'w run_state = "progress list \<times> 'w"

definition report :: "string \<Rightarrow> nat \<Rightarrow> string \<Rightarrow> ('w run_state, unit) action" where
  "report phase percent message st = (Inr (), (fst st @ [(phase, percent, message)], snd st))"

definition resolveTarget :: "installer \<Rightarrow> string \<Rightarrow> target_disk result" where
  "resolveTarget i req =
    (if in_Targets i = [] then Inl (Errorf ''no candidate target disks'')
     else if req = [] then Inr (hd (in_Targets i))
     else (case List.find (\<lambda>t. td_Path t = req) (in_Targets i) of
        Some t \<Rightarrow> Inr t
      | None \<Rightarrow> Inl (Errorf ''target not a viable candidate'')))"

definition partitionPath :: "string \<Rightarrow> nat \<Rightarrow> string" where
  "partitionPath disk n =
    (if disk = [] then []
     else if digit_val (last disk) \<noteq> None then disk @ ''p'' @ itoa n
     else disk @ itoa n)"

definition rereadPartitions :: "'w host_ops \<Rightarrow> string \<Rightarrow> ('w, unit) action" where
  "rereadPartitions H disk = runLVM H ''/sbin/blockdev'' [''--rereadpt'', disk]"

definition waitForPath :: "'w host_ops \<Rightarrow> string \<Rightarrow> ('w, unit) action" where
  "waitForPath H path w = (if ho_appears H path w then Inr () else Inl (Errorf ''not present''), w)"

text \<open>The percentage of a byte count, in \<open>uint64\<close> and then \<open>uint32\<close>.\<close>

definition copyProgress :: "string \<Rightarrow> nat \<times> nat \<Rightarrow> progress" where
  "copyProgress phase dt = (case dt of (done_bytes, total_bytes) \<Rightarrow>
    if total_bytes = 0 then (phase, 0, [])
    else let pct = unat (ucast ((word_of_nat done_bytes * 100 :: 64 word) div word_of_nat total_bytes) :: 32 word)
         in (phase, (if pct > 100 then 100 else pct),
             itoa (done_bytes div (1024 * 1024)) @ '' / '' @ itoa (total_bytes div (1024 * 1024)) @ '' MiB''))"

definition write_mbr :: "'w host_ops \<Rightarrow> string \<Rightarrow> layout \<Rightarrow> ('w run_state, unit) action" where
  "write_mbr H path l st =
    (case sy_dev (ho_sys H (snd st)) path of
       Inl e \<Rightarrow> (Inl (Wrap ''open'' e), st)
     | Inr d \<Rightarrow>
        (case WriteMBR (ho_io H path (snd st)) l d of (r, d') \<Rightarrow> (r, (fst st, ho_set H path d' (snd st)))))"

definition copy_partition ::
  "'w host_ops \<Rightarrow> string \<Rightarrow> string \<Rightarrow> 32 word \<Rightarrow> string \<Rightarrow> ('w run_state, unit) action" where
  "copy_partition H srcDev dstDev cnt phase st =
    (case sy_dev (ho_sys H (snd st)) srcDev of
       Inl e \<Rightarrow> (Inl (Wrap ''open src'' e), st)
     | Inr src \<Rightarrow>
        (case sy_dev (ho_sys H (snd st)) dstDev of
           Inl e \<Rightarrow> (Inl (Wrap ''open dst'' e), st)
         | Inr dst \<Rightarrow>
            (case CopyPartition (ho_io H srcDev (snd st)) src 0 (ho_io H dstDev (snd st)) 0 cnt dst of
               (r, dst', prog) \<Rightarrow>
                 (r, (fst st @ map (copyProgress phase) prog, ho_set H dstDev dst' (snd st))))))"

text \<open>Running a command for its error, and one whose outcome is ignored.\<close>

definition writeLVMLocalConf :: "'w host_ops \<Rightarrow> ('w, unit) action" where
  "writeLVMLocalConf H = ho_write H ''/etc/lvm/lvmlocal.conf''
     (''activation {'' @ newline @ [CHR 0x09] @ ''udev_sync = 0'' @ newline @ [CHR 0x09] @ ''udev_rules = 0'' @ newline @ ''}'' @ newline)"

definition initTargetLVM :: "'w host_ops \<Rightarrow> string \<Rightarrow> ('w, unit) action" where
  "initTargetLVM H permDev =
    bind_action (wrap_action ''lvm local conf'' (writeLVMLocalConf H)) (\<lambda>_.
    bind_action (run_ignored H ''/sbin/vgchange'' [''-an'', ''capsule-target'']) (\<lambda>_.
    bind_action (run_ignored H ''/sbin/vgchange'' [''-an'', ''capsule'']) (\<lambda>_.
    bind_action (run_ignored H ''/sbin/vgremove'' [''-f'', ''-y'', ''capsule-target'']) (\<lambda>_.
    bind_action (run_ignored H ''/sbin/vgremove'' [''-f'', ''-y'', ''capsule'']) (\<lambda>_.
    bind_action (run_ignored H ''/sbin/pvremove'' [''-ff'', ''-y'', permDev]) (\<lambda>_.
    bind_action (runLVM H ''/bin/dd'' [''if=/dev/zero'', ''of='' @ permDev, ''bs=1M'', ''count=16'', ''conv=fsync'']) (\<lambda>_.
    bind_action (runLVM H ''/sbin/pvcreate'' [''-ff'', ''-y'', permDev]) (\<lambda>_.
    bind_action (runLVM H ''/sbin/vgcreate'' [''capsule'', permDev]) (\<lambda>_.
    bind_action (runLVM H ''/sbin/lvcreate'' [''-L'', ''1024M'', ''-n'', ''meta'', ''capsule'']) (\<lambda>_.
    runLVM H ''/sbin/mkfs.ext4'' [''-q'', ''-F'', ''-L'', ''PERM'', ''/dev/mapper/capsule-meta'']))))))))))"

text \<open>The \<open>defer\<close>red unmount runs on every way out after the mount.\<close>

definition umount :: "'w host_ops \<Rightarrow> string \<Rightarrow> 'w \<Rightarrow> 'w" where
  "umount H mnt w = snd (mo_exec H ''/bin/umount'' [mnt] w)"

definition runtime_menuentry :: "string \<Rightarrow> string \<Rightarrow> string" where
  "runtime_menuentry letter num =
    ''menuentry '' @ [CHR 0x22] @ ''Capsule (slot_'' @ letter @ '')'' @ [CHR 0x22] @ '' {'' @ newline @
    ''    linux /vmlinuz_'' @ letter @ '' root=PARTUUID=b1a570ff-'' @ num @
    '' rootfstype=squashfs ro random.trust_cpu=on capsule.slot='' @ letter @
    '' console=tty0 console=ttyS0,115200n8 panic=10'' @ newline @
    ''    initrd /initramfs_'' @ letter @ newline @ ''}'' @ newline"

definition runtime_grubCfg :: string where
  "runtime_grubCfg = ''set timeout=2'' @ newline @ ''set default=0'' @ newline @ newline @
     runtime_menuentry ''a'' ''02'' @ newline @ runtime_menuentry ''b'' ''03''"

definition patchBootGrubCfg :: "'w host_ops \<Rightarrow> string \<Rightarrow> ('w, unit) action" where
  "patchBootGrubCfg H tgtBoot =
    (let mnt = ''/mnt/boot-target'' in
     bind_action (wrap_action ''mkdir'' (ho_mkdir H mnt)) (\<lambda>_.
     bind_action (runLVM H ''/bin/mount'' [''-t'', ''vfat'', tgtBoot, mnt]) (\<lambda>_.
     and_finally
       (bind_action (runLVM H ''/bin/cp'' [mnt @ ''/vmlinuz_a'', mnt @ ''/vmlinuz_b'']) (\<lambda>_.
        bind_action (runLVM H ''/bin/cp'' [mnt @ ''/initramfs_a'', mnt @ ''/initramfs_b'']) (\<lambda>_.
        bind_action (wrap_action ''write grub.cfg'' (ho_write H (mnt @ ''/EFI/BOOT/grub.cfg'') runtime_grubCfg)) (\<lambda>_.
        run_ignored H ''/bin/sync'' []))))
       (umount H mnt))))"

definition install_deriveShortID :: "install_libs \<Rightarrow> string \<Rightarrow> string" where
  "install_deriveShortID Q capsuleID =
    (case il_parse_uuid Q capsuleID of
       None \<Rightarrow> []
     | Some u \<Rightarrow> ''capsule-'' @ hex_byte (u ! 0) @ hex_byte (u ! 1))"

definition buildFirstBootBundle :: "install_libs \<Rightarrow> install_request \<Rightarrow> first_boot_bundle result" where
  "buildFirstBootBundle Q req =
    (let capsuleID = il_new_uuid Q; shortID = install_deriveShortID Q capsuleID in
     case il_gen_cert Q capsuleID of
       Inl e \<Rightarrow> Inl (Wrap ''generate tls'' e)
     | Inr (certPEM, keyPEM) \<Rightarrow>
        Inr \<lparr>fb_CapsuleID = capsuleID, fb_ShortID = shortID, fb_TLSCertPEM = certPEM, fb_TLSKeyPEM = keyPEM,
          fb_OperatorPubkey = std_encode (rq_OperatorPubkey req), fb_OperatorName = rq_OperatorName req\<rparr>)"

definition FingerprintRaw :: "prims \<Rightarrow> bytes \<Rightarrow> string" where
  "FingerprintRaw P raw = concat (map hex_byte (p_sha256 P raw))"

definition fingerprintFromPEM :: "install_libs \<Rightarrow> string \<Rightarrow> string result" where
  "fingerprintFromPEM Q certPEM =
    (case il_pem_cert Q certPEM of
       None \<Rightarrow> Inl (Errorf ''no CERTIFICATE block in PEM'')
     | Some der \<Rightarrow> Inr (FingerprintRaw (il_prims Q) der))"

definition sealed_path :: string where "sealed_path = ''/mnt/perm-target/firstboot.json''"

definition writeFirstBootBundle :: "'w host_ops \<Rightarrow> install_libs \<Rightarrow> first_boot_bundle \<Rightarrow> ('w, unit) action" where
  "writeFirstBootBundle H Q b =
    (let mnt = ''/mnt/perm-target'' in
     bind_action (wrap_action ''mkdir'' (ho_mkdir H mnt)) (\<lambda>_.
     bind_action (run_ignored H ''/sbin/modprobe'' [''ext4'']) (\<lambda>_.
     bind_action (runLVM H ''/bin/mount'' [''-t'', ''ext4'', ''/dev/mapper/capsule-meta'', mnt]) (\<lambda>_.
     and_finally
       (bind_action (wrap_action ''write'' (ho_write H sealed_path (il_marshal Q b))) (\<lambda>_.
        bind_action (mkdir_ignored H (mnt @ ''/capsule'')) (\<lambda>_.
        bind_action (mkdir_ignored H (mnt @ ''/containerd'')) (\<lambda>_.
        bind_action (mkdir_ignored H (mnt @ ''/containerd/root'')) (\<lambda>_.
        bind_action (mkdir_ignored H (mnt @ ''/tls'')) (\<lambda>_.
        run_ignored H ''/bin/sync'' []))))))
       (umount H mnt)))))"

text \<open>The phases of a run.\<close>

definition verify_target :: "installer \<Rightarrow> install_request \<Rightarrow> ('w run_state, target_disk) action" where
  "verify_target i req =
    bind_action (report ''verify'' 0 ''checking target disk'') (\<lambda>_.
    bind_action (lift_result (resolveTarget i (rq_TargetDisk req))) (\<lambda>target.
      if in_USBBootDisk i = [] then lift_result (Inl (Errorf ''installer has no source boot disk''))
      else if in_USBBootDisk i = td_Path target then lift_result (Inl (Errorf ''refusing to install onto the boot disk''))
      else bind_action (report ''verify'' 100 (''target='' @ td_Path target @ '' ('' @ itoa (unat (td_SizeBytes target)) @ '' bytes)''))
             (\<lambda>_. lift_result (Inr target))))"

definition reread_and_report :: "'w host_ops \<Rightarrow> string \<Rightarrow> ('w run_state, unit) action" where
  "reread_and_report H path st =
    (case on_host (rereadPartitions H path) st of
       (Inl e, st1) \<Rightarrow> report ''partition'' 100 (''warning: kernel re-read failed: '' @ error_text e) st1
     | (Inr _, st1) \<Rightarrow> report ''partition'' 100 ''partition table written'' st1)"

definition write_phase :: "'w host_ops \<Rightarrow> string \<Rightarrow> string \<Rightarrow> 32 word \<Rightarrow> string \<Rightarrow> string \<Rightarrow> ('w run_state, unit) action" where
  "write_phase H srcDev dstDev cnt phase msg =
    bind_action (wrap_action ''waiting for'' (on_host (waitForPath H dstDev))) (\<lambda>_.
    wrap_action msg (copy_partition H srcDev dstDev cnt phase))"

definition seal_phase :: "'w host_ops \<Rightarrow> install_libs \<Rightarrow> install_request \<Rightarrow> ('w run_state, install_result) action" where
  "seal_phase H Q req =
    (if rq_Seal req \<and> rq_OperatorPubkey req \<noteq> [] then
       bind_action (report ''seal_firstboot'' 0 ''generating disk identity + sealing operator key'') (\<lambda>_.
       bind_action (lift_result (buildFirstBootBundle Q req)) (\<lambda>b.
       bind_action (wrap_action ''write firstboot bundle'' (on_host (writeFirstBootBundle H Q b))) (\<lambda>_.
       bind_action (lift_result (fingerprintFromPEM Q (fb_TLSCertPEM b))) (\<lambda>fp.
       bind_action (report ''seal_firstboot'' 100 ''firstboot.json written'') (\<lambda>_.
       lift_result (Inr \<lparr>ir_CapsuleID = fb_CapsuleID b, ir_ShortID = fb_ShortID b, ir_TLSFingerprint = fp,
         ir_Kid = KidFromPubkey (il_prims Q) (rq_OperatorPubkey req)\<rparr>))))))
     else
       bind_action (report ''seal_firstboot'' 100 ''seal=false; disk will open a claim window on first boot'') (\<lambda>_.
       lift_result (Inr \<lparr>ir_CapsuleID = [], ir_ShortID = [], ir_TLSFingerprint = [], ir_Kid = []\<rparr>)))"

definition sync_phase :: "'w host_ops \<Rightarrow> ('w run_state, unit) action" where
  "sync_phase H =
    bind_action (report ''sync'' 0 ''flushing buffers'') (\<lambda>_.
    bind_action (on_host (run_ignored H ''/bin/sync'' [])) (\<lambda>_ st.
      (case on_host (mo_exec_action H ''/sbin/vgchange'' [''-an'', ''capsule'']) st of
         (Inl e, st1) \<Rightarrow> bind_action (report ''sync'' 50 (''warning: vgchange -an failed: '' @ error_text e)) (\<lambda>_. report ''sync'' 100 []) st1
       | (Inr _, st1) \<Rightarrow> report ''sync'' 100 [] st1)))"

definition Run :: "'w host_ops \<Rightarrow> install_libs \<Rightarrow> installer \<Rightarrow> install_request \<Rightarrow> ('w run_state, install_result) action" where
  "Run H Q i req =
    bind_action (verify_target i req) (\<lambda>target.
    bind_action (wrap_action ''layout'' (lift_result (LayoutForDisk (td_SizeBytes target)))) (\<lambda>l.
    bind_action (report ''partition'' 0 ''writing MBR'') (\<lambda>_.
    bind_action (write_mbr H (td_Path target) l) (\<lambda>_.
    bind_action (reread_and_report H (td_Path target)) (\<lambda>_.
    (let usbBoot = partitionPath (in_USBBootDisk i) 1;
         usbSlotA = partitionPath (in_USBBootDisk i) 2;
         tgtBoot = partitionPath (td_Path target) 1;
         tgtSlotA = partitionPath (td_Path target) 2;
         tgtSlotB = partitionPath (td_Path target) 3;
         tgtPerm = partitionPath (td_Path target) 4
     in
    bind_action (write_phase H usbBoot tgtBoot (BootSectors l) ''write_boot'' ''copy boot'') (\<lambda>_.
    bind_action (report ''patch_boot'' 0 ''patching grub.cfg for runtime disk + seeding slot_b kernel'') (\<lambda>_.
    bind_action (wrap_action ''patch boot'' (on_host (patchBootGrubCfg H tgtBoot))) (\<lambda>_.
    bind_action (report ''patch_boot'' 100 ''grub.cfg patched'') (\<lambda>_.
    bind_action (write_phase H usbSlotA tgtSlotA (SlotASectors l) ''write_slot_a'' ''copy slot_a'') (\<lambda>_.
    bind_action (write_phase H usbSlotA tgtSlotB (SlotBSectors l) ''write_slot_b'' ''copy slot_b'') (\<lambda>_.
    bind_action (report ''init_lvm'' 0 (''creating PV + VG + meta LV on '' @ tgtPerm)) (\<lambda>_.
    bind_action (wrap_action ''waiting for'' (on_host (waitForPath H tgtPerm))) (\<lambda>_.
    bind_action (wrap_action ''init lvm'' (on_host (initTargetLVM H tgtPerm))) (\<lambda>_.
    bind_action (report ''init_lvm'' 100 ''PV + VG + meta + thinpool created'') (\<lambda>_.
    bind_action (seal_phase H Q req) (\<lambda>res.
    bind_action (sync_phase H) (\<lambda>_.
    lift_result (Inr res)))))))))))))))))))"

section \<open>The install service\<close>

record install_controller =
  ct_ShortID :: string
  ct_CapsuleID :: string
  ct_Version :: string
  ct_USBBootDisk :: string
  ct_Targets :: "target_disk list"

record install_status =
  is_ShortID :: string
  is_CapsuleID :: string
  is_TargetDisk :: string
  is_TargetSizeBytes :: "64 word"
  is_Targets :: "string list"
  is_Version :: string

definition InstallController_Status :: "install_controller \<Rightarrow> install_status result" where
  "InstallController_Status c =
    (if ct_Targets c = [] then Inl (Status FailedPrecondition ''no candidate target disks'')
     else Inr \<lparr>is_ShortID = ct_ShortID c, is_CapsuleID = ct_CapsuleID c, is_TargetDisk = td_Path (hd (ct_Targets c)),
       is_TargetSizeBytes = td_SizeBytes (hd (ct_Targets c)), is_Targets = map td_Path (ct_Targets c),
       is_Version = ct_Version c\<rparr>)"

text \<open>The reports of a run are sent as they come and failures to send them are ignored; the last message
  carries the result, and its failure \<open>send_err\<close> is returned.\<close>

definition InstallController_Install ::
  "'w host_ops \<Rightarrow> install_libs \<Rightarrow> install_controller \<Rightarrow> go_error option \<Rightarrow> string \<Rightarrow> bytes \<Rightarrow> string \<Rightarrow> bool \<Rightarrow>
   'w \<Rightarrow> (install_result option) result \<times> 'w run_state" where
  "InstallController_Install H Q c send_err targetDisk pubkey name seal w =
    (if ct_USBBootDisk c = [] then (Inl (Status FailedPrecondition ''installer has no source disk; cannot flash''), ([], w))
     else if ct_Targets c = [] then (Inl (Status FailedPrecondition ''no candidate target disks''), ([], w))
     else (case Run H Q \<lparr>in_USBBootDisk = ct_USBBootDisk c, in_Targets = ct_Targets c\<rparr>
                  \<lparr>rq_TargetDisk = targetDisk, rq_OperatorPubkey = pubkey, rq_OperatorName = name,
                   rq_Seal = (seal \<or> pubkey \<noteq> [])\<rparr> ([], w) of
        (Inl e, st) \<Rightarrow> (Inl (Status Internal (''install failed: '' @ error_text e)), st)
      | (Inr res, st) \<Rightarrow>
         (case send_err of
            Some e \<Rightarrow> (Inl e, st)
          | None \<Rightarrow> (Inr (Some res), (fst st @ [(''done'', 100, ''install complete; remove USB and power-cycle'')], snd st)))))"

section \<open>A sealed installation\<close>

lemma writeFirstBootBundle_ok:
  assumes "writeFirstBootBundle H Q b w = (Inr (), w')"
  obtains w1 w2 where "ho_write H sealed_path (il_marshal Q b) w1 = (Inr (), w2)"
proof -
  obtain w1 where "and_finally
       (bind_action (wrap_action ''write'' (ho_write H sealed_path (il_marshal Q b))) (\<lambda>_.
        bind_action (mkdir_ignored H ''/mnt/perm-target/capsule'') (\<lambda>_.
        bind_action (mkdir_ignored H ''/mnt/perm-target/containerd'') (\<lambda>_.
        bind_action (mkdir_ignored H ''/mnt/perm-target/containerd/root'') (\<lambda>_.
        bind_action (mkdir_ignored H ''/mnt/perm-target/tls'') (\<lambda>_.
        run_ignored H ''/bin/sync'' []))))))
       (umount H ''/mnt/perm-target'') w1 = (Inr (), w')"
    using assms unfolding writeFirstBootBundle_def Let_def by (auto elim!: bind_ok)
  then obtain w2 where "bind_action (wrap_action ''write'' (ho_write H sealed_path (il_marshal Q b))) (\<lambda>_.
        bind_action (mkdir_ignored H ''/mnt/perm-target/capsule'') (\<lambda>_.
        bind_action (mkdir_ignored H ''/mnt/perm-target/containerd'') (\<lambda>_.
        bind_action (mkdir_ignored H ''/mnt/perm-target/containerd/root'') (\<lambda>_.
        bind_action (mkdir_ignored H ''/mnt/perm-target/tls'') (\<lambda>_.
        run_ignored H ''/bin/sync'' []))))) w1 = (Inr (), w2)"
    by (auto simp: and_finally_def split: prod.splits)
  then show thesis using that by (auto simp: wrap_ok elim!: bind_ok)
qed

lemma bind_report [simp]: "bind_action (report p n m) f st = f () (fst st @ [(p, n, m)], snd st)"
  by (simp add: bind_action_def report_def)

lemma bind_lift [simp]:
  "bind_action (lift_result (Inl e)) f w = (Inl e, w)" "bind_action (lift_result (Inr x)) f w = f x w"
  by (simp_all add: bind_action_def lift_result_def)

lemma seal_phase_ok:
  assumes ok: "seal_phase H Q req st = (Inr res, st')" and req: "rq_Seal req" "rq_OperatorPubkey req \<noteq> []"
  obtains b w1 w2 where "buildFirstBootBundle Q req = Inr b"
    "fingerprintFromPEM Q (fb_TLSCertPEM b) = Inr (ir_TLSFingerprint res)"
    "ir_CapsuleID res = fb_CapsuleID b" "ir_ShortID res = fb_ShortID b"
    "ir_Kid res = KidFromPubkey (il_prims Q) (rq_OperatorPubkey req)"
    "ho_write H sealed_path (il_marshal Q b) w1 = (Inr (), w2)"
proof -
  obtain b where b: "buildFirstBootBundle Q req = Inr b"
    using ok req by (cases "buildFirstBootBundle Q req") (simp_all add: seal_phase_def)
  define ps where "ps = fst st @ [(''seal_firstboot'', 0, ''generating disk identity + sealing operator key'')]"
  have "bind_action (wrap_action ''write firstboot bundle'' (on_host (writeFirstBootBundle H Q b))) (\<lambda>_.
       bind_action (lift_result (fingerprintFromPEM Q (fb_TLSCertPEM b))) (\<lambda>fp.
       bind_action (report ''seal_firstboot'' 100 ''firstboot.json written'') (\<lambda>_.
       lift_result (Inr \<lparr>ir_CapsuleID = fb_CapsuleID b, ir_ShortID = fb_ShortID b, ir_TLSFingerprint = fp,
         ir_Kid = KidFromPubkey (il_prims Q) (rq_OperatorPubkey req)\<rparr>)))) (ps, snd st) = (Inr res, st')"
    using ok req b by (simp add: seal_phase_def ps_def)
  then obtain st1 where w: "on_host (writeFirstBootBundle H Q b) (ps, snd st) = (Inr (), st1)"
    and f: "bind_action (lift_result (fingerprintFromPEM Q (fb_TLSCertPEM b))) (\<lambda>fp.
       bind_action (report ''seal_firstboot'' 100 ''firstboot.json written'') (\<lambda>_.
       lift_result (Inr \<lparr>ir_CapsuleID = fb_CapsuleID b, ir_ShortID = fb_ShortID b, ir_TLSFingerprint = fp,
         ir_Kid = KidFromPubkey (il_prims Q) (rq_OperatorPubkey req)\<rparr>))) st1 = (Inr res, st')"
    by (rule bind_ok) (simp add: wrap_ok)
  obtain w' where "writeFirstBootBundle H Q b (snd st) = (Inr (), w')" using w by (auto simp: on_host_ok)
  then obtain w1 w2 where "ho_write H sealed_path (il_marshal Q b) w1 = (Inr (), w2)"
    by (rule writeFirstBootBundle_ok)
  moreover have "fingerprintFromPEM Q (fb_TLSCertPEM b) = Inr (ir_TLSFingerprint res)"
    "ir_CapsuleID res = fb_CapsuleID b" "ir_ShortID res = fb_ShortID b"
    "ir_Kid res = KidFromPubkey (il_prims Q) (rq_OperatorPubkey req)"
    using f by (cases "fingerprintFromPEM Q (fb_TLSCertPEM b)"; auto simp: lift_ok)+
  ultimately show thesis using that b by blast
qed

lemma Run_seals:
  assumes "Run H Q i req st = (Inr res, st')"
  obtains st1 st2 where "seal_phase H Q req st1 = (Inr res, st2)"
proof -
  have "\<exists>st1 st2. seal_phase H Q req st1 = (Inr res, st2)"
    using assms unfolding Run_def Let_def
    by (elim bind_ok) (auto simp only: lift_ok sum.inject)
  then show thesis using that by blast
qed

text \<open>What \<open>encoding/json\<close> promises: decoding an encoded bundle gives it back.\<close>

definition json_ok :: "install_libs \<Rightarrow> bool" where
  "json_ok Q \<longleftrightarrow> (\<forall>b. il_unmarshal Q (il_marshal Q b) = Some b)"

lemma std_encode_ne: "pub \<noteq> [] \<Longrightarrow> std_encode pub \<noteq> []"
  using std_decode_encode [of pub] by (auto simp: std_decode_def b64_decode_def)

text \<open>The store after the ingestion of a bundle on a fresh database.\<close>

definition sealed_identity :: "int \<Rightarrow> first_boot_bundle \<Rightarrow> capsule_identity" where
  "sealed_identity now b = \<lparr>CapsuleID = fb_CapsuleID b, ShortID = fb_ShortID b, CreatedAtUnix = now,
     AdoptedAtUnix = 0, AdoptedByKid = []\<rparr>"

lemma applyIdentity_fresh:
  "sq_identity db = None \<Longrightarrow> applyIdentity (sqlite_identity now) now b db =
    (Inr (), db\<lparr>sq_identity := Some (row_of_identity now (sealed_identity now b))\<rparr>)"
  by (simp add: applyIdentity_def sq_identity_ops sealed_identity_def)

lemma applyAuthorizedKey_fresh:
  assumes "fb_OperatorPubkey b = std_encode pub" "pub \<noteq> []" "sq_keys db = []" "length pub = 32"
  shows "\<exists>row. applyAuthorizedKey P (sqlite_authKeys dup now) now b db =
    (Inr (), db\<lparr>sq_keys := [(KidFromPubkey P pub, row)]\<rparr>) \<and> kr_pubkey row = pub"
  using assms std_encode_ne [OF assms(2)]
  by (auto simp: applyAuthorizedKey_def ParsePubkey_def sqlite_authKeys_def sqlite_authKey_Add_def Let_def)

lemma applyAuthorizedKey_unusable:
  assumes "fb_OperatorPubkey b = std_encode pub" "pub \<noteq> []" "length pub \<noteq> 32"
  shows "\<exists>e. applyAuthorizedKey P keys now b s = (Inl e, s)"
  using assms std_encode_ne [OF assms(2)] by (auto simp: applyAuthorizedKey_def ParsePubkey_def)

lemma host_part_keeps_store:
  "fst (snd (bind_action (on_host m) (\<lambda>_ st1. (Inr (), (fst st1, f (snd st1)))) (s, w))) = s"
  by (auto simp: bind_action_def on_host_def split: prod.splits sum.splits)

lemma on_store_pair: "on_store m (s, w) = (fst (m s), (snd (m s), w))"
  by (simp add: on_store_def split: prod.split)

lemma sealed_identity_reads_back:
  "sq_identity db = Some (row_of_identity now (sealed_identity now b)) \<Longrightarrow>
   fst (id_Get (sqlite_identity now) db) = Inr (sealed_identity now b)"
  by (simp add: sq_identity_ops row_of_identity_def identity_of_row_def sealed_identity_def)

lemma ingest_steps:
  assumes read: "ho_read H ''/perm/firstboot.json'' w = Inr (il_marshal Q b)" and json: "json_ok Q"
    and fresh: "sq_identity db = None"
  shows "IngestFirstBoot H Q (sqlite_identity now) keys now ''/perm'' (db, w) =
    bind_action (on_store (applyAuthorizedKey (il_prims Q) keys now b)) (\<lambda>_.
      bind_action (on_host (writeTLSMaterial H ''/perm'' b)) (\<lambda>_ st1.
        (Inr (), (fst st1, snd (ho_remove H ''/perm/firstboot.json'' (snd st1))))))
      (db\<lparr>sq_identity := Some (row_of_identity now (sealed_identity now b))\<rparr>, w)"
proof -
  have "il_unmarshal Q (il_marshal Q b) = Some b" using json by (simp add: json_ok_def)
  then show ?thesis
    using read by (simp add: IngestFirstBoot_def Let_def bind_action_def [of "on_store (applyIdentity _ _ _)"]
        on_store_pair applyIdentity_fresh [OF fresh])
qed

text \<open>The sealed key on a fresh database.\<close>

lemma ingest_fresh:
  fixes now :: int
  assumes read: "ho_read H ''/perm/firstboot.json'' w = Inr (il_marshal Q b)" and json: "json_ok Q"
    and fresh: "sq_identity db = None" "sq_keys db = []"
    and pub: "fb_OperatorPubkey b = std_encode pub" "length pub = 32"
    and out: "IngestFirstBoot H Q (sqlite_identity now) (sqlite_authKeys dup now) now ''/perm'' (db, w) = (r, (db', w'))"
  shows "fst (id_Get (sqlite_identity now) db') = Inr (sealed_identity now b)"
    "\<exists>row. sq_keys db' = [(KidFromPubkey (il_prims Q) pub, row)] \<and> kr_pubkey row = pub"
proof -
  let ?db1 = "db\<lparr>sq_identity := Some (row_of_identity now (sealed_identity now b))\<rparr>"
  obtain row where row: "applyAuthorizedKey (il_prims Q) (sqlite_authKeys dup now) now b ?db1 =
      (Inr (), ?db1\<lparr>sq_keys := [(KidFromPubkey (il_prims Q) pub, row)]\<rparr>)" "kr_pubkey row = pub"
    using applyAuthorizedKey_fresh [OF pub(1), of ?db1] pub(2) fresh(2) by fastforce
  have "db' = fst (snd (bind_action (on_host (writeTLSMaterial H ''/perm'' b)) (\<lambda>_ st1.
        (Inr (), (fst st1, snd (ho_remove H ''/perm/firstboot.json'' (snd st1)))))
        (?db1\<lparr>sq_keys := [(KidFromPubkey (il_prims Q) pub, row)]\<rparr>, w)))"
    using out unfolding ingest_steps [OF read json fresh(1)] bind_action_def [of "on_store _"] on_store_pair row(1)
    by simp
  then have db': "db' = ?db1\<lparr>sq_keys := [(KidFromPubkey (il_prims Q) pub, row)]\<rparr>"
    unfolding host_part_keeps_store [where f = "\<lambda>v. snd (ho_remove H ''/perm/firstboot.json'' v)"] .
  then show "\<exists>row. sq_keys db' = [(KidFromPubkey (il_prims Q) pub, row)] \<and> kr_pubkey row = pub"
    using row(2) by simp
  show "fst (id_Get (sqlite_identity now) db') = Inr (sealed_identity now b)"
    by (rule sealed_identity_reads_back) (simp add: db')
qed

lemma ingest_unusable:
  fixes now :: int
  assumes read: "ho_read H ''/perm/firstboot.json'' w = Inr (il_marshal Q b)" and json: "json_ok Q"
    and fresh: "sq_identity db = None"
    and pub: "fb_OperatorPubkey b = std_encode pub" "pub \<noteq> []" "length pub \<noteq> 32"
    and out: "IngestFirstBoot H Q (sqlite_identity now) keys now ''/perm'' (db, w) = (r, (db', w'))"
  shows "\<not> is_ok r" "sq_keys db' = sq_keys db" "w' = w"
proof -
  let ?db1 = "db\<lparr>sq_identity := Some (row_of_identity now (sealed_identity now b))\<rparr>"
  obtain e where "applyAuthorizedKey (il_prims Q) keys now b ?db1 = (Inl e, ?db1)"
    using applyAuthorizedKey_unusable [OF pub, of "il_prims Q" keys now ?db1] by blast
  then have "(r, (db', w')) = (Inl e, (?db1, w))"
    using out unfolding ingest_steps [OF read json fresh(1)] by (simp add: bind_action_def on_store_pair)
  then show "\<not> is_ok r" "sq_keys db' = sq_keys db" "w' = w" by auto
qed

lemma build_pubkey:
  "buildFirstBootBundle Q req = Inr b \<Longrightarrow> fb_OperatorPubkey b = std_encode (rq_OperatorPubkey req)"
  by (auto simp: buildFirstBootBundle_def Let_def split: sum.splits prod.splits)

text \<open>C13: a sealed installation is adopted by its operator alone. When a run with a usable key succeeds, a
  bundle was written to the target, and the first boot that finds this bundle and a fresh database
  ends with the identity announced in the run's result, with the operator's key under the announced
  kid as the only key, and with the claim window closed; the announced fingerprint
  is the one of the bundle's certificate.\<close>

theorem sealed_install_is_adopted:
  assumes run: "Run H Q i req st = (Inr res, st')" and seal: "rq_Seal req" "length (rq_OperatorPubkey req) = 32"
    and json: "json_ok Q"
  shows "\<exists>b. (\<exists>w1 w2. ho_write H sealed_path (il_marshal Q b) w1 = (Inr (), w2)) \<and>
    fingerprintFromPEM Q (fb_TLSCertPEM b) = Inr (ir_TLSFingerprint res) \<and>
    (\<forall>H' db w now dup duration r db' w'.
       ho_read H' ''/perm/firstboot.json'' w = Inr (il_marshal Q b) \<and> sq_identity db = None \<and> sq_keys db = [] \<and>
       IngestFirstBoot H' Q (sqlite_identity now) (sqlite_authKeys dup now) now ''/perm'' (db, w :: 'v) = (r, (db', w')) \<longrightarrow>
       (\<exists>i. fst (id_Get (sqlite_identity now) db') = Inr i \<and> CapsuleID i = ir_CapsuleID res \<and> ShortID i = ir_ShortID res) \<and>
       map fst (sq_keys db') = [ir_Kid res] \<and>
       key_lookup (sqlite_authKeys dup now) db' (ir_Kid res) = Some (rq_OperatorPubkey req) \<and>
       \<not> cw_open (startup_claim False (fst (ak_Count (sqlite_authKeys dup now) db')) duration))"
proof -
  let ?pub = "rq_OperatorPubkey req"
  have "?pub \<noteq> []" using seal(2) by auto
  obtain st1 st2 where "seal_phase H Q req st1 = (Inr res, st2)" using run by (rule Run_seals)
  then obtain b w1 w2 where b: "buildFirstBootBundle Q req = Inr b"
    "fingerprintFromPEM Q (fb_TLSCertPEM b) = Inr (ir_TLSFingerprint res)"
    "ir_CapsuleID res = fb_CapsuleID b" "ir_ShortID res = fb_ShortID b"
    "ir_Kid res = KidFromPubkey (il_prims Q) ?pub"
    "ho_write H sealed_path (il_marshal Q b) w1 = (Inr (), w2)"
    using seal(1) \<open>?pub \<noteq> []\<close> by (rule seal_phase_ok)
  show ?thesis
  proof (intro exI [of _ b] conjI allI impI, goal_cases)
    case 1
    then show ?case using b(6) by blast
  next
    case 2
    then show ?case by (rule b(2))
  next
    case (3 H' db w now dup duration r db' w')
    then show ?case
      using ingest_fresh(1) [of H' w Q b db ?pub now dup r db' w'] build_pubkey [OF b(1)] json seal(2) b(3,4)
      by (auto simp: sealed_identity_def)
  next
    case (4 H' db w now dup duration r db' w')
    then show ?case
      using ingest_fresh(2) [of H' w Q b db ?pub now dup r db' w'] build_pubkey [OF b(1)] json seal(2) b(5) by auto
  next
    case (5 H' db w now dup duration r db' w')
    then obtain row where "sq_keys db' = [(ir_Kid res, row)]" "kr_pubkey row = ?pub"
      using ingest_fresh(2) [of H' w Q b db ?pub now dup r db' w'] build_pubkey [OF b(1)] json seal(2) b(5) by auto
    then show ?case using seal(2)
      by (simp add: key_lookup_def sqlite_authKeys_def sqlite_authKey_Get_def key_of_row_def ParsePubkey_def)
  next
    case (6 H' db w now dup duration r db' w')
    then obtain row where "sq_keys db' = [(ir_Kid res, row)]"
      using ingest_fresh(2) [of H' w Q b db ?pub now dup r db' w'] build_pubkey [OF b(1)] json seal(2) b(5) by auto
    then show ?case
      by (simp add: sqlite_authKeys_def sqlite_authKey_Count_def startup_claim_def NewClaimWindow_def)
  qed
qed


section \<open>An example installation\<close>

text \<open>A codec of bundles: every field with its length in unary.\<close>

definition pack :: "string \<Rightarrow> string" where
  "pack s = replicate (length s) CHR ''1'' @ CHR ''0'' # s"

definition unpack :: "string \<Rightarrow> string \<times> string" where
  "unpack t = (let n = length (takeWhile (\<lambda>c. c = CHR ''1'') t) in (take n (drop (Suc n) t), drop (n + Suc n) t))"

lemma unpack_pack [simp]: "unpack (pack s @ r) = (s, r)"
proof -
  have "takeWhile (\<lambda>c. c = CHR ''1'') (pack s @ r) = replicate (length s) CHR ''1''"
    unfolding pack_def append_assoc by (subst takeWhile_append2) simp_all
  then show ?thesis by (simp add: unpack_def Let_def pack_def)
qed

definition toy_libs :: install_libs where
  "toy_libs = \<lparr>il_prims = sum_prims, il_new_uuid = ''u1'', il_parse_uuid = (\<lambda>_. Some [1, 2]),
     il_gen_cert = (\<lambda>_. Inr (''CERT'', ''KEY'')), il_pem_cert = (\<lambda>_. Some [3]),
     il_marshal = (\<lambda>b. pack (fb_CapsuleID b) @ pack (fb_ShortID b) @ pack (fb_TLSCertPEM b) @ pack (fb_TLSKeyPEM b) @
       pack (fb_OperatorPubkey b) @ pack (fb_OperatorName b)),
     il_unmarshal = (\<lambda>t. case unpack t of (c, t1) \<Rightarrow> (case unpack t1 of (s, t2) \<Rightarrow> (case unpack t2 of (cert, t3) \<Rightarrow>
       (case unpack t3 of (key, t4) \<Rightarrow> (case unpack t4 of (pub, t5) \<Rightarrow> (case unpack t5 of (name, _) \<Rightarrow>
         Some \<lparr>fb_CapsuleID = c, fb_ShortID = s, fb_TLSCertPEM = cert, fb_TLSKeyPEM = key,
           fb_OperatorPubkey = pub, fb_OperatorName = name\<rparr>))))))\<rparr>"

lemma unpack_pack_end [simp]: "unpack (pack s) = (s, [])"
  using unpack_pack [of s "[]"] by simp

lemma toy_json: "json_ok toy_libs"
  by (simp add: json_ok_def toy_libs_def)

text \<open>A host whose disks are empty.\<close>

definition toy_disks :: "toy_host host_ops" where
  "toy_disks = toy_hops\<lparr>ho_sys := (\<lambda>_. example_sysfs\<lparr>sy_dev := (\<lambda>p. Inr (if p = ''/dev/sda'' then replicate 512 0 else []))\<rparr>),
     ho_appears := (\<lambda>_ _. True)\<rparr>"

definition toy_installer :: installer where
  "toy_installer = \<lparr>in_USBBootDisk = ''/dev/sdb'',
     in_Targets = [\<lparr>td_Path = ''/dev/sda'', td_SizeBytes = 25600000000, td_Reinstall = False\<rparr>]\<rparr>"

definition toy_request :: "bytes \<Rightarrow> install_request" where
  "toy_request pub = \<lparr>rq_TargetDisk = [], rq_OperatorPubkey = pub, rq_OperatorName = ''ops'', rq_Seal = True\<rparr>"

lemma copy_loop_empty: "copy_loop healthy [] s healthy d totalBytes 0 0 dst [] = (Inr 0, dst, [])"
  by (subst copy_loop.simps) (simp add: read_full_def healthy_def chunkBytes_def Let_def)

lemma CopyPartition_empty: "CopyPartition healthy [] 0 healthy 0 cnt dst = (Inr (), dst, [(0, unat cnt * 512)])"
  unfolding CopyPartition_def Let_def copy_loop_empty by (simp add: healthy_def)

lemma toy_copy:
  assumes "srcDev \<noteq> ''/dev/sda''"
  shows "\<exists>ps'. write_phase toy_disks srcDev dstDev cnt phase msg (ps, w) = (Inr (), (ps', w))"
  using assms by (simp add: write_phase_def bind_action_def wrap_action_def on_host_def waitForPath_def copy_partition_def
      toy_disks_def toy_hops_def CopyPartition_empty)

lemma toy_mbr: "write_mbr toy_disks ''/dev/sda'' l st = (Inr (), st)"
  by (cases st) (simp add: write_mbr_def toy_disks_def toy_hops_def WriteMBR_def dev_write_def healthy_def build_mbr_facts Let_def)

lemma toy_reread: "\<exists>ps'. reread_and_report toy_disks p (ps, w) = (Inr (), (ps', w))" if "th_fail w = []"
  using that by (simp add: reread_and_report_def on_host_def rereadPartitions_def runLVM_def report_def toy_disks_def toy_hops_def
      toy_lvm_def exec_error_def)

lemma succeeds_report: "(\<And>ps. P () (ps, snd st)) \<Longrightarrow> succeeds (report p n m) st P"
  by (simp add: succeeds_def report_def)

lemma succeeds_after_report:
  "(\<And>ps. succeeds (f ()) (ps, snd st) P) \<Longrightarrow> succeeds (bind_action (report p n m) f) st P"
  by (simp add: succeeds_def bind_action_def report_def)

lemma toy_exec_ok:
  assumes "th_fail w = []" "bin \<notin> {''/sbin/pvs'', ''/sbin/pvcreate'', ''/sbin/vgcreate'', ''/sbin/vgremove'', ''/sbin/pvremove'',
     ''/sbin/vgs'', ''/sbin/vgchange'', ''/sbin/lvcreate''}"
  shows "mo_exec toy_disks bin args w = (ExecOk [], w)"
  using assms by (simp add: toy_disks_def toy_hops_def toy_lvm_def)

lemma toy_file_ops:
  "ho_mkdir toy_disks d w = (Inr (), w)"
  "ho_write toy_disks p c w = (Inr (), w\<lparr>th_files := AList.update p c (th_files w)\<rparr>)"
  by (simp_all add: toy_disks_def toy_hops_def)

text \<open>A host on which every command works, with the volume group as given.\<close>

definition toy_at :: "bool \<Rightarrow> toy_host \<Rightarrow> bool" where
  "toy_at lvm w \<longleftrightarrow> th_fail w = [] \<and> (th_pv w = lvm) \<and> (th_vg w = lvm) \<and> (th_meta w = lvm) \<and> \<not> th_pool w"

lemma toy_steps:
  assumes "toy_at b w"
  shows "succeeds (ho_mkdir toy_disks d) w (\<lambda>_. toy_at b)"
    "succeeds (ho_write toy_disks p c) w (\<lambda>_. toy_at b)"
    "succeeds (mkdir_ignored toy_disks d) w (\<lambda>_. toy_at b)"
    "bin \<in> {''/bin/mount'', ''/bin/cp'', ''/bin/dd'', ''/sbin/mkfs.ext4'', ''/sbin/blockdev''} \<Longrightarrow> succeeds (runLVM toy_disks bin args) w (\<lambda>_. toy_at b)"
    "bin \<in> {''/bin/sync'', ''/sbin/modprobe'', ''/sbin/vgchange''} \<Longrightarrow> succeeds (run_ignored toy_disks bin args) w (\<lambda>_. toy_at b)"
    "toy_at b (umount toy_disks mnt w)"
  using assms
  by (auto simp: succeeds_def toy_file_ops mkdir_ignored_def runLVM_def run_ignored_def umount_def toy_at_def toy_exec_ok exec_error_def)
    (auto simp: toy_disks_def toy_hops_def toy_lvm_def)

lemma toy_removes_lvm:
  assumes "toy_at False w"
  shows "succeeds (run_ignored toy_disks ''/sbin/vgremove'' args) w (\<lambda>_. toy_at False)"
    "succeeds (run_ignored toy_disks ''/sbin/pvremove'' args) w (\<lambda>_. toy_at False)"
  using assms
  by (auto simp: succeeds_def run_ignored_def toy_at_def toy_disks_def toy_hops_def toy_lvm_def)

lemma toy_creates_lvm:
  assumes w: "toy_at False w" and f: "\<And>v. toy_at True v \<Longrightarrow> succeeds (f ()) v P"
  shows "succeeds (bind_action (runLVM toy_disks ''/sbin/pvcreate'' a1) (\<lambda>_.
       bind_action (runLVM toy_disks ''/sbin/vgcreate'' a2) (\<lambda>_.
       bind_action (runLVM toy_disks ''/sbin/lvcreate'' [''-L'', ''1024M'', ''-n'', ''meta'', ''capsule'']) f))) w P"
proof -
  have 1: "runLVM toy_disks ''/sbin/pvcreate'' a1 w = (Inr (), w\<lparr>th_pv := True\<rparr>)"
    "runLVM toy_disks ''/sbin/vgcreate'' a2 (w\<lparr>th_pv := True\<rparr>) = (Inr (), w\<lparr>th_pv := True, th_vg := True\<rparr>)"
    "runLVM toy_disks ''/sbin/lvcreate'' [''-L'', ''1024M'', ''-n'', ''meta'', ''capsule''] (w\<lparr>th_pv := True, th_vg := True\<rparr>) =
      (Inr (), w\<lparr>th_pv := True, th_vg := True, th_meta := True\<rparr>)"
    using w by (simp_all add: runLVM_def toy_at_def toy_disks_def toy_hops_def toy_lvm_def exec_error_def)
  have "toy_at True (w\<lparr>th_pv := True, th_vg := True, th_meta := True\<rparr>)" using w by (simp add: toy_at_def)
  from f [OF this] show ?thesis unfolding succeeds_def bind_action_def 1 prod.case sum.case .
qed

lemma toy_sync_umount:
  "toy_at b w \<Longrightarrow> succeeds (run_ignored toy_disks ''/bin/sync'' []) w (\<lambda>x v. toy_at b (umount toy_disks mnt v))"
  by (simp add: succeeds_def run_ignored_def umount_def toy_exec_ok toy_at_def)

lemma toy_init: "toy_at False w \<Longrightarrow> succeeds (initTargetLVM toy_disks dev) w (\<lambda>_. toy_at True)"
  unfolding initTargetLVM_def writeLVMLocalConf_def
  by (intro succeeds_bind [where R = "\<lambda>_. toy_at False"] succeeds_wrap toy_steps toy_removes_lvm toy_creates_lvm) simp_all

lemma toy_patch: "toy_at b w \<Longrightarrow> succeeds (patchBootGrubCfg toy_disks dev) w (\<lambda>_. toy_at b)"
  unfolding patchBootGrubCfg_def Let_def
  by (intro succeeds_bind [where R = "\<lambda>_. toy_at b"] succeeds_wrap succeeds_finally toy_sync_umount toy_steps) simp_all

lemma toy_bundle: "toy_at b w \<Longrightarrow> succeeds (writeFirstBootBundle toy_disks Q x) w (\<lambda>_. toy_at b)"
  unfolding writeFirstBootBundle_def Let_def
  by (intro succeeds_bind [where R = "\<lambda>_. toy_at b"] succeeds_wrap succeeds_finally toy_sync_umount toy_steps) simp_all

lemma toy_copy_phase:
  "srcDev \<noteq> ''/dev/sda'' \<Longrightarrow> toy_at b (snd st) \<Longrightarrow>
   succeeds (write_phase toy_disks srcDev dstDev cnt phase msg) st (\<lambda>_ st'. toy_at b (snd st'))"
  using toy_copy [of srcDev dstDev cnt phase msg "fst st" "snd st"] by (auto simp: succeeds_def)

lemma toy_host_phase:
  "succeeds m (snd st) (\<lambda>_. toy_at b) \<Longrightarrow> succeeds (wrap_action msg (on_host m)) st (\<lambda>_ st'. toy_at b (snd st'))"
  using succeeds_wrap [OF succeeds_on_host [of m "snd st" "\<lambda>_ st'. toy_at b (snd st')" "fst st"]] by simp

lemma toy_wait: "toy_at b w \<Longrightarrow> succeeds (waitForPath toy_disks p) w (\<lambda>_. toy_at b)"
  by (simp add: succeeds_def waitForPath_def toy_disks_def)

lemma toy_seal:
  assumes "toy_at True (snd st)" "pub \<noteq> []"
  shows "succeeds (seal_phase toy_disks toy_libs (toy_request pub)) st (\<lambda>_ st'. toy_at True (snd st'))"
proof -
  obtain b where b: "buildFirstBootBundle toy_libs (toy_request pub) = Inr b"
    by (simp add: buildFirstBootBundle_def toy_libs_def Let_def)
  have fp: "fingerprintFromPEM toy_libs p = Inr (FingerprintRaw sum_prims [3])" for p
    by (simp add: fingerprintFromPEM_def toy_libs_def)
  have req: "(rq_Seal (toy_request pub) \<and> rq_OperatorPubkey (toy_request pub) \<noteq> []) = True"
    using assms(2) by (simp add: toy_request_def)
  show ?thesis
    unfolding seal_phase_def req if_True b fp
    by (intro succeeds_after_report succeeds_after_lift succeeds_bind [OF toy_host_phase [OF toy_bundle]]
        succeeds_lift [OF refl]) (simp_all add: assms(1))
qed

lemma toy_sync: "succeeds (sync_phase H) st (\<lambda>_ _. True)"
  unfolding sync_phase_def
  by (rule succeeds_after_report)
    (simp add: succeeds_def bind_action_def on_host_def run_ignored_def report_def split: prod.split sum.split)

lemma toy_verify:
  "succeeds (verify_target toy_installer (toy_request pub)) ([], toy_blank)
     (\<lambda>t st. t = \<lparr>td_Path = ''/dev/sda'', td_SizeBytes = 25600000000, td_Reinstall = False\<rparr> \<and> toy_at False (snd st))"
proof -
  let ?t = "\<lparr>td_Path = ''/dev/sda'', td_SizeBytes = 25600000000, td_Reinstall = False\<rparr>"
  have t: "resolveTarget toy_installer (rq_TargetDisk (toy_request pub)) = Inr ?t"
    by (simp add: resolveTarget_def toy_installer_def toy_request_def)
  have i: "(in_USBBootDisk toy_installer = []) = False" "(in_USBBootDisk toy_installer = td_Path ?t) = False"
    by (simp_all add: toy_installer_def)
  show ?thesis
    unfolding verify_target_def t
    by (intro succeeds_after_report succeeds_after_lift, unfold i if_False, intro succeeds_after_report succeeds_lift [OF refl])
      (simp add: toy_at_def toy_blank_def)
qed

lemma toy_layout: "\<exists>l. LayoutForDisk 25600000000 = Inr l"
  using LayoutForDisk_cases [of 25600000000] by (cases "LayoutForDisk 25600000000") simp_all

lemma toy_Run:
  assumes pub: "pub \<noteq> []"
  shows "succeeds (Run toy_disks toy_libs toy_installer (toy_request pub)) ([], toy_blank) (\<lambda>_ _. True)"
proof -
  let ?at = "\<lambda>b (_ :: unit) st. toy_at b (snd st)"
  have usb: "in_USBBootDisk toy_installer = ''/dev/sdb''" by (simp add: toy_installer_def)
  have part: "partitionPath ''/dev/sdb'' n \<noteq> ''/dev/sda''" for n by (simp add: partitionPath_def)
  obtain l where l: "LayoutForDisk 25600000000 = Inr l" using toy_layout by blast
  have m: "succeeds (write_mbr toy_disks ''/dev/sda'' l) st (?at False)" if "toy_at False (snd st)" for st
    using that by (simp add: succeeds_def toy_mbr)
  have r: "succeeds (reread_and_report toy_disks ''/dev/sda'') st (?at False)" if "toy_at False (snd st)" for st
    using that toy_reread [of "snd st" "''/dev/sda''" "fst st"] by (auto simp: succeeds_def toy_at_def)
  have wr: "wrap_action msg (lift_result (Inr x)) = lift_result (Inr x)" for msg and x :: layout
    by (rule ext) (simp add: wrap_action_def lift_result_def)
  have seal: "succeeds (bind_action (seal_phase toy_disks toy_libs (toy_request pub)) (\<lambda>res.
      bind_action (sync_phase toy_disks) (\<lambda>_. lift_result (Inr res)))) st (\<lambda>_ _. True)" if "toy_at True (snd st)" for st
    by (rule succeeds_bind [OF toy_seal [OF that pub]], rule succeeds_bind [OF toy_sync], rule succeeds_lift [OF refl]) simp
  show ?thesis
    unfolding Run_def usb
  proof (rule succeeds_bind [OF toy_verify], elim conjE, hypsubst, unfold target_disk.simps l wr Let_def, goal_cases)
    case (1 t st)
    then show ?case
      by (intro succeeds_after_lift succeeds_after_report succeeds_bind [OF m] succeeds_bind [OF r]
          succeeds_bind [OF toy_copy_phase [OF part]] succeeds_bind [OF toy_host_phase [OF toy_patch]]
          succeeds_bind [OF toy_host_phase [OF toy_wait]] succeeds_bind [OF toy_host_phase [OF toy_init]] seal) simp_all
  qed
qed

definition booting_host :: "string \<Rightarrow> toy_host host_ops" where
  "booting_host sealed = toy_disks\<lparr>ho_read := (\<lambda>_ _. Inr sealed)\<rparr>"

lemma booting_host_read: "ho_read (booting_host sealed) p w = Inr sealed"
  by (simp add: booting_host_def)

lemma sqlite_empty_fresh: "sq_identity (sqlite_empty :: 'b sqlite_db) = None" "sq_keys (sqlite_empty :: 'b sqlite_db) = []"
  by (simp_all add: sqlite_empty_def)

text \<open>The first boot with a sealed bundle, on an empty database.\<close>

definition first_boot :: "first_boot_bundle \<Rightarrow> unit result \<times> (unit sqlite_db \<times> toy_host)" where
  "first_boot b = IngestFirstBoot (booting_host (il_marshal toy_libs b)) toy_libs (sqlite_identity 0)
     (sqlite_authKeys ''UNIQUE'' 0) 0 ''/perm'' (sqlite_empty, toy_blank)"

theorem sealed_install_is_adopted_witness:
  "\<exists>res st' b. Run toy_disks toy_libs toy_installer (toy_request (replicate 32 9)) ([], toy_blank) = (Inr res, st') \<and>
     map fst (sq_keys (fst (snd (first_boot b)))) = [ir_Kid res]"
proof -
  let ?pub = "replicate 32 9 :: bytes"
  have "?pub \<noteq> []" by simp
  then obtain res st' where run: "Run toy_disks toy_libs toy_installer (toy_request ?pub) ([], toy_blank) = (Inr res, st')"
    using toy_Run [of ?pub] unfolding succeeds_def by blast
  have req: "rq_Seal (toy_request ?pub)" "length (rq_OperatorPubkey (toy_request ?pub)) = 32"
    by (simp_all add: toy_request_def)
  obtain b where b: "\<And>H' db w now dup duration r db' w'.
       ho_read H' ''/perm/firstboot.json'' w = Inr (il_marshal toy_libs b) \<and> sq_identity db = None \<and> sq_keys db = [] \<and>
       IngestFirstBoot H' toy_libs (sqlite_identity now) (sqlite_authKeys dup now) now ''/perm'' (db, w :: toy_host) = (r, (db', w')) \<Longrightarrow>
       map fst (sq_keys (db' :: unit sqlite_db)) = [ir_Kid res]"
    using sealed_install_is_adopted [where ?'v = toy_host and ?'b = unit, OF run req toy_json] by blast
  have "map fst (sq_keys (fst (snd (first_boot b)))) = [ir_Kid res]"
    by (rule b [of "booting_host (il_marshal toy_libs b)" toy_blank sqlite_empty 0 "''UNIQUE''" "fst (first_boot b)" _ "snd (snd (first_boot b))"])
      (simp add: booting_host_read sqlite_empty_fresh first_boot_def)
  with run show ?thesis by (intro exI conjI)
qed


end
