(* ===== verification/Spec2Isabelle.thy ===== *)
theory Spec2Isabelle
  imports Capsule_Container Capsule_Firecracker Capsule_Client Capsule_Tls Capsule_Controllers Capsule_AB Capsule_Volume Capsule_Install
begin

text \<open>
  Verification of capsule (\<^verbatim>\<open>src/\<close>, Go): a daemon, \<^verbatim>\<open>capsuled\<close>, that runs as process 1 of an
  appliance, keeps the containers and microVMs of one machine in their desired state, updates its own system image over
  two slots, and is controlled over authenticated gRPC by the client \<^verbatim>\<open>capsulectl\<close>.

  \<^bold>\<open>Parts and how they interact.\<close> The client sends a workload; the router and a controller pass it to the workload service,
  which validates and stores it and wakes the reconciler. A pass of the reconciler lists the stored rows and calls the containerd
  or Firecracker driver for each, then stores the phase it observed. Volumes are logical volumes with a row each. Updates write
  a verified bundle to the inactive slot, boot it once and roll back unless it is confirmed. A fresh capsule accepts one adoption while
  its claim window is open; later requests need a token signed by an enrolled key. The installer prepares a disk with a sealed identity,
  which the first boot ingests. Capsules announce themselves by mDNS.

  \<^bold>\<open>Conventions.\<close> A Go struct is a \<open>record\<close>, an enum a \<open>datatype\<close>, a Go interface a record of operations on a state type. A call that
  may fail and has effects is a function from a state to a result (\<open>go_error + 'a\<close>) and the next state; it keeps the effects it had
  before it failed. Code outside \<^verbatim>\<open>src/\<close> (containerd, Firecracker, LVM and e2fsprogs, iptables, the SQL engine, the mDNS library, cryptography,
  JSON and YAML, system calls) is a parameter of the definitions that use it. What is relied on is a named predicate
  (\<open>containerd_ok\<close>, \<open>iptables_ok\<close>, \<open>mdns_ok\<close>, \<open>local_ok\<close>, \<open>yaml_ok\<close>, \<open>codec_ok\<close>, ...), and the witness of each property
  with such a hypothesis instantiates it by a concrete function. Machine integers are words or carry their
  wrap-around where overflow matters.

  \<^bold>\<open>Theories.\<close>

  \<^item> \<open>Capsule_Prelude\<close>: errors and results, sequencing of fallible calls, frame rules (\<open>keeps\<close>), Go strings and numbers.
    \<open>Capsule_Path\<close>: \<^verbatim>\<open>path\<close> and \<^verbatim>\<open>path/filepath\<close>. \<open>Capsule_Files\<close>: replacing a file by a rename, and that it is all or nothing.
    \<open>Capsule_Machine\<close>: commands, devices, files and mounts of the host.
  \<^item> \<open>Capsule_Proto\<close>: messages of \<^verbatim>\<open>models/capsule/v1\<close>. \<open>Capsule_Runtime\<close>: driver interfaces (\<^verbatim>\<open>runtime/runtime.go\<close>).
  \<^item> \<open>Capsule_Store\<close>, \<open>Capsule_Store_Memory\<close>, \<open>Capsule_Store_Sqlite\<close>: \<^verbatim>\<open>store/\<close>. The store contracts are the locales
    \<open>keyed_store\<close>, \<open>singleton_store\<close> and \<open>auth_key_laws\<close>, interpreted on the implementations.
  \<^item> \<open>Capsule_Workload\<close> (\<^verbatim>\<open>core/workload/service.go\<close>): every operation for any store with the laws of \<open>workload_backend\<close>.
    \<open>Capsule_Reconciler\<close> (\<^verbatim>\<open>core/reconciler\<close>): a pass brings each workload to its desired state or reports the failure, no wakeup
    is lost, and a stale listing can restart a deleted workload.
  \<^item> \<open>Capsule_Container\<close> (\<^verbatim>\<open>runtime/container\<close>, \<^verbatim>\<open>core/image\<close>), \<open>Capsule_Firecracker\<close> and \<open>Capsule_Portmap\<close>
    (\<^verbatim>\<open>runtime/microvm/firecracker\<close>): both drivers keep the contract the reconciler relies on; port rules are removed completely.
  \<^item> \<open>Capsule_Auth\<close> and \<open>Capsule_Tls\<close> (\<^verbatim>\<open>auth/\<close>), \<open>Capsule_Identity\<close> (\<^verbatim>\<open>controllers/identity.go\<close> and startup in \<^verbatim>\<open>cmd/capsuled\<close>):
    tokens are sound, requests need one, adoption claims once, the TLS certificate is stable; with the races and the replay the code allows.
  \<^item> \<open>Capsule_Update\<close> and \<open>Capsule_AB\<close> (\<^verbatim>\<open>core/update\<close>): the service, and its interleaving with reboots and the deadline as a step
    relation; which slot boots unattended, which image survives, when an update is rolled back.
  \<^item> \<open>Capsule_Volume\<close> (\<^verbatim>\<open>core/volume\<close>, \<^verbatim>\<open>controllers/volume.go\<close>): creation is all or nothing; rows and logical volumes stay in step.
  \<^item> \<open>Capsule_Disk\<close>, \<open>Capsule_Install\<close> (\<^verbatim>\<open>core/install\<close>, \<^verbatim>\<open>controllers/install.go\<close>) and \<open>Capsule_Boot\<close> (\<^verbatim>\<open>boot/\<close>):
    layout, partition table, installation, first boot, and the duties of process 1.
  \<^item> \<open>Capsule_Discovery\<close> (\<^verbatim>\<open>core/mdns\<close>, \<^verbatim>\<open>supervise\<close>): announcements read back, restart waits stay within their bounds.
  \<^item> \<open>Capsule_Controllers\<close> (\<^verbatim>\<open>controllers/workload.go\<close>, \<^verbatim>\<open>workload_copy.go\<close>, \<^verbatim>\<open>capsule.go\<close>, \<^verbatim>\<open>router\<close>): request handlers, with the
    tail of a log computed backwards in blocks equal to its last lines.
  \<^item> \<open>Capsule_Client\<close> (\<^verbatim>\<open>cmd/capsulectl\<close>): the registry of contexts, enrolment, the client side of an installation, and copies;
    extraction passes only paths below the destination to the file system, which links in an archive can still lead outside.

  \<^bold>\<open>Bounds.\<close> The only fuel is that of \<open>guest_loop\<close>: 1202 attempts, since 60 s hold 1200 pauses of 50 ms; \<open>guest_wait_terminates\<close>
  shows that it suffices. \<open>tail_loop\<close>, \<open>copy_loop\<close> and \<open>write_lines\<close> have termination proofs; endless loops
  (the reconciler, the supervisor) are step relations or run over a list of events.

  \<^bold>\<open>Not modelled.\<close> The guest agent \<^verbatim>\<open>cmd/capsule-guest\<close>, which runs inside the virtual machine and consists of calls
  to the guest kernel and to runc. The interleaving of the goroutines that pump streams (exec, copy, image push, standard input), whose
  data is modelled as lists of events. The minting of certificates from a template. The floating point share of the thin pool.
  Reaping of zombies, the exec lock and log output. In the client, rendering, the terminal, calls that only forward a request, and
  the packing of local trees. Generated code and the stubs for other systems.

  This theory holds the property that spans the service, the store, the reconciler and the container driver.
\<close>

section \<open>From a request to a running container\<close>

lemma containerd_drivers_ok:
  assumes "containerd_ok D" "rc_driver rc = Some (containerd_driver D enc sha clock)" "rc_vm rc = None"
  shows "drivers_ok rc (\<lambda>r. container_running D (snd r))"
  using assms containerd_contract [OF assms(1)] by (simp add: drivers_ok_def containerd_driver_def)

text \<open>C1: an applied workload runs. On a capsule that keeps its state in the database and runs containers with containerd,
  applying a valid workload that should run succeeds, and after the next pass of the reconciler its container runs
  or the stored row reports the failure.\<close>

theorem applied_container_runs:
  assumes codec: "codec_ok marshal unmarshal"
    and svc: "svc_store (rc_service rc) = sqlite_workloads marshal unmarshal now"
    and inv: "sqlite_wl_inv unmarshal (w_store st)"
    and valid: "is_ok (validate (Some w))"
    and run: "wl_desired_state w \<in> {DESIRED_STATE_UNSPECIFIED, DESIRED_STATE_RUNNING}"
    and driver: "rc_driver rc = Some (containerd_driver D enc sha clock)" "rc_vm rc = None" "containerd_ok D"
  shows "\<exists>m st'. workload_Apply (rc_service rc) (Some w) st = (Inr m, st') \<and>
    (container_running D (snd (w_rt (Tick rc st'))) (wl_name w) \<or>
     reported_failed (sq_rows unmarshal (Tick rc st') (wl_name w)))"
proof -
  obtain v where v: "validate (Some w) = Inr v" using valid by (auto simp: is_ok_iff)
  obtain m s' where s': "workload_Apply (rc_service rc) (Some w) st = (Inr m, notifyChange (rc_service rc) (st\<lparr>w_store := s'\<rparr>))"
    "sqlite_wl_inv unmarshal s'" "rows_lookup (decoded unmarshal) (sq_workloads s') (wl_name w) = Some m"
    "wl_desired_state m = wl_desired_state w"
  proof -
    let ?m = "w\<lparr>wl_status := (case rows_lookup (decoded unmarshal) (sq_workloads (w_store st)) (wl_name w) of
      None \<Rightarrow> wl_status w | Some old \<Rightarrow> wl_status old)\<rparr>"
    have "wl_desired_state ?m = wl_desired_state w" by simp
    then show thesis
      using workload_backend.Apply_ok [OF sqlite_backend [OF codec] svc inv v refl] that [of ?m] fun_upd_same by metis
  qed
  let ?st = "notifyChange (rc_service rc) (st\<lparr>w_store := s'\<rparr>)"
  have "container_running D (snd (w_rt (Tick rc ?st))) (wl_name w) \<or> reported_failed (sq_rows unmarshal (Tick rc ?st) (wl_name w))"
    using workload_backend.Tick_running [OF sqlite_backend [OF codec] svc, of ?st "wl_name w" m "\<lambda>r. container_running D (snd r)"]
      containerd_drivers_ok [OF driver(3,1,2)] s' run by (simp add: sq_rows_def)
  with s'(1) show ?thesis by blast
qed

definition example_capsule :: "(workload sqlite_db, toy_containers dstate) reconciler" where
  "example_capsule = (let d = containerd_driver toy_containerd (\<lambda>_. Inr []) (\<lambda>_. ''h'') 5 in
     \<lparr>rc_service = \<lparr>svc_store = sqlite_workloads Inr Inr 100, svc_driver = Some d, svc_vm = None, svc_onChange = True\<rparr>,
      rc_driver = Some d, rc_vm = None\<rparr>)"

theorem applied_container_runs_witness:
  "\<exists>m st'. workload_Apply (rc_service example_capsule) (Some example_web)
      \<lparr>w_store = sqlite_empty, w_rt = (example_driver_state, []), w_wake = False\<rparr> = (Inr m, st') \<and>
    (container_running toy_containerd (snd (w_rt (Tick example_capsule st'))) ''web'' \<or>
     reported_failed (sq_rows Inr (Tick example_capsule st') ''web''))"
proof -
  have v: "is_ok (validate (Some example_web))" by code_simp
  have w: "wl_name example_web = ''web''" "wl_desired_state example_web = DESIRED_STATE_RUNNING" by (simp_all add: example_web_def)
  have i: "sqlite_wl_inv Inr (w_store \<lparr>w_store = sqlite_empty, w_rt = (example_driver_state, []), w_wake = False\<rparr>)"
    by (simp add: sqlite_wl_inv_def sqlite_inv_def sqlite_empty_def)
  show ?thesis
    using applied_container_runs [OF codec_ok_id _ i v _ _ _ toy_containerd_ok, of example_capsule 100] w
    by (simp add: example_capsule_def Let_def)
qed

end
